(* ===== verification/Prelude.thy ===== *)
theory Prelude
  imports Main "HOL-Library.Word" "HOL-Library.Signed_Division" "HOL-Library.Sublist"
begin

text \<open>
  The vocabulary every component shares: Go's 64-bit signed integers (\<open>int64\<close> and the
  \<open>time.Duration\<close> built on it) as \<open>64 word\<close> read with \<open>sint\<close>, the collections the
  proofs rewrite with, and a few facts on lists and option values that no library theory has.

  Go's \<open>int\<close> (64 bits on the platforms the package names) is \<open>int\<close> where the code only
  compares or counts, and \<open>64 word\<close> where the code computes with it and relies on, or guards
  against, the wrap-around.
\<close>

section \<open>Collections\<close>

named_theorems dur_simps
  \<open>signed comparison, bounds and arithmetic of 64-bit values, as facts on \<open>sint\<close>\<close>
named_theorems err_casts
  \<open>the type tests and methods of the error types, to be unfolded on a known constructor\<close>
named_theorems err_simps
  \<open>how the classification of an error passes through the wrappers of the package\<close>
named_theorems world_simps
  \<open>what an operation leaves of the environment it runs in\<close>

section \<open>64-bit signed integers\<close>

type_synonym int64 = "64 word"
type_synonym duration = int64

abbreviation max_int64 :: int64 where
  "max_int64 \<equiv> 9223372036854775807"

lemma sint64_bounds: "- 9223372036854775808 \<le> sint (d :: int64)" "sint (d :: int64) \<le> 9223372036854775807"
  using sint_greater_eq [of d] sint_less [of d] by simp_all

lemma sint64_lower: "- (2 ^ 63) \<le> sint (d :: int64)"
  using sint64_bounds(1) [of d] by simp

lemma sint64_upper: "sint (d :: int64) < 2 ^ 63"
  using sint64_bounds(2) [of d] by simp

lemma sint_of_int64: "sint (word_of_int i :: int64) = (i + 2 ^ 63) mod 2 ^ 64 - 2 ^ 63"
  by (simp add: signed_of_int signed_take_bit_eq_take_bit_shift take_bit_eq_mod)

lemma sint_of_int64_id [dur_simps]:
  "- 9223372036854775808 \<le> i \<Longrightarrow> i \<le> 9223372036854775807 \<Longrightarrow> sint (word_of_int i :: int64) = i"
  by (simp add: sint_of_int64)

lemma sint_of_int64_over:
  assumes "9223372036854775808 \<le> i" and "i \<le> 18446744073709551615"
  shows "sint (word_of_int i :: int64) = i - 18446744073709551616"
proof -
  have "(i + 2 ^ 63) mod 2 ^ 64 = i - 2 ^ 63"
    using assms by (intro int_mod_pos_eq [where q = 1]) simp_all
  then show ?thesis by (simp add: sint_of_int64)
qed

lemma sint_word_of_nat: "k \<le> 9223372036854775807 \<Longrightarrow> sint (word_of_nat k :: int64) = int k"
  using sint_of_int64_id [of "int k"] by simp

lemma int64_eqI: "sint a = sint b \<Longrightarrow> a = (b :: int64)"
  by (rule signed_word_eqI) simp

lemma int64_eq_iff: "a = (b :: int64) \<longleftrightarrow> sint a = sint b"
  by (auto intro: int64_eqI)

lemma sless_iff [dur_simps]: "a <s b \<longleftrightarrow> sint a < sint (b :: int64)"
  by (rule word_sless_alt)

lemma sle_iff [dur_simps]: "a \<le>s b \<longleftrightarrow> sint a \<le> sint (b :: int64)"
  by (rule word_sle_eq)

lemma int64_add: "a + b = word_of_int (sint a + sint b)" for a b :: int64
  by simp

lemma int64_diff: "a - b = word_of_int (sint a - sint b)" for a b :: int64
  by simp

lemma int64_mult: "a * b = word_of_int (sint a * sint b)" for a b :: int64
  by simp

lemma sint_add64:
  "- 9223372036854775808 \<le> sint a + sint b \<Longrightarrow> sint a + sint b \<le> 9223372036854775807 \<Longrightarrow>
     sint (a + b) = sint a + sint (b :: int64)"
  by (subst int64_add) (rule sint_of_int64_id)

lemma sint_diff64:
  "- 9223372036854775808 \<le> sint a - sint b \<Longrightarrow> sint a - sint b \<le> 9223372036854775807 \<Longrightarrow>
     sint (a - b) = sint a - sint (b :: int64)"
  by (subst int64_diff) (rule sint_of_int64_id)

lemma sint_mult64:
  "- 9223372036854775808 \<le> sint a * sint b \<Longrightarrow> sint a * sint b \<le> 9223372036854775807 \<Longrightarrow>
     sint (a * b) = sint a * sint (b :: int64)"
  by (subst int64_mult) (rule sint_of_int64_id)

text \<open>Go's builtin \<open>min\<close> on signed operands.\<close>

definition smin :: "int64 \<Rightarrow> int64 \<Rightarrow> int64" where
  "smin a b = (if b <s a then b else a)"

lemma sint_smin [dur_simps]: "sint (smin a b) = min (sint a) (sint b)"
  by (auto simp: smin_def sless_iff)

text \<open>A quantity brought into the range of \<open>int64\<close> by saturation, as \<open>Time.Sub\<close> does.\<close>

definition sat64 :: "int \<Rightarrow> int64" where
  "sat64 i = (if i < - 9223372036854775808 then word_of_int (- 9223372036854775808)
              else if i > 9223372036854775807 then max_int64 else word_of_int i)"

lemma sint_sat64 [dur_simps]:
  "sint (sat64 i) = max (- 9223372036854775808) (min i 9223372036854775807)"
  by (simp add: sat64_def sint_of_int64_id)

section \<open>Lists and options\<close>

lemma find_Some_set: "List.find P xs = Some x \<Longrightarrow> x \<in> set xs \<and> P x"
  by (auto simp: find_Some_iff)

lemma find_None_all: "List.find P xs = None \<longleftrightarrow> (\<forall>x \<in> set xs. \<not> P x)"
  by (auto simp: find_None_iff)

fun first_some :: "('a \<Rightarrow> 'b option) \<Rightarrow> 'a list \<Rightarrow> 'b option" where
  "first_some f [] = None"
| "first_some f (x # xs) = (case f x of None \<Rightarrow> first_some f xs | Some y \<Rightarrow> Some y)"

lemma first_some_None: "first_some f xs = None \<longleftrightarrow> (\<forall>x \<in> set xs. f x = None)"
  by (induction xs) (auto split: option.splits)

lemma first_some_Some: "first_some f xs = Some y \<Longrightarrow> \<exists>x \<in> set xs. f x = Some y"
  by (induction xs) (auto split: option.splits)

lemma option_neq_None: "x \<noteq> None \<longleftrightarrow> (\<exists>y. x = Some y)"
  by auto

end
