(* ===== verification/Go_Strings.thy ===== *)
theory Go_Strings
  imports Prelude
begin

text \<open>
  The part of Go's \<open>strings\<close> and \<open>strconv\<close> packages the program calls, on byte strings
  (a \<open>char\<close> is one byte, as in a Go \<open>string\<close>): decimal numbers, \<open>TrimSpace\<close>, \<open>EqualFold\<close>
  against an ASCII constant, \<open>ReplaceAll\<close>. \<open>HasPrefix\<close>, \<open>HasSuffix\<close> and \<open>Contains\<close> are
  \<open>prefix\<close>, \<open>suffix\<close> and \<open>sublist\<close> of the library. None of these is code of the
  repository; the components below use them where the code calls the standard library.
\<close>

section \<open>Bytes\<close>

abbreviation byte_of :: "char \<Rightarrow> nat" where
  "byte_of c \<equiv> of_char c"

lemma byte_of_eq_iff: "byte_of c = byte_of d \<longleftrightarrow> c = d"
  by simp

lemma byte_of_less: "byte_of c < 256"
  by simp

definition is_upper :: "char \<Rightarrow> bool" where
  "is_upper c \<longleftrightarrow> 65 \<le> byte_of c \<and> byte_of c \<le> 90"

definition lower_byte :: "char \<Rightarrow> char" where
  "lower_byte c = (if is_upper c then char_of (byte_of c + 32) else c)"

lemma code_lower_byte: "byte_of (lower_byte c) = (if is_upper c then byte_of c + 32 else byte_of c)"
  by (simp add: lower_byte_def is_upper_def)

lemma lower_byte_idem [simp]: "lower_byte (lower_byte c) = lower_byte c"
  by (subst byte_of_eq_iff [symmetric], simp only: code_lower_byte)
     (auto simp: is_upper_def code_lower_byte)

lemma lower_byte_high: "128 \<le> byte_of c \<Longrightarrow> lower_byte c = c"
  by (simp add: lower_byte_def is_upper_def)

section \<open>Decimal numbers\<close>

definition is_digit :: "char \<Rightarrow> bool" where
  "is_digit c \<longleftrightarrow> 48 \<le> byte_of c \<and> byte_of c \<le> 57"

definition digit_val :: "char \<Rightarrow> nat" where
  "digit_val c = byte_of c - 48"

definition dec_value :: "string \<Rightarrow> nat" where
  "dec_value s = foldl (\<lambda>n c. 10 * n + digit_val c) 0 s"

definition digit_char :: "nat \<Rightarrow> char" where
  "digit_char n = ''0123456789'' ! n"

function dec_str :: "int \<Rightarrow> string" where
  "dec_str i = (if i < 10 then [digit_char (nat i)] else dec_str (i div 10) @ [digit_char (nat (i mod 10))])"
  by pat_completeness auto
termination
  by (relation "measure nat") auto

declare dec_str.simps [simp del]

definition nat_str :: "nat \<Rightarrow> string" where
  "nat_str n = dec_str (int n)"

definition itoa :: "int \<Rightarrow> string" where
  "itoa i = (if i < 0 then ''-'' @ dec_str (- i) else dec_str i)"

lemma nat_str_rec: "nat_str n = (if n < 10 then [digit_char n] else nat_str (n div 10) @ [digit_char (n mod 10)])"
  unfolding nat_str_def by (subst dec_str.simps) (auto simp: zdiv_int nat_mod_as_int)

lemma code_digit_char: "n < 10 \<Longrightarrow> byte_of (digit_char n) = 48 + n"
  by (auto simp: digit_char_def less_Suc_eq numeral_eq_Suc)

lemma digit_char_digit [simp]: "n < 10 \<Longrightarrow> is_digit (digit_char n)"
  by (simp add: is_digit_def code_digit_char)

lemma digit_val_char [simp]: "n < 10 \<Longrightarrow> digit_val (digit_char n) = n"
  by (simp add: digit_val_def code_digit_char)

lemma dec_value_snoc: "dec_value (s @ [c]) = 10 * dec_value s + digit_val c"
  by (simp add: dec_value_def)

lemma dec_value_Nil [simp]: "dec_value [] = 0"
  by (simp add: dec_value_def)

lemma foldl_dec: "foldl (\<lambda>n c. 10 * n + digit_val c) a s = a * 10 ^ length s + dec_value s"
proof (induction s rule: rev_induct)
  case (snoc c s)
  then show ?case by (simp add: dec_value_snoc algebra_simps)
qed simp

lemma dec_value_Cons: "dec_value (c # s) = digit_val c * 10 ^ length s + dec_value s"
  using foldl_dec [of "digit_val c" s] by (simp add: dec_value_def)

lemma dec_value_less:
  "list_all is_digit s \<Longrightarrow> dec_value s < 10 ^ length s"
proof (induction s rule: rev_induct)
  case (snoc c s)
  then have "byte_of c \<le> 57" by (simp add: is_digit_def)
  then have "digit_val c \<le> 9" unfolding digit_val_def by linarith
  with snoc show ?case by (simp add: dec_value_snoc)
qed simp

lemma dec_value_nat_str [simp]: "dec_value (nat_str n) = n"
proof (induction n rule: less_induct)
  case (less n)
  show ?case
  proof (cases "n < 10")
    case True
    then show ?thesis by (simp add: nat_str_rec [of n] dec_value_Cons)
  next
    case False
    with less show ?thesis by (simp add: nat_str_rec [of n] dec_value_snoc)
  qed
qed

lemma nat_str_digits: "list_all is_digit (nat_str n)"
proof (induction n rule: less_induct)
  case (less n)
  then show ?case by (cases "n < 10") (simp_all add: nat_str_rec [of n])
qed

lemma nat_str_neq_Nil [simp]: "nat_str n \<noteq> []"
  by (subst nat_str_rec) simp

lemma dec_value_strip_zeros: "dec_value (dropWhile (\<lambda>c. c = CHR ''0'') s) = dec_value s"
  by (induction s) (simp_all add: dec_value_Cons digit_val_def)

section \<open>Trimming white space\<close>

text \<open>
  The UTF-8 encodings of the runes \<open>unicode.IsSpace\<close> accepts: the six ASCII blanks, U+0085,
  U+00A0, U+1680, U+2000 to U+200A, U+2028, U+2029, U+202F, U+205F and U+3000.
\<close>

definition space_runes :: "string list" where
  "space_runes =
     [[CHR 0x09], [CHR 0x0A], [CHR 0x0B], [CHR 0x0C], [CHR 0x0D], [CHR 0x20],
      [CHR 0xC2, CHR 0x85], [CHR 0xC2, CHR 0xA0], [CHR 0xE1, CHR 0x9A, CHR 0x80]]
     @ map (\<lambda>c. [CHR 0xE2, CHR 0x80, c])
         [CHR 0x80, CHR 0x81, CHR 0x82, CHR 0x83, CHR 0x84, CHR 0x85, CHR 0x86, CHR 0x87,
          CHR 0x88, CHR 0x89, CHR 0x8A, CHR 0xA8, CHR 0xA9, CHR 0xAF]
     @ [[CHR 0xE2, CHR 0x81, CHR 0x9F], [CHR 0xE3, CHR 0x80, CHR 0x80]]"

function trim_runes :: "string list \<Rightarrow> string \<Rightarrow> string" where
  "trim_runes rs s =
     (case List.find (\<lambda>r. r \<noteq> [] \<and> prefix r s) rs of
        None \<Rightarrow> s
      | Some r \<Rightarrow> trim_runes rs (drop (length r) s))"
  by pat_completeness auto
termination
  by (relation "measure (\<lambda>(rs, s). length s)")
     (auto dest!: find_Some_set simp: prefix_def)

declare trim_runes.simps [simp del]

definition trim_space :: "string \<Rightarrow> string" where
  "trim_space s = rev (trim_runes (map rev space_runes) (rev (trim_runes space_runes s)))"

section \<open>Case folding\<close>

text \<open>
  \<open>strings.EqualFold(s, t)\<close> for an ASCII \<open>t\<close>. It is Unicode simple folding, so besides the two
  ASCII cases of a letter two runes outside ASCII match one: U+017F (long s, bytes C5 BF)
  matches \<open>s\<close>, and U+212A (Kelvin sign, bytes E2 84 AA) matches \<open>k\<close>.
\<close>

fun equal_fold :: "string \<Rightarrow> string \<Rightarrow> bool" where
  "equal_fold s [] \<longleftrightarrow> s = []"
| "equal_fold s (t # ts) \<longleftrightarrow>
     (case s of
        [] \<Rightarrow> False
      | c # cs \<Rightarrow>
          if byte_of c < 128 then lower_byte c = lower_byte t \<and> equal_fold cs ts
          else (lower_byte t = CHR ''s'' \<and> prefix ([CHR 0xC5, CHR 0xBF]) s \<and> equal_fold (drop 2 s) ts) \<or>
               (lower_byte t = CHR ''k'' \<and> prefix ([CHR 0xE2, CHR 0x84, CHR 0xAA]) s \<and> equal_fold (drop 3 s) ts))"

lemma equal_fold_ascii:
  "list_all (\<lambda>c. byte_of c < 128) s \<Longrightarrow> equal_fold s t \<longleftrightarrow> map lower_byte s = map lower_byte t"
proof (induction s t rule: equal_fold.induct)
  case (2 s t ts)
  then show ?case by (cases s) simp_all
qed simp

section \<open>Replacing\<close>

text \<open>\<open>strings.ReplaceAll\<close> with a non-empty needle: leftmost occurrences, none overlapping.\<close>

function replace_all :: "string \<Rightarrow> string \<Rightarrow> string \<Rightarrow> string" where
  "replace_all old new s =
     (if old = [] then s
      else case s of
        [] \<Rightarrow> []
      | c # cs \<Rightarrow>
          if prefix old s then new @ replace_all old new (drop (length old) s)
          else c # replace_all old new cs)"
  by pat_completeness auto
termination
  by (relation "measure (\<lambda>(old, new, s). length s)") auto

declare replace_all.simps [simp del]

lemma replace_all_Nil [simp]: "replace_all old new [] = []"
  by (subst replace_all.simps) simp

lemma replace_all_hit:
  "old \<noteq> [] \<Longrightarrow> replace_all old new (old @ s) = new @ replace_all old new s"
  by (subst replace_all.simps) (auto simp: prefix_def neq_Nil_conv)

lemma replace_all_miss:
  "old \<noteq> [] \<Longrightarrow> \<not> prefix old (c # cs) \<Longrightarrow> replace_all old new (c # cs) = c # replace_all old new cs"
  by (subst replace_all.simps) simp

lemma replace_all_absent: "\<not> sublist old s \<Longrightarrow> replace_all old new s = s"
proof (induction s)
  case (Cons c cs)
  then have "old \<noteq> []" and "\<not> prefix old (c # cs)" and "\<not> sublist old cs"
    by (auto simp: sublist_Cons_right)
  then show ?case by (simp add: replace_all_miss Cons.IH)
qed simp

end
