(* ===== verification/Go_Time.thy ===== *)
theory Go_Time
  imports Go_Strings
begin

text \<open>
  The part of Go's \<open>time\<close> package the program calls: the units of a \<open>Duration\<close>, the text of one
  (\<open>Duration.String\<close>) and its rounding (\<open>Duration.Round\<close>), and the difference of two readings of
  the monotonic clock (\<open>time.Since\<close>). Clock readings are nanoseconds on the \<open>int\<close> line.
\<close>

section \<open>Units\<close>

abbreviation microsecond :: duration where "microsecond \<equiv> 1000"
abbreviation millisecond :: duration where "millisecond \<equiv> 1000000"
abbreviation second :: duration where "second \<equiv> 1000000000"

section \<open>Text\<close>

definition strip_zeros :: "string \<Rightarrow> string" where
  "strip_zeros s = rev (dropWhile (\<lambda>c. c = CHR ''0'') (rev s))"

text \<open>\<open>fmtFrac\<close>: the low \<open>prec\<close> digits as a fraction without trailing zeros.\<close>

definition fmt_frac :: "int \<Rightarrow> nat \<Rightarrow> string" where
  "fmt_frac u prec =
     (let ds = dec_str (u mod 10 ^ prec);
          frac = strip_zeros (replicate (prec - length ds) CHR ''0'' @ ds)
      in if prec = 0 \<or> frac = [] then [] else CHR ''.'' # frac)"

definition duration_string :: "duration \<Rightarrow> string" where
  "duration_string d =
     (let u = \<bar>sint d\<bar>; sign = (if sint d < 0 then ''-'' else '''')
      in if u = 0 then ''0s''
         else if u < 1000 then sign @ dec_str u @ ''ns''
         else if u < 1000000 then sign @ dec_str (u div 1000) @ fmt_frac u 3 @ [CHR 0xC2, CHR 0xB5] @ ''s''
         else if u < 1000000000 then sign @ dec_str (u div 1000000) @ fmt_frac u 6 @ ''ms''
         else
           (let secs = u div 1000000000; mins = secs div 60; hours = mins div 60
            in sign
               @ (if hours > 0 then dec_str hours @ ''h'' else '''')
               @ (if mins > 0 then dec_str (mins mod 60) @ ''m'' else '''')
               @ dec_str (secs mod 60) @ fmt_frac u 9 @ ''s''))"

section \<open>Rounding and differences\<close>

text \<open>\<open>Duration.Round\<close>: to the nearest multiple of \<open>m\<close>, halves away from zero, saturating.\<close>

definition duration_round :: "duration \<Rightarrow> duration \<Rightarrow> duration" where
  "duration_round d m =
     (if sint m \<le> 0 then d
      else (let a = \<bar>sint d\<bar>; r = a mod sint m;
                up = (if 2 * r < sint m then a - r else a - r + sint m)
            in if sint d < 0 then sat64 (- up) else sat64 up))"

text \<open>\<open>time.Since(start)\<close> at clock reading \<open>now\<close>.\<close>

definition since :: "int \<Rightarrow> int \<Rightarrow> duration" where
  "since now start = sat64 (now - start)"

lemma sint_since:
  "start \<le> now \<Longrightarrow> sint (since now start) = min (now - start) 9223372036854775807"
  by (simp add: since_def sint_sat64)


end
