(* ===== verification/Errors.thy ===== *)
theory Errors
  imports Go_Time
begin

text \<open>
  Go error values, the walks of the \<open>errors\<close> package over them, and the error types and marks of
  \<open>httpx.go\<close> (lines 21 to 275) with \<open>unwrapsTo\<close> (657 to 672) and \<open>IsRetryableStatus\<close> (472 to 485).

  An \<open>error\<close> interface value is an \<open>err option\<close>, \<open>None\<close> for nil. The constructors of \<open>err\<close> are
  the package's own types and sentinels, the standard library's types and sentinels its code
  names, and \<open>ForeignError\<close> for every other type: its record says which of the interfaces the
  package looks for the type implements and what its methods answer, \<open>claims\<close> lists the targets
  its \<open>Is\<close> method accepts, and its last argument is what it unwraps to. Sentinels compare by
  identity in Go and by constructor here; no other comparison of error values occurs in the code.
  Types with an \<open>As\<close> method of their own and typed nil pointers are outside the model.
\<close>

section \<open>Statuses worth another attempt\<close>

definition IsRetryableStatus :: "int \<Rightarrow> bool" where
  "IsRetryableStatus code =
     (if code = 408 \<or> code = 429 then True
      else if code = 501 \<or> code = 505 \<or> code = 506 \<or> code = 508 \<or> code = 510 \<or> code = 511 then False
      else code \<ge> 500 \<and> code \<le> 599)"

section \<open>Error values\<close>

datatype RedirectReason =
    RedirectNotAllowed | RedirectOtherOrigin | RedirectDowngrade | RedirectTooMany

datatype errno = ECONNREFUSED | ECONNRESET | EPIPE | EAGAIN | ETIMEDOUT | OtherErrno nat

record foreign =
  f_text :: string
  f_transient :: "bool option"
  f_hint :: "duration option"
  f_timeout :: "bool option"
  f_temporary :: bool

datatype (plugins only: code size) err =
    \<comment> \<open>types of the package\<close>
    AuthError string
  | RateLimitError string duration
  | HTTPStatusError int
  | StatusError string int
  | ResponseTooLargeError int64
  | PermanentError err
  | TransientError err
  | AttemptTimeoutError err
  | RetryAfterError err duration
  | RedirectRefusedError string RedirectReason
    \<comment> \<open>sentinels of the package\<close>
  | ErrRateLimited | ErrServerError | ErrElapsed | ErrRequestFailed | ErrServerClosed | ErrNoCertsInPEM
    \<comment> \<open>\<open>errors.New\<close>, \<open>fmt.Errorf\<close> with one \<open>%w\<close> after its prefix (the separator included), \<open>errors.Join\<close>\<close>
  | NewError string
  | WrapError string err
  | JoinError "err list"
    \<comment> \<open>sentinels of the standard library\<close>
  | Canceled | DeadlineExceeded | IoEOF | IoErrUnexpectedEOF | ErrSchemeMismatch | ErrUseLastResponse
  | Errno errno
    \<comment> \<open>types of the standard library\<close>
  | SyscallError string err
  | UrlError string string "err option"
  | OpError string string "err option"
  | DNSError string bool "err option"
  | CertificateVerificationError err
  | UnknownAuthorityError string
  | HostnameError string
  | CertificateInvalidError string
  | RecordHeaderError string
  | MaxBytesError int64
  | HttpTimeoutError string
  | NetTimeoutError
  | NetCanceledError
  | ForeignError foreign "err list" "err list"

subsection \<open>Unwrapping\<close>

text \<open>The two shapes of an \<open>Unwrap\<close> method, and none.\<close>

datatype unwrapping = NoUnwrap | UnwrapOne "err option" | UnwrapMany "err list"

definition unwrap :: "err \<Rightarrow> unwrapping" where [err_casts]:
  "unwrap x = (case x of
      PermanentError e \<Rightarrow> UnwrapOne (Some e)
    | TransientError e \<Rightarrow> UnwrapOne (Some e)
    | AttemptTimeoutError e \<Rightarrow> UnwrapOne (Some e)
    | RetryAfterError e h \<Rightarrow> UnwrapOne (Some e)
    | ErrServerClosed \<Rightarrow> UnwrapOne (Some IoEOF)
    | WrapError p e \<Rightarrow> UnwrapOne (Some e)
    | JoinError es \<Rightarrow> UnwrapMany es
    | SyscallError c e \<Rightarrow> UnwrapOne (Some e)
    | UrlError op u e \<Rightarrow> UnwrapOne e
    | OpError op w e \<Rightarrow> UnwrapOne e
    | DNSError m t e \<Rightarrow> UnwrapOne e
    | CertificateVerificationError e \<Rightarrow> UnwrapOne (Some e)
    | ForeignError f claims es \<Rightarrow> UnwrapMany es
    | _ \<Rightarrow> NoUnwrap)"

definition kids :: "err \<Rightarrow> err list" where
  "kids e = (case unwrap e of
               NoUnwrap \<Rightarrow> []
             | UnwrapOne None \<Rightarrow> []
             | UnwrapOne (Some x) \<Rightarrow> [x]
             | UnwrapMany xs \<Rightarrow> xs)"

lemma size_list_member: "x \<in> set xs \<Longrightarrow> size x < Suc (size_list size xs)"
  using size_list_estimation' [of x xs "size x" size] by simp

definition depth :: "err \<Rightarrow> nat" where
  "depth e = 2 * size e + (if e = ErrServerClosed then 1 else 0)"

lemma kids_size: "x \<in> set (kids e) \<Longrightarrow> e \<noteq> ErrServerClosed \<Longrightarrow> size x < size e"
  by (cases e; simp add: kids_def unwrap_def split: option.splits)
     (auto dest: size_list_member)

lemma kids_depth: "x \<in> set (kids e) \<Longrightarrow> depth x < depth e"
  using kids_size [of x e] by (cases "e = ErrServerClosed") (auto simp: depth_def kids_def unwrap_def)

text \<open>The nodes \<open>errors.Is\<close> and \<open>errors.As\<close> visit, in their order: depth first, a node before
  what it unwraps to.\<close>

function nodes :: "err \<Rightarrow> err list" where
  "nodes e = e # concat (map nodes (kids e))"
  by pat_completeness auto
termination
  by (relation "measure depth") (auto dest: kids_depth)

declare nodes.simps [simp del]

lemma nodes_self [simp]: "e \<in> set (nodes e)"
  by (subst nodes.simps) simp

lemma nodes_kid: "k \<in> set (kids e) \<Longrightarrow> x \<in> set (nodes k) \<Longrightarrow> x \<in> set (nodes e)"
  by (subst nodes.simps) auto

lemma nodes_one: "kids e = [k] \<Longrightarrow> nodes e = e # nodes k"
  by (subst nodes.simps) simp

lemma nodes_leaf: "kids e = [] \<Longrightarrow> nodes e = [e]"
  by (subst nodes.simps) simp

lemma nodes_trans: "x \<in> set (nodes e) \<Longrightarrow> y \<in> set (nodes x) \<Longrightarrow> y \<in> set (nodes e)"
proof (induction e rule: nodes.induct)
  case (1 e)
  from "1.prems"(1) consider "x = e" | k where "k \<in> set (kids e)" "x \<in> set (nodes k)"
    by (subst (asm) nodes.simps) auto
  then show ?case
  proof cases
    case 1
    then show ?thesis using "1.prems"(2) by simp
  next
    case 2
    then show ?thesis using "1.IH" "1.prems"(2) by (blast intro: nodes_kid)
  qed
qed

subsection \<open>Methods\<close>

text \<open>\<open>Is(target)\<close> of the types that have it; for the package's own, \<open>StatusError\<close> and
  \<open>PermanentError\<close>.\<close>

definition StatusError_Is :: "int \<Rightarrow> err \<Rightarrow> bool" where
  "StatusError_Is code target =
     (if target = ErrRateLimited then code = 429
      else if target = ErrServerError then code \<ge> 500
      else False)"

definition PermanentError_Is :: "err \<Rightarrow> bool" where [err_casts]:
  "PermanentError_Is target = (case target of PermanentError e \<Rightarrow> True | _ \<Rightarrow> False)"

definition is_method :: "err \<Rightarrow> err \<Rightarrow> bool" where [err_casts]:
  "is_method x t = (case x of
      StatusError u c \<Rightarrow> StatusError_Is c t
    | PermanentError e \<Rightarrow> PermanentError_Is t
    | HttpTimeoutError m \<Rightarrow> t = DeadlineExceeded
    | NetTimeoutError \<Rightarrow> t = DeadlineExceeded
    | NetCanceledError \<Rightarrow> t = Canceled
    | ForeignError f claims es \<Rightarrow> t \<in> set claims
    | _ \<Rightarrow> False)"

text \<open>\<open>Timeout() bool\<close>: of the library's types; a wrapper of the library asks what it holds.\<close>

fun timeout_method :: "err \<Rightarrow> bool option" where
  "timeout_method DeadlineExceeded = Some True"
| "timeout_method (Errno n) = Some (n = EAGAIN \<or> n = ETIMEDOUT)"
| "timeout_method (SyscallError c e) = Some (timeout_method e = Some True)"
| "timeout_method (UrlError op u None) = Some False"
| "timeout_method (UrlError op u (Some e)) = Some (timeout_method e = Some True)"
| "timeout_method (OpError op w None) = Some False"
| "timeout_method (OpError op w (Some e)) = Some (timeout_method e = Some True)"
| "timeout_method (DNSError m t e) = Some t"
| "timeout_method (HttpTimeoutError m) = Some True"
| "timeout_method NetTimeoutError = Some True"
| "timeout_method (ForeignError f claims es) = f_timeout f"
| "timeout_method _ = None"

text \<open>\<open>net.Error\<close> also asks for \<open>Temporary() bool\<close>, which \<open>os.SyscallError\<close> has not.\<close>

definition net_error :: "err \<Rightarrow> bool option" where [err_casts]:
  "net_error x = (case x of
      SyscallError c e \<Rightarrow> None
    | ForeignError f claims es \<Rightarrow> (if f_temporary f then f_timeout f else None)
    | _ \<Rightarrow> timeout_method x)"

text \<open>\<open>IsTransient() bool\<close>, the \<open>Transient\<close> interface, and \<open>RetryAfterHint()\<close>, the interface of
  that name.\<close>

definition transient_method :: "err \<Rightarrow> bool option" where [err_casts]:
  "transient_method x = (case x of
      HTTPStatusError c \<Rightarrow> Some (IsRetryableStatus c)
    | TransientError e \<Rightarrow> Some True
    | AttemptTimeoutError e \<Rightarrow> Some True
    | ForeignError f claims es \<Rightarrow> f_transient f
    | _ \<Rightarrow> None)"

definition hint_method :: "err \<Rightarrow> duration option" where [err_casts]:
  "hint_method x = (case x of
      RetryAfterError e h \<Rightarrow> Some h
    | ForeignError f claims es \<Rightarrow> f_hint f
    | _ \<Rightarrow> None)"

definition IsServerError :: "int \<Rightarrow> bool" where
  "IsServerError code \<longleftrightarrow> code \<ge> 500"

definition IsClientError :: "int \<Rightarrow> bool" where
  "IsClientError code \<longleftrightarrow> code \<ge> 400 \<and> code < 500"

section \<open>The walks of the errors package\<close>

text \<open>\<open>errors.Is(err, target)\<close>, and \<open>errors.As\<close> with a test-and-read in place of the target
  type: the first node the test accepts.\<close>

definition errors_is :: "err option \<Rightarrow> err \<Rightarrow> bool" where
  "errors_is err target =
     (case err of None \<Rightarrow> False | Some e \<Rightarrow> list_ex (\<lambda>x. x = target \<or> is_method x target) (nodes e))"

definition errors_as :: "(err \<Rightarrow> 'a option) \<Rightarrow> err option \<Rightarrow> 'a option" where
  "errors_as cast err = (case err of None \<Rightarrow> None | Some e \<Rightarrow> first_some cast (nodes e))"

text \<open>The type tests the package asks for.\<close>

definition as_permanent :: "err \<Rightarrow> err option" where [err_casts]:
  "as_permanent x = (case x of PermanentError e \<Rightarrow> Some e | _ \<Rightarrow> None)"
definition as_attempt_timeout :: "err \<Rightarrow> err option" where [err_casts]:
  "as_attempt_timeout x = (case x of AttemptTimeoutError e \<Rightarrow> Some e | _ \<Rightarrow> None)"
definition as_auth :: "err \<Rightarrow> string option" where [err_casts]:
  "as_auth x = (case x of AuthError m \<Rightarrow> Some m | _ \<Rightarrow> None)"
definition as_rate_limit :: "err \<Rightarrow> duration option" where [err_casts]:
  "as_rate_limit x = (case x of RateLimitError m r \<Rightarrow> Some r | _ \<Rightarrow> None)"
definition as_too_large :: "err \<Rightarrow> int64 option" where [err_casts]:
  "as_too_large x = (case x of ResponseTooLargeError n \<Rightarrow> Some n | _ \<Rightarrow> None)"
definition as_url_error :: "err \<Rightarrow> err option option" where [err_casts]:
  "as_url_error x = (case x of UrlError op u e \<Rightarrow> Some e | _ \<Rightarrow> None)"
definition as_op_error :: "err \<Rightarrow> string option" where [err_casts]:
  "as_op_error x = (case x of OpError op w e \<Rightarrow> Some op | _ \<Rightarrow> None)"
definition as_dns_error :: "err \<Rightarrow> bool option" where [err_casts]:
  "as_dns_error x = (case x of DNSError m t e \<Rightarrow> Some t | _ \<Rightarrow> None)"

lemma errors_is_None [simp]: "\<not> errors_is None t"
  by (simp add: errors_is_def)

lemma errors_as_None [simp]: "errors_as cast None = None"
  by (simp add: errors_as_def)

lemma errors_is_iff:
  "errors_is (Some e) t \<longleftrightarrow> (\<exists>x \<in> set (nodes e). x = t \<or> is_method x t)"
  by (simp add: errors_is_def list_ex_iff)

lemma errors_is_node: "t \<in> set (nodes e) \<Longrightarrow> errors_is (Some e) t"
  by (auto simp: errors_is_iff)

lemma errors_as_one:
  "kids w = [e] \<Longrightarrow> cast w = None \<Longrightarrow> errors_as cast (Some w) = errors_as cast (Some e)"
  by (simp add: errors_as_def nodes_one)

lemma errors_as_self: "cast e = Some y \<Longrightarrow> errors_as cast (Some e) = Some y"
  by (simp add: errors_as_def nodes.simps [of e])

lemma errors_is_one:
  "kids w = [e] \<Longrightarrow> w \<noteq> t \<Longrightarrow> \<not> is_method w t \<Longrightarrow> errors_is (Some w) t = errors_is (Some e) t"
  by (simp add: errors_is_def nodes_one)

lemma errors_as_None_iff: "errors_as cast (Some e) = None \<longleftrightarrow> (\<forall>x \<in> set (nodes e). cast x = None)"
  by (simp add: errors_as_def first_some_None)

lemma errors_as_kid:
  "k \<in> set (kids e) \<Longrightarrow> errors_as cast (Some k) \<noteq> None \<Longrightarrow> errors_as cast (Some e) \<noteq> None"
  unfolding errors_as_None_iff by (auto intro: nodes_kid)

lemma kids_wrappers [simp]:
  "kids (PermanentError e) = [e]" "kids (TransientError e) = [e]" "kids (AttemptTimeoutError e) = [e]"
  "kids (RetryAfterError e h) = [e]" "kids (WrapError p e) = [e]" "kids (SyscallError p e) = [e]"
  "kids (JoinError es) = es" "kids (UrlError op u None) = []" "kids (UrlError op u (Some e)) = [e]"
  "kids (CertificateVerificationError e) = [e]" "kids (ForeignError f claims es) = es"
  "kids (OpError op u None) = []" "kids (OpError op u (Some e)) = [e]" "kids ErrServerClosed = [IoEOF]"
  by (simp_all add: kids_def unwrap_def)

lemma kids_leaves [simp]:
  "kids (AuthError m) = []" "kids (RateLimitError m r) = []" "kids (HTTPStatusError c) = []"
  "kids (StatusError u c) = []" "kids (ResponseTooLargeError n) = []" "kids (NewError m) = []"
  "kids (RedirectRefusedError u why) = []" "kids ErrRequestFailed = []" "kids ErrElapsed = []"
  "kids Canceled = []" "kids DeadlineExceeded = []" "kids IoEOF = []" "kids IoErrUnexpectedEOF = []"
  "kids (Errno en) = []" "kids (HttpTimeoutError m) = []" "kids NetTimeoutError = []"
  "kids NetCanceledError = []" "kids (MaxBytesError n) = []"
  by (simp_all add: kids_def unwrap_def)

section \<open>The marks\<close>

definition Permanent :: "err option \<Rightarrow> err option" where
  "Permanent err = (case err of None \<Rightarrow> None | Some e \<Rightarrow> Some (PermanentError e))"

definition IsPermanent :: "err option \<Rightarrow> bool" where
  "IsPermanent err \<longleftrightarrow> errors_as as_permanent err \<noteq> None"

definition MarkTransient :: "err option \<Rightarrow> err option" where
  "MarkTransient err = (case err of None \<Rightarrow> None | Some e \<Rightarrow> Some (TransientError e))"

definition AttemptTimeout :: "err option \<Rightarrow> err option" where
  "AttemptTimeout err = (case err of None \<Rightarrow> None | Some e \<Rightarrow> Some (AttemptTimeoutError e))"

definition IsAttemptTimeout :: "err option \<Rightarrow> bool" where
  "IsAttemptTimeout err \<longleftrightarrow> errors_as as_attempt_timeout err \<noteq> None"

text \<open>
  The contract of a mark, \<open>Permanent\<close> and \<open>AttemptTimeout\<close> alike: it wraps, nil stays nil, its
  predicate sees it, and the predicate asks for a node the mark made.
\<close>

locale error_mark =
  fixes mark :: "err option \<Rightarrow> err option"
    and marked :: "err option \<Rightarrow> bool"
    and cast :: "err \<Rightarrow> err option"
  assumes mark_None: "mark None = None"
    and mark_Some: "\<exists>w. mark (Some e) = Some w \<and> kids w = [e] \<and> cast w = Some e"
    and marked_iff: "marked err \<longleftrightarrow> errors_as cast err \<noteq> None"
begin

lemma nil_unmarked: "\<not> marked None"
  by (simp add: marked_iff)

lemma mark_nil_iff: "mark err = None \<longleftrightarrow> err = None"
  using mark_None mark_Some by (cases err) (auto dest: spec)

lemma marked_mark: "marked (mark (Some e))"
proof -
  obtain w where "mark (Some e) = Some w" and "cast w = Some e" using mark_Some by blast
  then show ?thesis by (simp add: marked_iff errors_as_self)
qed

lemma marked_outward: "k \<in> set (kids e) \<Longrightarrow> marked (Some k) \<Longrightarrow> marked (Some e)"
  by (simp add: marked_iff errors_as_kid del: not_None_eq)

lemma mark_keeps_nodes: "x \<in> set (nodes e) \<Longrightarrow> mark (Some e) = Some w \<Longrightarrow> x \<in> set (nodes w)"
  using mark_Some [of e] by (auto intro: nodes_kid)

lemma mark_keeps_is: "errors_is (Some e) t \<Longrightarrow> errors_is (mark (Some e)) t"
  using mark_Some [of e] by (auto simp: errors_is_iff nodes_one)

lemma marked_iff_node: "marked (Some e) \<longleftrightarrow> (\<exists>x \<in> set (nodes e). cast x \<noteq> None)"
  by (auto simp: marked_iff errors_as_def first_some_None dest: first_some_Some)

end

interpretation perm: error_mark Permanent IsPermanent as_permanent
  by unfold_locales (auto simp: Permanent_def IsPermanent_def as_permanent_def)

interpretation attempt: error_mark AttemptTimeout IsAttemptTimeout as_attempt_timeout
  by unfold_locales (auto simp: AttemptTimeout_def IsAttemptTimeout_def as_attempt_timeout_def)

section \<open>Identity in the chain\<close>

function unwrapsTo :: "err option \<Rightarrow> err \<Rightarrow> bool" where
  "unwrapsTo None target = False"
| "unwrapsTo (Some e) target =
     (if e = target then True
      else case unwrap e of
             UnwrapOne x \<Rightarrow> unwrapsTo x target
           | UnwrapMany xs \<Rightarrow> list_ex (\<lambda>x. unwrapsTo (Some x) target) xs
           | NoUnwrap \<Rightarrow> False)"
  by pat_completeness auto
termination
  by (relation "measure (\<lambda>(err, t). case err of None \<Rightarrow> 0 | Some e \<Rightarrow> Suc (depth e))")
     (auto split: option.splits intro!: kids_depth simp: kids_def)

declare unwrapsTo.simps(2) [simp del]

lemma unwrapsTo_not_nil: "unwrapsTo x t \<Longrightarrow> \<exists>k. x = Some k"
  by (cases x) simp_all

lemma unwrapsTo_iff: "unwrapsTo (Some e) t \<longleftrightarrow> t \<in> set (nodes e)"
proof (induction e rule: nodes.induct)
  case (1 e)
  have "unwrapsTo (Some e) t \<longleftrightarrow> e = t \<or> (\<exists>k \<in> set (kids e). unwrapsTo (Some k) t)"
    by (subst unwrapsTo.simps(2))
       (auto simp: kids_def list_ex_iff split: unwrapping.split option.split dest: unwrapsTo_not_nil)
  also have "\<dots> \<longleftrightarrow> e = t \<or> (\<exists>k \<in> set (kids e). t \<in> set (nodes k))"
    using "1.IH" by auto
  finally show ?case by (subst nodes.simps) auto
qed

section \<open>Messages\<close>

definition RedirectRefusedError_Error :: "string \<Rightarrow> RedirectReason \<Rightarrow> string" where
  "RedirectRefusedError_Error origin reason =
     (case reason of
        RedirectNotAllowed \<Rightarrow> ''redirects not allowed''
      | RedirectTooMany \<Rightarrow> ''too many redirects''
      | RedirectDowngrade \<Rightarrow> ''refusing scheme downgrade to '' @ origin
      | RedirectOtherOrigin \<Rightarrow> ''refusing redirect to '' @ origin)"

definition ResponseTooLargeError_Error :: "int64 \<Rightarrow> string" where [simp]:
  "ResponseTooLargeError_Error limit = ''response body exceeds '' @ itoa (sint limit) @ '' bytes''"

definition attemptTimeoutError_Error :: "string \<Rightarrow> string" where [simp]:
  "attemptTimeoutError_Error msg = ''attempt timeout: '' @ msg"

fun errno_text :: "errno \<Rightarrow> string" where
  "errno_text ECONNREFUSED = ''connection refused''"
| "errno_text ECONNRESET = ''connection reset by peer''"
| "errno_text EPIPE = ''broken pipe''"
| "errno_text EAGAIN = ''resource temporarily unavailable''"
| "errno_text ETIMEDOUT = ''connection timed out''"
| "errno_text (OtherErrno n) = ''errno '' @ nat_str n"

fun join_lines :: "string list \<Rightarrow> string" where
  "join_lines [] = []"
| "join_lines [l] = l"
| "join_lines (l # ls) = l @ CHR 0x0A # join_lines ls"

text \<open>
  \<open>Error()\<close>. The first argument renders the URL of a \<open>StatusError\<close> (\<open>redactURL\<close>, see
  Redaction), the second is \<open>strconv.Quote\<close>, which the library's \<open>url.Error\<close> writes its URL with.
  An \<open>OpError\<close> carries the network and addresses of its text as one string.
\<close>

fun err_msg :: "(string \<Rightarrow> string) \<Rightarrow> (string \<Rightarrow> string) \<Rightarrow> err \<Rightarrow> string" where
  "err_msg rd q (AuthError m) = m"
| "err_msg rd q (RateLimitError m r) = m"
| "err_msg rd q (HTTPStatusError c) = ''HTTP '' @ itoa c"
| "err_msg rd q (StatusError u c) = ''HTTP '' @ itoa c @ '' from '' @ rd u"
| "err_msg rd q (ResponseTooLargeError n) = ResponseTooLargeError_Error n"
| "err_msg rd q (PermanentError e) = err_msg rd q e"
| "err_msg rd q (TransientError e) = err_msg rd q e"
| "err_msg rd q (AttemptTimeoutError e) = attemptTimeoutError_Error (err_msg rd q e)"
| "err_msg rd q (RetryAfterError e h) = err_msg rd q e"
| "err_msg rd q (RedirectRefusedError o' why) = RedirectRefusedError_Error o' why"
| "err_msg rd q ErrRateLimited = ''rate limited''"
| "err_msg rd q ErrServerError = ''server error''"
| "err_msg rd q ErrElapsed = ''max elapsed time exceeded''"
| "err_msg rd q ErrRequestFailed = ''request failed''"
| "err_msg rd q ErrServerClosed = ''server closed the connection before responding: EOF''"
| "err_msg rd q ErrNoCertsInPEM = ''httpx: no PEM-encoded certificates found''"
| "err_msg rd q (NewError m) = m"
| "err_msg rd q (WrapError p e) = p @ err_msg rd q e"
| "err_msg rd q (JoinError es) = join_lines (map (err_msg rd q) es)"
| "err_msg rd q Canceled = ''context canceled''"
| "err_msg rd q DeadlineExceeded = ''context deadline exceeded''"
| "err_msg rd q IoEOF = ''EOF''"
| "err_msg rd q IoErrUnexpectedEOF = ''unexpected EOF''"
| "err_msg rd q ErrSchemeMismatch = ''http: server gave HTTP response to HTTPS client''"
| "err_msg rd q ErrUseLastResponse = ''net/http: use last response''"
| "err_msg rd q (Errno n) = errno_text n"
| "err_msg rd q (SyscallError c e) = c @ '': '' @ err_msg rd q e"
| "err_msg rd q (UrlError op u None) = op @ '' '' @ q u @ '': <nil>''"
| "err_msg rd q (UrlError op u (Some e)) = op @ '' '' @ q u @ '': '' @ err_msg rd q e"
| "err_msg rd q (OpError op w None) = op @ w @ '': <nil>''"
| "err_msg rd q (OpError op w (Some e)) = op @ w @ '': '' @ err_msg rd q e"
| "err_msg rd q (DNSError m t e) = m"
| "err_msg rd q (CertificateVerificationError e) = ''tls: failed to verify certificate: '' @ err_msg rd q e"
| "err_msg rd q (UnknownAuthorityError m) = m"
| "err_msg rd q (HostnameError m) = m"
| "err_msg rd q (CertificateInvalidError m) = m"
| "err_msg rd q (RecordHeaderError m) = m"
| "err_msg rd q (MaxBytesError n) = ''http: request body too large''"
| "err_msg rd q (HttpTimeoutError m) = m"
| "err_msg rd q NetTimeoutError = ''i/o timeout''"
| "err_msg rd q NetCanceledError = ''operation was canceled''"
| "err_msg rd q (ForeignError f claims es) = f_text f"

end
