(* ===== verification/Causes.thy ===== *)
theory Causes
  imports Errors
begin

text \<open>
  \<open>cause.go\<close>: the name \<open>CauseOf\<close> gives a failure below HTTP, the text encoding of that name, and
  the five recognisers it tries. \<open>Cause\<close> is a \<open>uint8\<close>, so values no constant names exist and
  the encoders say what they do with them.
\<close>

section \<open>The type and its text encoding\<close>

type_synonym Cause = "8 word"

abbreviation CauseUnknown :: Cause where "CauseUnknown \<equiv> 0"
abbreviation CauseDNS :: Cause where "CauseDNS \<equiv> 1"
abbreviation CauseRefused :: Cause where "CauseRefused \<equiv> 2"
abbreviation CauseReset :: Cause where "CauseReset \<equiv> 3"
abbreviation CauseTimeout :: Cause where "CauseTimeout \<equiv> 4"
abbreviation CauseTLS :: Cause where "CauseTLS \<equiv> 5"
abbreviation CauseTooLarge :: Cause where "CauseTooLarge \<equiv> 6"

definition causeNames :: "string list" where
  "causeNames = [''unknown'', ''dns'', ''refused'', ''reset'', ''timeout'', ''tls'', ''too_large'']"

definition Cause_String :: "Cause \<Rightarrow> string" where
  "Cause_String c =
     (if unat c < length causeNames then causeNames ! unat c
      else ''Cause('' @ itoa (int (unat c)) @ '')'')"

definition MarshalText :: "Cause \<Rightarrow> err + string" where
  "MarshalText c =
     (if unat c \<ge> length causeNames
      then Inl (NewError (''httpx: no cause '' @ itoa (int (unat c))))
      else Inr (causeNames ! unat c))"

text \<open>The loop of \<open>UnmarshalText\<close> over \<open>causeNames\<close> from index \<open>i\<close>; the receiver is written only
  on a match. \<open>q\<close> is \<open>strconv.Quote\<close>, for the message of a refusal.\<close>

fun unmarshal_loop :: "string \<Rightarrow> nat \<Rightarrow> string list \<Rightarrow> Cause option" where
  "unmarshal_loop text i [] = None"
| "unmarshal_loop text i (name # names) =
     (if text = name then Some (of_nat i) else unmarshal_loop text (Suc i) names)"

definition UnmarshalText :: "(string \<Rightarrow> string) \<Rightarrow> string \<Rightarrow> Cause \<Rightarrow> err option \<times> Cause" where
  "UnmarshalText q text c =
     (case unmarshal_loop text 0 causeNames of
        Some i \<Rightarrow> (None, i)
      | None \<Rightarrow> (Some (NewError (''httpx: unknown cause '' @ q text)), c))"

section \<open>Recognisers\<close>

definition as_max_bytes :: "err \<Rightarrow> unit option" where [err_casts]:
  "as_max_bytes x = (case x of MaxBytesError n \<Rightarrow> Some () | _ \<Rightarrow> None)"
definition as_cert_verification :: "err \<Rightarrow> unit option" where [err_casts]:
  "as_cert_verification x = (case x of CertificateVerificationError e \<Rightarrow> Some () | _ \<Rightarrow> None)"
definition as_unknown_authority :: "err \<Rightarrow> unit option" where [err_casts]:
  "as_unknown_authority x = (case x of UnknownAuthorityError m \<Rightarrow> Some () | _ \<Rightarrow> None)"
definition as_hostname :: "err \<Rightarrow> unit option" where [err_casts]:
  "as_hostname x = (case x of HostnameError m \<Rightarrow> Some () | _ \<Rightarrow> None)"
definition as_certificate_invalid :: "err \<Rightarrow> unit option" where [err_casts]:
  "as_certificate_invalid x = (case x of CertificateInvalidError m \<Rightarrow> Some () | _ \<Rightarrow> None)"
definition as_record_header :: "err \<Rightarrow> unit option" where [err_casts]:
  "as_record_header x = (case x of RecordHeaderError m \<Rightarrow> Some () | _ \<Rightarrow> None)"

definition isTooLarge :: "err option \<Rightarrow> bool" where
  "isTooLarge err =
     (if errors_as as_too_large err \<noteq> None then True else errors_as as_max_bytes err \<noteq> None)"

definition isTLSFailure :: "err option \<Rightarrow> bool" where
  "isTLSFailure err =
     (if errors_as as_cert_verification err \<noteq> None then True
      else if errors_as as_unknown_authority err \<noteq> None then True
      else if errors_as as_hostname err \<noteq> None then True
      else if errors_as as_certificate_invalid err \<noteq> None then True
      else if errors_as as_record_header err \<noteq> None then True
      else if errors_is err ErrSchemeMismatch then True
      else (case errors_as as_op_error err of None \<Rightarrow> False | Some op \<Rightarrow> op = ''remote error''))"

definition isDNSFailure :: "err option \<Rightarrow> bool" where
  "isDNSFailure err \<longleftrightarrow> errors_as as_dns_error err \<noteq> None"

definition nameHangUp :: "err option \<Rightarrow> err option" where
  "nameHangUp err = (if err = Some IoEOF then Some ErrServerClosed else err)"

definition isReset :: "err option \<Rightarrow> bool" where
  "isReset err =
     (if (case errors_as as_url_error err of
            None \<Rightarrow> False
          | Some cause \<Rightarrow> errors_is (nameHangUp cause) ErrServerClosed)
      then True
      else errors_is err ErrServerClosed \<or> errors_is err (Errno ECONNRESET) \<or>
           errors_is err (Errno EPIPE) \<or> errors_is err IoErrUnexpectedEOF)"

definition isTimeout :: "err option \<Rightarrow> bool" where
  "isTimeout err = (case errors_as net_error err of None \<Rightarrow> False | Some t \<Rightarrow> t)"

definition CauseOf :: "err option \<Rightarrow> Cause" where
  "CauseOf err =
     (if isTooLarge err then CauseTooLarge
      else if isTLSFailure err then CauseTLS
      else if isDNSFailure err then CauseDNS
      else if errors_is err (Errno ECONNREFUSED) then CauseRefused
      else if isReset err then CauseReset
      else if isTimeout err then CauseTimeout
      else CauseUnknown)"

lemma Cause_cases: "unat (c :: Cause) < 7 \<Longrightarrow> c \<in> {0, 1, 2, 3, 4, 5, 6}"
proof -
  assume "unat c < 7"
  then have "unat c \<in> {0, 1, 2, 3, 4, 5, 6}" by auto
  then have "word_of_nat (unat c) \<in> (word_of_nat :: nat \<Rightarrow> Cause) ` {0, 1, 2, 3, 4, 5, 6}" by (rule imageI)
  then show ?thesis by simp
qed

lemma CauseOf_None [simp]: "CauseOf None = CauseUnknown"
  by (simp add: CauseOf_def isTooLarge_def isTLSFailure_def isDNSFailure_def isReset_def isTimeout_def)

lemma nameHangUp_simps [simp]:
  "nameHangUp None = None" "nameHangUp (Some IoEOF) = Some ErrServerClosed"
  "e \<noteq> IoEOF \<Longrightarrow> nameHangUp (Some e) = Some e"
  by (simp_all add: nameHangUp_def)

lemma nameHangUp_None_iff [simp]: "nameHangUp err = None \<longleftrightarrow> err = None"
  by (simp add: nameHangUp_def)

section \<open>Wrappers a cause shows through\<close>

text \<open>A wrapper that no test and no \<open>Is\<close> method of the package or the library answers for, so
  every walk but the one that asks for this very type passes through it.\<close>

locale transparent_wrapper =
  fixes wrap :: "err \<Rightarrow> err"
  assumes wrap_kids: "kids (wrap e) = [e]"
    and wrap_casts: "as_too_large (wrap e) = None" "as_max_bytes (wrap e) = None"
      "as_cert_verification (wrap e) = None" "as_unknown_authority (wrap e) = None"
      "as_hostname (wrap e) = None" "as_certificate_invalid (wrap e) = None"
      "as_record_header (wrap e) = None" "as_op_error (wrap e) = None"
      "as_dns_error (wrap e) = None" "as_url_error (wrap e) = None" "net_error (wrap e) = None"
    and wrap_not: "wrap e \<noteq> ErrSchemeMismatch" "wrap e \<noteq> Errno n" "wrap e \<noteq> ErrServerClosed"
      "wrap e \<noteq> IoErrUnexpectedEOF"
    and wrap_is: "is_method (wrap e) t \<Longrightarrow> \<exists>x. t = PermanentError x"
begin

lemma is_through: "\<forall>x. t \<noteq> PermanentError x \<Longrightarrow> wrap e \<noteq> t \<Longrightarrow> errors_is (Some (wrap e)) t = errors_is (Some e) t"
  using wrap_is by (intro errors_is_one wrap_kids) blast+

lemma as_through: "cast (wrap e) = None \<Longrightarrow> errors_as cast (Some (wrap e)) = errors_as cast (Some e)"
  by (rule errors_as_one [OF wrap_kids])

lemma tooLarge_through [simp]: "isTooLarge (Some (wrap e)) = isTooLarge (Some e)"
  by (simp add: isTooLarge_def as_through wrap_casts)

lemma tls_through [simp]: "isTLSFailure (Some (wrap e)) = isTLSFailure (Some e)"
  by (simp add: isTLSFailure_def as_through wrap_casts is_through wrap_not)

lemma reset_through [simp]: "isReset (Some (wrap e)) = isReset (Some e)"
  by (simp add: isReset_def as_through wrap_casts is_through wrap_not)

lemma cause_through: "CauseOf (Some (wrap e)) = CauseOf (Some e)"
  by (simp add: CauseOf_def isDNSFailure_def isTimeout_def as_through wrap_casts is_through wrap_not)

end


interpretation permanent: transparent_wrapper PermanentError
  by unfold_locales (auto simp: err_casts split: err.splits)

interpretation transient: transparent_wrapper TransientError
  by unfold_locales (auto simp: err_casts split: err.splits)

interpretation attempt_timeout: transparent_wrapper AttemptTimeoutError
  by unfold_locales (auto simp: err_casts split: err.splits)

interpretation retry_after: transparent_wrapper "\<lambda>e. RetryAfterError e h" for h
  by unfold_locales (auto simp: err_casts split: err.splits)

interpretation wrapf: transparent_wrapper "WrapError p" for p
  by unfold_locales (auto simp: err_casts split: err.splits)

section \<open>Properties\<close>

text \<open>
  C36: the text encoding of a cause round-trips. Whatever value the receiver
  held, \<open>UnmarshalText\<close> accepts a text and leaves the cause \<open>c\<close> exactly when \<open>MarshalText\<close> writes
  that text for \<open>c\<close>; in particular no text is read as a value \<open>MarshalText\<close> refuses.
\<close>

theorem unmarshal_iff_marshal:
  "UnmarshalText q text c0 = (None, c) \<longleftrightarrow> MarshalText c = Inr text"
proof
  assume "UnmarshalText q text c0 = (None, c)"
  then show "MarshalText c = Inr text"
    by (auto simp: UnmarshalText_def MarshalText_def causeNames_def split: if_splits)
next
  assume m: "MarshalText c = Inr text"
  then have "unat c < 7" by (auto simp: MarshalText_def causeNames_def split: if_splits)
  with m Cause_cases [of c] show "UnmarshalText q text c0 = (None, c)"
    by (auto simp: UnmarshalText_def MarshalText_def causeNames_def)
qed

text \<open>
  \<open>CauseOf\<close> sees through the three marks: marking an error permanent,
  transient or an attempt's timeout never changes the cause named for it, nil included.
\<close>

theorem marks_keep_cause:
  "CauseOf (Permanent err) = CauseOf err \<and> CauseOf (MarkTransient err) = CauseOf err \<and>
   CauseOf (AttemptTimeout err) = CauseOf err"
  by (cases err)
     (simp_all add: Permanent_def MarkTransient_def AttemptTimeout_def permanent.cause_through
        transient.cause_through attempt_timeout.cause_through)

end
