(* ===== verification/Transience.thy ===== *)
theory Transience
  imports Causes
begin

text \<open>
  \<open>IsTransient\<close> and \<open>isCallerContextError\<close> (\<open>httpx.go\<close>, lines 560 to 651): whether a failure is
  worth another attempt. The lemmas separate the four verdicts that outrank the rest
  (\<open>Permanent\<close>, \<open>AuthError\<close>, \<open>RateLimitError\<close>, an attempt's timeout), the caller's own context,
  and what decides when none of them applies.
\<close>

definition isCallerContextError :: "err option \<Rightarrow> bool" where
  "isCallerContextError err =
     (if errors_is err Canceled then True
      else if \<not> errors_is err DeadlineExceeded then False
      else if unwrapsTo err DeadlineExceeded then True
      else errors_as as_op_error err \<noteq> None \<or> errors_as as_dns_error err \<noteq> None)"

definition IsTransient :: "err option \<Rightarrow> bool" where
  "IsTransient err =
     (if err = None then False
      else if IsPermanent err then False
      else if errors_as as_auth err \<noteq> None then False
      else if errors_as as_rate_limit err \<noteq> None then False
      else if IsAttemptTimeout err then True
      else if isCallerContextError err then False
      else case errors_as transient_method err of
             Some t \<Rightarrow> t
           | None \<Rightarrow>
               (if CauseOf err \<in> {CauseDNS, CauseRefused, CauseReset, CauseTimeout}
                then True else False))"

section \<open>The verdicts that outrank every other\<close>

definition refusal_node :: "err \<Rightarrow> bool" where
  "refusal_node x \<longleftrightarrow> as_permanent x \<noteq> None \<or> as_auth x \<noteq> None \<or> as_rate_limit x \<noteq> None"

definition refused :: "err \<Rightarrow> bool" where
  "refused e \<longleftrightarrow> (\<exists>x \<in> set (nodes e). refusal_node x)"

lemma refused_iff:
  "refused e \<longleftrightarrow> IsPermanent (Some e) \<or> errors_as as_auth (Some e) \<noteq> None \<or> errors_as as_rate_limit (Some e) \<noteq> None"
  unfolding refused_def refusal_node_def IsPermanent_def errors_as_None_iff by auto

lemma refused_not_transient [err_simps]: "refused e \<Longrightarrow> \<not> IsTransient (Some e)"
  by (auto simp: refused_iff IsTransient_def)

lemma transient_unrefused:
  "\<not> refused e \<Longrightarrow> IsTransient (Some e) \<longleftrightarrow>
     IsAttemptTimeout (Some e) \<or>
     \<not> isCallerContextError (Some e) \<and>
     (case errors_as transient_method (Some e) of
        Some t \<Rightarrow> t
      | None \<Rightarrow> CauseOf (Some e) \<in> {CauseDNS, CauseRefused, CauseReset, CauseTimeout})"
  by (auto simp: refused_iff IsTransient_def split: option.splits)

lemma refused_one: "kids w = [e] \<Longrightarrow> \<not> refusal_node w \<Longrightarrow> refused w = refused e"
  by (simp add: refused_def nodes_one)

lemma refused_leaf: "kids w = [] \<Longrightarrow> refused w = refusal_node w"
  by (simp add: refused_def nodes_leaf)

lemma not_refusal [simp]:
  "\<not> refusal_node (TransientError e)" "\<not> refusal_node (AttemptTimeoutError e)"
  "\<not> refusal_node (WrapError p e)" "\<not> refusal_node (RetryAfterError e h)"
  "\<not> refusal_node (UrlError op u c)" "\<not> refusal_node (HttpTimeoutError m)"
  "\<not> refusal_node (HTTPStatusError c')" "\<not> refusal_node (StatusError u c')"
  "\<not> refusal_node (ResponseTooLargeError n)" "\<not> refusal_node DeadlineExceeded"
  "\<not> refusal_node Canceled" "\<not> refusal_node (NewError m)"
  by (simp_all add: refusal_node_def err_casts)

text \<open>A wrapper that says nothing on its own of whether to retry: \<open>fmt.Errorf\<close>'s, and the one
  that carries a hint out of \<open>GetBytes\<close>.\<close>

locale silent_wrapper = transparent_wrapper +
  assumes wrap_silent: "as_attempt_timeout (wrap e) = None" "transient_method (wrap e) = None"
      "\<not> refusal_node (wrap e)"
    and wrap_no_context: "wrap e \<noteq> Canceled" "wrap e \<noteq> DeadlineExceeded"
begin

lemma caller_context_through: "isCallerContextError (Some (wrap e)) = isCallerContextError (Some e)"
  using wrap_no_context [of e, symmetric]
  by (simp add: isCallerContextError_def is_through as_through wrap_casts wrap_no_context unwrapsTo_iff
      nodes_one [OF wrap_kids])

lemma transient_through: "IsTransient (Some (wrap e)) = IsTransient (Some e)"
proof (cases "refused e")
  case True
  then have "refused (wrap e)" using refused_one [OF wrap_kids] wrap_silent by simp
  with True show ?thesis by (simp add: refused_not_transient)
next
  case False
  then have "\<not> refused (wrap e)" using refused_one [OF wrap_kids] wrap_silent by simp
  with False show ?thesis
    unfolding transient_unrefused [OF False] transient_unrefused [OF \<open>\<not> refused (wrap e)\<close>]
      cause_through caller_context_through IsAttemptTimeout_def
    by (simp add: as_through wrap_silent)
qed

end

interpretation silent_wrapf: silent_wrapper "WrapError p" for p
  by unfold_locales (auto simp: err_casts)

interpretation silent_retry_after: silent_wrapper "\<lambda>e. RetryAfterError e h" for h
  by unfold_locales (auto simp: err_casts)

lemma caller_carries_deadline:
  "DeadlineExceeded \<in> set (nodes e) \<Longrightarrow> isCallerContextError (Some e)"
  by (simp add: isCallerContextError_def errors_is_node unwrapsTo_iff)

lemma caller_canceled: "errors_is (Some e) Canceled \<Longrightarrow> isCallerContextError (Some e)"
  by (simp add: isCallerContextError_def)

section \<open>Properties\<close>

text \<open>
  C22: a refusal anywhere in the chain is final. An error that holds, at any depth and
  under any wrapper, a \<open>PermanentError\<close>, an \<open>AuthError\<close> or a \<open>RateLimitError\<close> is never transient,
  whatever mark or claim stands beside it.
\<close>

theorem refusal_is_final:
  assumes "x \<in> set (nodes e)"
    and "(\<exists>y. x = PermanentError y) \<or> (\<exists>m. x = AuthError m) \<or> (\<exists>m r. x = RateLimitError m r)"
  shows "\<not> IsTransient (Some e)"
proof -
  have "refusal_node x" using assms(2) by (auto simp: refusal_node_def err_casts)
  with assms(1) have "refused e" by (auto simp: refused_def)
  then show ?thesis by (rule refused_not_transient)
qed

theorem refusal_is_final_witness:
  "\<not> IsTransient (Some (TransientError (WrapError ''op'' (PermanentError (Errno ECONNRESET)))))"
  by (rule refusal_is_final [where x = "PermanentError (Errno ECONNRESET)"]) (simp_all add: nodes.simps)

text \<open>
  C23: the caller's own deadline is final. An error that carries the
  \<open>context.DeadlineExceeded\<close> value, or matches \<open>context.Canceled\<close>, is not transient unless it is
  marked an attempt's timeout.
\<close>

theorem caller_context_is_final:
  assumes "DeadlineExceeded \<in> set (nodes e) \<or> errors_is (Some e) Canceled"
    and "\<not> IsAttemptTimeout (Some e)"
  shows "\<not> IsTransient (Some e)"
proof -
  have "isCallerContextError (Some e)"
    using assms(1) caller_carries_deadline caller_canceled by blast
  with assms(2) show ?thesis by (simp add: IsTransient_def)
qed

theorem caller_context_is_final_witness:
  "\<not> IsTransient (Some (UrlError ''Get'' ''http://a/'' (Some DeadlineExceeded)))"
  by (rule caller_context_is_final)
     (simp_all add: nodes.simps IsAttemptTimeout_def errors_as_def err_casts)

text \<open>
  C31: \<open>AttemptTimeout\<close> makes an error transient exactly when nothing in it is a refusal, the
  caller's deadline it carries notwithstanding, and it keeps every \<open>errors.Is\<close> match the error had
  and adds none but its own value.
\<close>

theorem attempt_timeout_retried:
  "(IsTransient (AttemptTimeout (Some e)) \<longleftrightarrow> \<not> refused e) \<and>
   (errors_is (AttemptTimeout (Some e)) t \<longleftrightarrow> t = AttemptTimeoutError e \<or> errors_is (Some e) t)"
proof -
  have "IsTransient (AttemptTimeout (Some e)) \<longleftrightarrow> \<not> refused (AttemptTimeoutError e)"
  proof (cases "refused (AttemptTimeoutError e)")
    case True
    then show ?thesis by (simp add: AttemptTimeout_def refused_not_transient)
  next
    case False
    then show ?thesis using attempt.marked_mark [of e]
      by (simp add: transient_unrefused AttemptTimeout_def)
  qed
  then show ?thesis
    by (auto simp: refused_one AttemptTimeout_def errors_is_iff nodes_one is_method_def)
qed

text \<open>
  \<open>MarkTransient\<close> overrides a non-transient verdict of the error it wraps and nothing
  stronger: the result is transient exactly when the error holds no refusal and either an
  attempt's timeout or no caller context error.
\<close>

theorem mark_transient_iff:
  "IsTransient (MarkTransient (Some e)) \<longleftrightarrow>
     \<not> refused e \<and> (IsAttemptTimeout (Some e) \<or> \<not> isCallerContextError (Some e))"
proof -
  have att: "IsAttemptTimeout (Some (TransientError e)) = IsAttemptTimeout (Some e)"
    by (simp add: IsAttemptTimeout_def transient.as_through err_casts)
  have ctx: "isCallerContextError (Some (TransientError e)) = isCallerContextError (Some e)"
    by (simp add: isCallerContextError_def transient.is_through transient.as_through unwrapsTo_iff
          nodes_one err_casts)
  have "errors_as transient_method (Some (TransientError e)) = Some True"
    by (simp add: errors_as_self transient_method_def)
  then show ?thesis
    by (cases "refused e")
       (simp_all add: MarkTransient_def refused_not_transient transient_unrefused refused_one att ctx)
qed

text \<open>
  The timeout net/http reports for \<open>Client.Timeout\<close> and \<open>ResponseHeaderTimeout\<close> matches
  \<open>context.DeadlineExceeded\<close> under \<open>errors.Is\<close> and is still retried, bare, in the \<open>url.Error\<close> a
  client returns, or wrapped by \<open>fmt.Errorf\<close>.
\<close>

theorem nethttp_timeout_retried:
  "errors_is (Some (HttpTimeoutError m)) DeadlineExceeded \<and> IsTransient (Some (HttpTimeoutError m)) \<and>
   errors_is (Some (UrlError op u (Some (HttpTimeoutError m)))) DeadlineExceeded \<and>
   IsTransient (Some (UrlError op u (Some (HttpTimeoutError m)))) \<and>
   errors_is (Some (WrapError p (UrlError op u (Some (HttpTimeoutError m))))) DeadlineExceeded \<and>
   IsTransient (Some (WrapError p (UrlError op u (Some (HttpTimeoutError m)))))"
  by (simp add: IsTransient_def IsPermanent_def IsAttemptTimeout_def isCallerContextError_def
        CauseOf_def isTooLarge_def isTLSFailure_def isDNSFailure_def isReset_def isTimeout_def
        errors_as_def errors_is_def nodes.simps unwrapsTo_iff nameHangUp_def err_casts)

end
