(* ===== verification/Environment.thy ===== *)
theory Environment
  imports Transience
begin

text \<open>
  What the code shares with the rest of the process, threaded through every operation as one
  state: the monotonic clock, the caller's \<open>context.Context\<close>, the random source, the response
  bodies (a store, since several variables can hold one body), and what was logged. Every
  operation that reads or changes any of it takes the \<open>world\<close> and returns the new one. The
  field \<open>outside\<close> stands for the state of all other code, as a number: the package's operations
  never touch it, the operations its callers supply change it as they like.

  A context is its deadline and the instant and reason of its end. The reason it ends is the
  environment's choice, so an operation the code calls may end the caller's context; \<open>world_le\<close>
  says what no operation does: turn the clock back, or revive a context that has ended.
\<close>

section \<open>Contexts\<close>

datatype ctx_fault = CtxCanceled | CtxDeadline

fun fault_err :: "ctx_fault \<Rightarrow> err" where
  "fault_err CtxCanceled = Canceled"
| "fault_err CtxDeadline = DeadlineExceeded"

record go_context =
  c_deadline :: "int option"
  c_end :: "(int \<times> ctx_fault) option"

text \<open>\<open>ctx.Err()\<close> at clock reading \<open>now\<close>.\<close>

definition c_err :: "go_context \<Rightarrow> int \<Rightarrow> err option" where
  "c_err c now =
     (case c_end c of
        None \<Rightarrow> None
      | Some (t, f) \<Rightarrow> if t \<le> now then Some (fault_err f) else None)"

text \<open>\<open>context.WithDeadline\<close>: the earlier of the parent's end and the new deadline ends it.\<close>

definition with_deadline :: "go_context \<Rightarrow> int \<Rightarrow> go_context" where
  "with_deadline c t =
     c\<lparr> c_deadline := Some (case c_deadline c of None \<Rightarrow> t | Some d \<Rightarrow> min d t),
        c_end := (case c_end c of
                    None \<Rightarrow> Some (t, CtxDeadline)
                  | Some (e, f) \<Rightarrow> if e \<le> t then Some (e, f) else Some (t, CtxDeadline)) \<rparr>"

definition with_timeout :: "go_context \<Rightarrow> duration \<Rightarrow> int \<Rightarrow> go_context" where
  "with_timeout c d now = with_deadline c (now + sint d)"

text \<open>\<open>ContextWithDefaultTimeout\<close> (\<open>httpx.go\<close>, 544 to 549).\<close>

definition ContextWithDefaultTimeout :: "go_context \<Rightarrow> duration \<Rightarrow> int \<Rightarrow> go_context" where
  "ContextWithDefaultTimeout c def now =
     (if c_deadline c \<noteq> None \<or> def \<le>s 0 then c else with_timeout c def now)"

lemma c_err_with_deadline:
  "c_err (with_deadline c t) now =
     (case c_end c of
        Some (e, f) \<Rightarrow> if e \<le> t then c_err c now else if t \<le> now then Some DeadlineExceeded else None
      | None \<Rightarrow> if t \<le> now then Some DeadlineExceeded else None)"
  by (auto simp: c_err_def with_deadline_def split: option.splits)

lemma parent_ended_child_ended:
  "c_err c now \<noteq> None \<Longrightarrow> c_err (with_deadline c t) now \<noteq> None"
  by (auto simp: c_err_def with_deadline_def split: option.splits if_splits)

section \<open>The world\<close>

record body =
  b_data :: string
  b_fault :: "err option"
  b_eager :: bool
  b_closed :: nat

datatype attr = AInt int | AStr string | AErr "err option"

record log_line =
  ll_logger :: nat
  ll_level :: int
  ll_msg :: string
  ll_attrs :: "(string \<times> attr) list"

record world =
  clock :: int
  caller :: go_context
  draws :: "nat \<Rightarrow> nat"
  drawn :: nat
  bodies :: "nat \<Rightarrow> body"
  logged :: "log_line list"
  outside :: nat

text \<open>A quiet world for the concrete examples: no deadline, nothing logged, all draws zero.\<close>

definition world0 :: world where
  "world0 = \<lparr>clock = 0, caller = \<lparr>c_deadline = None, c_end = None\<rparr>, draws = (\<lambda>_. 0), drawn = 0,
     bodies = (\<lambda>_. \<lparr>b_data = '''', b_fault = None, b_eager = False, b_closed = 0\<rparr>),
     logged = [], outside = 0\<rparr>"

abbreviation LevelDebug :: int where "LevelDebug \<equiv> - 4"
abbreviation LevelWarn :: int where "LevelWarn \<equiv> 4"

abbreviation (input) default_logger :: nat where "default_logger \<equiv> 0"

definition ctx_err :: "world \<Rightarrow> err option" where
  "ctx_err w = c_err (caller w) (clock w)"

definition log :: "nat \<Rightarrow> int \<Rightarrow> string \<Rightarrow> (string \<times> attr) list \<Rightarrow> world \<Rightarrow> world" where
  "log l lv m as w =
     w\<lparr>logged := logged w @ [\<lparr>ll_logger = l, ll_level = lv, ll_msg = m, ll_attrs = as\<rparr>]\<rparr>"

definition draw :: "world \<Rightarrow> nat \<times> world" where
  "draw w = (draws w (drawn w), w\<lparr>drawn := Suc (drawn w)\<rparr>)"

section \<open>Time only moves on\<close>

definition world_le :: "world \<Rightarrow> world \<Rightarrow> bool" where
  "world_le w w' \<longleftrightarrow> clock w \<le> clock w' \<and> (ctx_err w \<noteq> None \<longrightarrow> ctx_err w' = ctx_err w)"

lemma world_le_refl [simp, intro]: "world_le w w"
  by (simp add: world_le_def)

lemma world_le_trans: "world_le w w' \<Longrightarrow> world_le w' w'' \<Longrightarrow> world_le w w''"
  by (auto simp: world_le_def)

lemma world_le_clock: "world_le w w' \<Longrightarrow> clock w \<le> clock w'"
  by (simp add: world_le_def)

lemma world_le_ended: "world_le w w' \<Longrightarrow> ctx_err w = Some e \<Longrightarrow> ctx_err w' = Some e"
  by (auto simp: world_le_def)

lemma log_fields [world_simps]:
  "clock (log l lv m as w) = clock w" "caller (log l lv m as w) = caller w"
  "bodies (log l lv m as w) = bodies w" "ctx_err (log l lv m as w) = ctx_err w"
  "draws (log l lv m as w) = draws w" "drawn (log l lv m as w) = drawn w"
  "outside (log l lv m as w) = outside w"
  by (simp_all add: log_def ctx_err_def)

lemma draw_fields [world_simps]:
  "clock (snd (draw w)) = clock w" "caller (snd (draw w)) = caller w"
  "bodies (snd (draw w)) = bodies w" "logged (snd (draw w)) = logged w"
  "ctx_err (snd (draw w)) = ctx_err w" "outside (snd (draw w)) = outside w"
  by (simp_all add: draw_def ctx_err_def)

text \<open>
  The contract of an operation on the world: it keeps \<open>world_le\<close>. Every operation the doors call
  has to meet it, those of the package and those their caller supplies.
\<close>

locale world_op =
  fixes act :: "world \<Rightarrow> 'r \<times> world"
  assumes act_le: "world_le w (snd (act w))"
begin

lemma act_clock: "act w = (r, w') \<Longrightarrow> clock w \<le> clock w'"
  using act_le [of w] by (auto dest: world_le_clock)

lemma act_ended: "act w = (r, w') \<Longrightarrow> ctx_err w = Some e \<Longrightarrow> ctx_err w' = Some e"
  using act_le [of w] by (auto dest: world_le_ended)

lemma act_live_before: "act w = (r, w') \<Longrightarrow> ctx_err w' = None \<Longrightarrow> ctx_err w = None"
  using act_le [of w] by (auto simp: world_le_def)

end

interpretation drawing: world_op draw
  by unfold_locales (simp add: world_le_def world_simps)

end
