(* ===== verification/Backoff.thy ===== *)
theory Backoff
  imports Environment
begin

text \<open>
  The backoff helpers of \<open>httpx.go\<close> (lines 487 to 530): equal jitter, overflow-safe doubling and
  the sleep a context interrupts.
\<close>

section \<open>Equal jitter\<close>

text \<open>\<open>rand.N(n)\<close>: a draw below \<open>n\<close>, which is positive where the code calls it. Go's \<open>/\<close> on signed
  operands truncates toward zero.\<close>

definition rand_N :: "int64 \<Rightarrow> world \<Rightarrow> int64 \<times> world" where
  "rand_N n w = (let (r, w') = draw w in (word_of_int (int r mod sint n), w'))"

definition go_div :: "int64 \<Rightarrow> int64 \<Rightarrow> int64" where
  "go_div a b = word_of_int (sint a sdiv sint b)"

definition JitteredBackoff :: "duration \<Rightarrow> world \<Rightarrow> duration \<times> world" where
  "JitteredBackoff backoff w =
     (if backoff \<le>s 0 then (backoff, w)
      else
        (let half = go_div backoff 2;
             (r, w') = rand_N (half + 1) w
         in (half + r, w')))"

section \<open>Doubling\<close>

definition SafeDouble :: "duration \<Rightarrow> duration" where
  "SafeDouble d =
     (if d \<le>s 0 then d
      else
        (let doubled = d * 2
         in if doubled <s d then max_int64 else doubled))"

section \<open>Sleeping\<close>

text \<open>
  The \<open>select\<close> of \<open>SleepCtx\<close> takes the first of the timer's firing and the context's end; a
  context that has already ended is taken at once, since a timer of a positive duration cannot
  have fired. When both happen at the same instant Go takes either, here by a draw.
\<close>

definition SleepCtx :: "duration \<Rightarrow> world \<Rightarrow> err option \<times> world" where
  "SleepCtx d w =
     (if d \<le>s 0 then (None, w)
      else
        (let fires = clock w + sint d
         in case c_end (caller w) of
              None \<Rightarrow> (None, w\<lparr>clock := fires\<rparr>)
            | Some (t, f) \<Rightarrow>
                if t \<le> clock w then (Some (fault_err f), w)
                else if t < fires then (Some (fault_err f), w\<lparr>clock := t\<rparr>)
                else if fires < t then (None, w\<lparr>clock := fires\<rparr>)
                else (let (pick, w') = draw w
                      in if even pick then (None, w'\<lparr>clock := fires\<rparr>)
                         else (Some (fault_err f), w'\<lparr>clock := fires\<rparr>))))"

section \<open>Doubling saturates\<close>

lemma sint_SafeDouble [dur_simps]:
  "sint (SafeDouble d) =
     (if sint d \<le> 0 then sint d else min (2 * sint d) 9223372036854775807)"
proof (cases "sint d \<le> 0")
  case True
  then show ?thesis by (simp add: SafeDouble_def dur_simps)
next
  case False
  have two: "d * 2 = word_of_int (sint d * 2)" by simp
  show ?thesis
  proof (cases "sint d * 2 \<le> 9223372036854775807")
    case True
    with False have "sint (d * 2) = sint d * 2" unfolding two by (intro sint_of_int64_id) simp_all
    with False True show ?thesis by (simp add: SafeDouble_def dur_simps Let_def)
  next
    case over: False
    then have "sint (d * 2) = sint d * 2 - 18446744073709551616"
      unfolding two using sint64_bounds(2) [of d] by (intro sint_of_int64_over) simp_all
    with False over sint64_bounds(2) [of d] show ?thesis
      by (simp add: SafeDouble_def dur_simps Let_def)
  qed
qed

lemma sint_SafeDouble_pow:
  "0 < sint d \<Longrightarrow> sint ((SafeDouble ^^ k) d) = min (2 ^ k * sint d) 9223372036854775807"
proof (induction k)
  case 0
  then show ?case using sint64_bounds(2) [of d] by simp
next
  case (Suc k)
  then have "\<not> 2 ^ k * sint d \<le> 0" by (simp add: not_le)
  with Suc show ?case by (simp add: sint_SafeDouble min_def)
qed

section \<open>Jitter\<close>

lemma sint_go_div2:
  "0 < sint b \<Longrightarrow> sint (go_div b 2) = sint b div 2"
  using sint64_bounds(2) [of b]
  by (simp add: go_div_def sint_of_int64_id signed_divide_int_def)

lemma rand_N_eq: "fst (rand_N n w) = word_of_int (int (draws w (drawn w)) mod sint n)"
  by (simp add: rand_N_def draw_def)

lemma rand_N_bounds:
  assumes "0 < sint n"
  shows "0 \<le> sint (fst (rand_N n w))" "sint (fst (rand_N n w)) < sint n"
proof -
  let ?k = "int (draws w (drawn w)) mod sint n"
  have k: "0 \<le> ?k" "?k < sint n" using assms by simp_all
  then have "sint (fst (rand_N n w)) = ?k"
    unfolding rand_N_eq using sint64_bounds(2) [of n] by (intro sint_of_int64_id) linarith+
  with k show "0 \<le> sint (fst (rand_N n w))" "sint (fst (rand_N n w)) < sint n" by simp_all
qed

lemma rand_N_world [world_simps]: "snd (rand_N n w) = snd (draw w)"
  by (simp add: rand_N_def case_prod_beta)

lemma JitteredBackoff_world:
  "snd (JitteredBackoff b w) = (if sint b \<le> 0 then w else snd (draw w))"
  by (simp add: JitteredBackoff_def dur_simps Let_def case_prod_beta world_simps)

lemma JitteredBackoff_bounds:
  assumes "0 < sint b"
  shows "sint b div 2 \<le> sint (fst (JitteredBackoff b w))" "sint (fst (JitteredBackoff b w)) \<le> sint b"
proof -
  let ?half = "go_div b 2"
  have half: "sint ?half = sint b div 2" using assms by (rule sint_go_div2)
  have "sint b div 2 + 1 \<le> 9223372036854775807" using assms sint64_bounds(2) [of b] by linarith
  then have n: "sint (?half + 1) = sint b div 2 + 1"
    using assms half by (subst sint_add64) simp_all
  let ?r = "fst (rand_N (?half + 1) w)"
  have r: "0 \<le> sint ?r" "sint ?r \<le> sint b div 2"
    using rand_N_bounds [of "?half + 1" w] assms n by simp_all
  have "sint (?half + ?r) = sint b div 2 + sint ?r"
    using assms half r sint64_bounds(2) [of b] by (subst sint_add64) simp_all
  moreover have "fst (JitteredBackoff b w) = ?half + ?r"
    using assms by (simp add: JitteredBackoff_def dur_simps Let_def case_prod_beta)
  ultimately show "sint b div 2 \<le> sint (fst (JitteredBackoff b w))"
    "sint (fst (JitteredBackoff b w)) \<le> sint b"
    using r by simp_all
qed

interpretation jittering: world_op "JitteredBackoff b" for b
  by unfold_locales (auto simp: JitteredBackoff_world world_le_def world_simps)

section \<open>Sleep\<close>

lemma SleepCtx_nonpos: "sint d \<le> 0 \<Longrightarrow> SleepCtx d w = (None, w)"
  by (simp add: SleepCtx_def dur_simps)

lemma SleepCtx_ended: "0 < sint d \<Longrightarrow> ctx_err w = Some e \<Longrightarrow> SleepCtx d w = (Some e, w)"
  by (auto simp: SleepCtx_def ctx_err_def c_err_def dur_simps Let_def split: option.splits if_splits)

lemma SleepCtx_frame [world_simps]:
  "caller (snd (SleepCtx d w)) = caller w" "bodies (snd (SleepCtx d w)) = bodies w"
  "logged (snd (SleepCtx d w)) = logged w" "draws (snd (SleepCtx d w)) = draws w"
  "outside (snd (SleepCtx d w)) = outside w"
  by (auto simp: SleepCtx_def Let_def draw_def split: option.splits)

lemma SleepCtx_slept:
  "0 < sint d \<Longrightarrow> SleepCtx d w = (None, w') \<Longrightarrow> clock w' = clock w + sint d \<and> ctx_err w = None"
  by (auto simp: SleepCtx_def ctx_err_def c_err_def dur_simps Let_def draw_def
      split: option.splits if_splits)

lemma SleepCtx_stopped:
  "SleepCtx d w = (Some e, w') \<Longrightarrow>
     ctx_err w' = Some e \<and> clock w \<le> clock w' \<and> clock w' \<le> clock w + sint d"
  by (auto simp: SleepCtx_def ctx_err_def c_err_def dur_simps Let_def draw_def
      split: option.splits if_splits)

lemma SleepCtx_clock:
  "clock w \<le> clock (snd (SleepCtx d w))"
  "clock (snd (SleepCtx d w)) \<le> clock w + max 0 (sint d)"
  by (auto simp: SleepCtx_def dur_simps Let_def draw_def split: option.splits)

interpretation sleeping: world_op "SleepCtx d" for d
proof
  fix w
  have "ctx_err (snd (SleepCtx d w)) = ctx_err w" if "ctx_err w \<noteq> None"
    using that SleepCtx_ended [of d w] SleepCtx_nonpos [of d w] by (cases "0 < sint d") auto
  then show "world_le w (snd (SleepCtx d w))"
    by (simp add: world_le_def SleepCtx_clock)
qed

section \<open>Properties\<close>

text \<open>
  \<open>JitteredBackoff\<close> returns a non-positive backoff as it is and otherwise a duration
  between half of it and all of it, without overflow, for every draw of the random source.
\<close>

theorem jitter_within_half:
  "sint (fst (JitteredBackoff b w)) \<in>
     (if sint b \<le> 0 then {sint b} else {sint b div 2 .. sint b})"
proof (cases "sint b \<le> 0")
  case True
  then show ?thesis by (simp add: JitteredBackoff_def dur_simps)
next
  case False
  then show ?thesis using JitteredBackoff_bounds [of b w] by simp
qed

text \<open>
  \<open>SafeDouble\<close> doubles and saturates. Applied \<open>k\<close> times to a positive duration it
  gives \<open>2 ^ k\<close> times the duration, or the largest duration when that does not fit in 64 bits;
  it never wraps to a negative one.
\<close>

theorem safe_double_saturates:
  assumes "0 < sint d"
  shows "sint ((SafeDouble ^^ k) d) = min (2 ^ k * sint d) (2 ^ 63 - 1)"
  using sint_SafeDouble_pow [OF assms] by simp

theorem safe_double_saturates_witness:
  "sint ((SafeDouble ^^ 40) second) = 2 ^ 63 - 1 \<and> sint ((SafeDouble ^^ 3) second) = 8000000000"
  using safe_double_saturates [of second 40] safe_double_saturates [of second 3] by simp

text \<open>
  \<open>SleepCtx\<close> either sleeps the whole duration or returns the caller's
  \<open>ctx.Err()\<close> no later than that; a non-positive duration returns at once, and a positive one
  never sleeps on a context that has already ended.
\<close>

theorem sleep_ctx_outcome:
  "case SleepCtx d w of
     (None, w') \<Rightarrow> clock w' = clock w + max 0 (sint d) \<and> (sint d \<le> 0 \<or> ctx_err w = None)
   | (Some e, w') \<Rightarrow> ctx_err w' = Some e \<and> clock w \<le> clock w' \<and> clock w' \<le> clock w + sint d"
proof (cases "SleepCtx d w")
  case (Pair r w')
  then show ?thesis
    using SleepCtx_nonpos [of d w] SleepCtx_slept [of d w w'] SleepCtx_stopped [of d w]
    by (cases "0 < sint d") (auto split: option.splits)
qed

text \<open>
  \<open>ContextWithDefaultTimeout\<close> leaves a context that has a deadline, or any context under
  a non-positive default, as it is. Otherwise the new context's deadline is the default from now,
  it has ended whenever the caller's has, and from that deadline on it has ended in any case.
\<close>

theorem default_timeout_only_without_deadline:
  "let c' = ContextWithDefaultTimeout c def now
   in if c_deadline c \<noteq> None \<or> sint def \<le> 0 then c' = c
      else c_deadline c' = Some (now + sint def) \<and>
           (c_err c t = None \<or> c_err c' t \<noteq> None) \<and>
           (t < now + sint def \<or> c_err c' t \<noteq> None)"
  by (auto simp: ContextWithDefaultTimeout_def Let_def dur_simps with_timeout_def
        with_deadline_def c_err_def split: option.splits)

end
