(* ===== verification/Responses.thy ===== *)
theory Responses
  imports Backoff
begin

text \<open>
  What the code reads of an \<open>http.Response\<close>: its status, its headers and its body's address; the
  \<open>Retry-After\<close> parsers (\<open>httpx.go\<close>, lines 339 to 441) and the status check (450 to 463).

  \<open>http.ParseTime\<close> is a parameter \<open>pt\<close> (the instant a date names, on the clock's line, or \<open>None\<close>):
  the calendar is the library's, and nothing below depends on which dates it accepts.
\<close>

section \<open>Headers\<close>

type_synonym header = "string \<rightharpoonup> string list"

definition upper_byte :: "char \<Rightarrow> char" where
  "upper_byte c = (if 97 \<le> byte_of c \<and> byte_of c \<le> 122 then char_of (byte_of c - 32) else c)"

fun canon :: "bool \<Rightarrow> string \<Rightarrow> string" where
  "canon up [] = []"
| "canon up (c # cs) = (if up then upper_byte c else lower_byte c) # canon (c = CHR ''-'') cs"

definition header_get :: "header \<Rightarrow> string \<Rightarrow> string" where
  "header_get h k = (case h (canon True k) of Some (v # vs) \<Rightarrow> v | _ \<Rightarrow> '''')"

definition header_set :: "header \<Rightarrow> string \<Rightarrow> string \<Rightarrow> header" where
  "header_set h k v = h(canon True k \<mapsto> [v])"

definition header_del :: "header \<Rightarrow> string \<Rightarrow> header" where
  "header_del h k = h(canon True k := None)"

record response =
  StatusCode :: int
  Header :: header
  Body :: "nat option"

section \<open>Retry-After\<close>

abbreviation RetryAfterCap :: duration where
  "RetryAfterCap \<equiv> 60000000000"

definition maxRetryAfterDateLen :: nat where "maxRetryAfterDateLen = 64"
definition maxInt64Digits :: nat where "maxInt64Digits = 19"

definition looksLikeDeltaSeconds :: "string \<Rightarrow> bool" where
  "looksLikeDeltaSeconds h =
     (if h = [] then False
      else
        (let h = (if hd h = CHR ''+'' \<or> hd h = CHR ''-'' then tl h else h)
         in if h = [] then False else list_all is_digit h))"

text \<open>\<open>strconv.ParseInt(h, 10, 64)\<close> on a string of digits.\<close>

definition parse_int64 :: "string \<Rightarrow> int64 option" where
  "parse_int64 h = (if dec_value h \<le> 9223372036854775807 then Some (word_of_nat (dec_value h)) else None)"

text \<open>The same on \<open>int\<close>, for evaluation.\<close>

definition dec_int :: "string \<Rightarrow> int" where
  "dec_int s = foldl (\<lambda>n c. 10 * n + int (digit_val c)) 0 s"

lemma dec_int_value: "dec_int s = int (dec_value s)"
  by (induction s rule: rev_induct) (simp_all add: dec_int_def dec_value_snoc)

lemma parse_int64_code [code]:
  "parse_int64 h = (let n = dec_int h in if n \<le> 9223372036854775807 then Some (word_of_int n) else None)"
  by (simp add: parse_int64_def dec_int_value Let_def)

definition deltaSeconds :: "string \<Rightarrow> duration" where
  "deltaSeconds h =
     (if hd h = CHR ''-'' then 0
      else
        (let h = (if hd h = CHR ''+'' then tl h else h);
             h = dropWhile (\<lambda>c. c = CHR ''0'') h
         in if h = [] then 0
            else if length h > maxInt64Digits then 0
            else case parse_int64 h of
                   None \<Rightarrow> 0
                 | Some n \<Rightarrow>
                     if n \<le>s 0 then 0
                     else
                       (let maxSecs = go_div max_int64 second
                        in if maxSecs <s n then maxSecs * second else n * second)))"

definition parseRetryAfterValue :: "(string \<Rightarrow> int option) \<Rightarrow> int \<Rightarrow> string \<Rightarrow> duration" where
  "parseRetryAfterValue pt now h =
     (let h = trim_space h
      in if h = [] then 0
         else if looksLikeDeltaSeconds h then deltaSeconds h
         else if length h > maxRetryAfterDateLen then 0
         else case pt h of
                Some t \<Rightarrow> (let d = sat64 (t - now) in if 0 <s d then d else 0)
              | None \<Rightarrow> 0)"

definition ParseRetryAfter :: "(string \<Rightarrow> int option) \<Rightarrow> int \<Rightarrow> string \<Rightarrow> duration" where
  "ParseRetryAfter pt now h = smin (parseRetryAfterValue pt now h) RetryAfterCap"

definition ParseRetryAfterResponse :: "(string \<Rightarrow> int option) \<Rightarrow> int \<Rightarrow> response \<Rightarrow> duration" where
  "ParseRetryAfterResponse pt now resp =
     parseRetryAfterValue pt now (header_get (Header resp) ''Retry-After'')"

section \<open>Status\<close>

definition CheckHTTPStatus :: "(string \<Rightarrow> int option) \<Rightarrow> int \<Rightarrow> response \<Rightarrow> err option" where
  "CheckHTTPStatus pt now resp =
     (if StatusCode resp \<ge> 200 \<and> StatusCode resp < 300 then None
      else if StatusCode resp = 401 then Some (AuthError ''invalid API key (401)'')
      else if StatusCode resp = 403 then Some (AuthError ''access denied (403)'')
      else if StatusCode resp = 429
      then Some (RateLimitError ''rate limited (429)'' (ParseRetryAfterResponse pt now resp))
      else Some (HTTPStatusError (StatusCode resp)))"

section \<open>Lemmas\<close>

lemma max_secs: "sint (go_div max_int64 second) = 9223372036"
  by (simp add: go_div_def signed_divide_int_def)

lemma digits_over_19:
  assumes "list_all is_digit h" and "hd h \<noteq> CHR ''0''" and "length h > 19"
  shows "dec_value h > 9223372036854775807"
proof -
  obtain c t where h: "h = c # t" using assms(3) by (cases h) auto
  with assms(1) have "is_digit c" by simp
  moreover have "byte_of c \<noteq> 48"
  proof
    assume "byte_of c = 48"
    then have "byte_of c = byte_of (CHR ''0'')" by simp
    then have "c = CHR ''0''" by (simp only: byte_of_eq_iff)
    with assms(2) h show False by simp
  qed
  ultimately have "1 \<le> digit_val c" unfolding is_digit_def digit_val_def by linarith
  have "(10::nat) ^ 19 \<le> 10 ^ length t" using assms(3) h by (intro power_increasing) simp_all
  also have "\<dots> \<le> digit_val c * 10 ^ length t" using \<open>1 \<le> digit_val c\<close> by simp
  also have "\<dots> \<le> dec_value h" by (simp add: h dec_value_Cons)
  finally show ?thesis by simp
qed

lemma digits_shape:
  "looksLikeDeltaSeconds h \<Longrightarrow> hd h \<noteq> CHR ''-'' \<Longrightarrow>
     list_all is_digit (if hd h = CHR ''+'' then tl h else h)"
  by (auto simp: looksLikeDeltaSeconds_def Let_def split: if_splits)

lemma strip_zeros_head: "dropWhile (\<lambda>c. c = CHR ''0'') s = t \<Longrightarrow> t \<noteq> [] \<Longrightarrow> hd t \<noteq> CHR ''0''"
  using hd_dropWhile [of "\<lambda>c. c = CHR ''0''" s] by auto

lemma list_all_dropWhile: "list_all P s \<Longrightarrow> list_all P (dropWhile Q s)"
  by (auto simp: list_all_iff dest: set_dropWhileD)

lemma sint_seconds:
  "0 \<le> sint n \<Longrightarrow> sint n \<le> 9223372036 \<Longrightarrow> sint (n * second) = sint n * 1000000000"
  by (subst sint_mult64) simp_all

text \<open>The value of a delta-seconds text once its sign is off and its zeros are stripped.\<close>

lemma delta_stripped:
  assumes digits: "list_all is_digit h" and "h \<noteq> []" and "hd h \<noteq> CHR ''0''" and "length h \<le> 19"
  shows "sint (case parse_int64 h of
            None \<Rightarrow> 0
          | Some n \<Rightarrow> if n \<le>s 0 then 0
                     else let maxSecs = go_div max_int64 second
                          in if maxSecs <s n then maxSecs * second else n * second) =
         (if dec_value h \<le> 9223372036854775807 then min (int (dec_value h)) 9223372036 * 1000000000 else 0)"
proof (cases "dec_value h \<le> 9223372036854775807")
  case True
  then have "sint (word_of_nat (dec_value h) :: int64) = int (dec_value h)" by (rule sint_word_of_nat)
  then show ?thesis
    using True max_secs
    by (auto simp: parse_int64_def Let_def dur_simps sint_seconds min_def)
next
  case False
  then show ?thesis by (simp add: parse_int64_def)
qed

lemma deltaSeconds_value:
  assumes "looksLikeDeltaSeconds h"
  shows "sint (deltaSeconds h) =
     (if hd h = CHR ''-'' then 0
      else let v = dec_value (if hd h = CHR ''+'' then tl h else h)
           in if v \<le> 9223372036854775807 then min (int v) 9223372036 * 1000000000 else 0)"
proof (cases "hd h = CHR ''-''")
  case True
  then show ?thesis by (simp add: deltaSeconds_def)
next
  case False
  define u where "u = (if hd h = CHR ''+'' then tl h else h)"
  define s where "s = dropWhile (\<lambda>c. c = CHR ''0'') u"
  have digits: "list_all is_digit s"
    using digits_shape [OF assms False] unfolding s_def u_def by (rule list_all_dropWhile)
  have val: "dec_value s = dec_value u" unfolding s_def by (rule dec_value_strip_zeros)
  have unfolded: "deltaSeconds h =
      (if s = [] then 0
       else if length s > 19 then 0
       else case parse_int64 s of
              None \<Rightarrow> 0
            | Some n \<Rightarrow> if n \<le>s 0 then 0
                       else let maxSecs = go_div max_int64 second
                            in if maxSecs <s n then maxSecs * second else n * second)"
    using False unfolding deltaSeconds_def s_def u_def maxInt64Digits_def Let_def by (simp only: if_False)
  have "sint (deltaSeconds h) =
      (if dec_value s \<le> 9223372036854775807 then min (int (dec_value s)) 9223372036 * 1000000000 else 0)"
  proof (cases "s = [] \<or> length s > 19")
    case True
    then show ?thesis
      using digits digits_over_19 [of s] strip_zeros_head [OF s_def [symmetric]]
      unfolding unfolded by (cases "s = []") simp_all
  next
    case False
    then show ?thesis
      using delta_stripped [OF digits] strip_zeros_head [OF s_def [symmetric]]
      unfolding unfolded by simp
  qed
  then show ?thesis using False by (simp add: val u_def Let_def)
qed

lemma deltaSeconds_nonneg: "looksLikeDeltaSeconds h \<Longrightarrow> 0 \<le> sint (deltaSeconds h)"
  by (simp add: deltaSeconds_value Let_def)

lemma parseRetryAfterValue_nonneg: "0 \<le> sint (parseRetryAfterValue pt now h)"
  by (auto simp: parseRetryAfterValue_def Let_def dur_simps deltaSeconds_nonneg split: option.splits)

lemma ParseRetryAfter_bounds:
  "0 \<le> sint (ParseRetryAfter pt now h)" "sint (ParseRetryAfter pt now h) \<le> 60000000000"
  using parseRetryAfterValue_nonneg [of pt now h] by (simp_all add: ParseRetryAfter_def dur_simps)

lemma header_get_set [simp]: "header_get (header_set h k v) k = v"
  by (simp add: header_get_def header_set_def)

lemma header_get_del [simp]: "header_get (header_del h k) k = ''''"
  by (simp add: header_get_def header_del_def)

section \<open>Properties\<close>

text \<open>
  C34: the delta-seconds reader computes what the unbounded number says, although it never parses a
  negative or oversized text. For every text of the shape it is called on, the wait is
  zero for a negative number or one over the 64-bit range, and otherwise the number of
  seconds, cut at the most whole seconds a \<open>Duration\<close> holds, so no product wraps.
\<close>

theorem delta_seconds_exact:
  assumes "looksLikeDeltaSeconds h"
  shows "sint (deltaSeconds h) =
     (if hd h = CHR ''-'' then 0
      else let v = dec_value (if hd h = CHR ''+'' then tl h else h)
           in if v < 2 ^ 63 then min (int v) ((2 ^ 63 - 1) div 10 ^ 9) * 10 ^ 9 else 0)"
  using deltaSeconds_value [OF assms] by (simp add: Let_def le_less_Suc_eq less_Suc_eq_le)

theorem delta_seconds_exact_witness:
  "sint (deltaSeconds ''+0012'') = 12000000000 \<and> sint (deltaSeconds ''99999999999'') = 9223372036000000000"
  using delta_seconds_exact [of "''+0012''"] delta_seconds_exact [of "''99999999999''"]
  by (simp add: looksLikeDeltaSeconds_def is_digit_def dec_value_def digit_val_def)

text \<open>
  \<open>ParseRetryAfter\<close> answers a wait between zero and sixty seconds whatever header the
  upstream sends, and whatever dates the library parses; it is the uncapped value wherever that
  is at most the cap.
\<close>

theorem retry_after_capped:
  "0 \<le> sint (ParseRetryAfter pt now h) \<and> sint (ParseRetryAfter pt now h) \<le> 60 * 10 ^ 9 \<and>
   sint (ParseRetryAfter pt now h) = min (sint (parseRetryAfterValue pt now h)) (60 * 10 ^ 9)"
  using parseRetryAfterValue_nonneg [of pt now h] by (simp add: ParseRetryAfter_def dur_simps)

text \<open>
  \<open>CheckHTTPStatus\<close> returns nil exactly for a 2xx, and what \<open>IsTransient\<close> says of its error
  is the one status rule less 429, which arrives as a rate limit.
\<close>

theorem status_check_transience:
  "(CheckHTTPStatus pt now resp = None \<longleftrightarrow> StatusCode resp \<in> {200 ..< 300}) \<and>
   (IsTransient (CheckHTTPStatus pt now resp) \<longleftrightarrow>
      IsRetryableStatus (StatusCode resp) \<and> StatusCode resp \<noteq> 429)"
proof -
  have auth: "\<not> IsTransient (Some (AuthError m))" for m
    by (simp add: IsTransient_def errors_as_self as_auth_def)
  have rate: "\<not> IsTransient (Some (RateLimitError m r))" for m r
    by (simp add: IsTransient_def errors_as_self as_rate_limit_def)
  have status: "IsTransient (Some (HTTPStatusError c)) = IsRetryableStatus c" for c
    by (simp add: IsTransient_def IsPermanent_def IsAttemptTimeout_def isCallerContextError_def
        errors_as_def errors_is_def nodes_leaf err_casts)
  have nil: "\<not> IsTransient None" by (simp add: IsTransient_def)
  have "IsTransient (CheckHTTPStatus pt now resp) \<longleftrightarrow>
      IsRetryableStatus (StatusCode resp) \<and> StatusCode resp \<noteq> 429"
    by (simp add: CheckHTTPStatus_def auth rate status nil IsRetryableStatus_def)
  then show ?thesis by (simp add: CheckHTTPStatus_def)
qed

text \<open>
  The error \<open>GetBytes\<close> returns for a status matches \<open>ErrRateLimited\<close> exactly for 429 and
  \<open>ErrServerError\<close> exactly from 500 on, through any prefix \<open>fmt.Errorf\<close> puts on it, and never
  counts as transient by itself.
\<close>

theorem status_error_matches:
  "(errors_is (Some (WrapError p (StatusError u c))) ErrRateLimited \<longleftrightarrow> c = 429) \<and>
   (errors_is (Some (WrapError p (StatusError u c))) ErrServerError \<longleftrightarrow> c \<ge> 500) \<and>
   \<not> IsTransient (Some (WrapError p (StatusError u c)))"
proof -
  have "nodes (WrapError p (StatusError u c)) = [WrapError p (StatusError u c), StatusError u c]"
    by (simp add: nodes_one nodes_leaf)
  then show ?thesis
    by (simp add: IsTransient_def IsPermanent_def IsAttemptTimeout_def isCallerContextError_def
        CauseOf_def isTooLarge_def isTLSFailure_def isDNSFailure_def isReset_def isTimeout_def
        errors_as_def errors_is_def StatusError_Is_def err_casts)
qed

end
