(* ===== verification/Bodies.thy ===== *)
theory Bodies
  imports Responses
begin

text \<open>
  The body helpers of \<open>httpx.go\<close> (lines 674 to 788) and \<open>drainResp\<close> (\<open>roundtripper.go\<close>, 256 to
  260). A body is the bytes the far end still has to give and what follows them: \<open>b_fault\<close> is the
  read error after the last byte, \<open>None\<close> for a clean end; \<open>b_eager\<close> says that the reader returns
  that outcome from the same call as the last byte, which \<open>io.Reader\<close> allows; \<open>b_closed\<close> counts
  the \<open>Close\<close> calls. Bodies live in the store of the world, under their address.
\<close>

section \<open>Reading\<close>

text \<open>
  All of \<open>io.LimitReader(body, n)\<close>: the bytes and the error met, \<open>None\<close> both for a clean end and
  for a limit reached first. A limit of zero or less reads nothing, and a closed body answers
  net/http's error for one.
\<close>

definition closed_body_err :: err where
  "closed_body_err = NewError ''http: read on closed response body''"

definition read_limited :: "int \<Rightarrow> body \<Rightarrow> (string \<times> err option) \<times> body" where
  "read_limited n b =
     (if n \<le> 0 then (([], None), b)
      else if b_closed b > 0 then (([], Some closed_body_err), b)
      else
        (let len = int (length (b_data b));
             outcome = (if len < n \<or> (len = n \<and> b_eager b) then b_fault b else None)
         in ((take (nat n) (b_data b), outcome), b\<lparr>b_data := drop (nat n) (b_data b)\<rparr>)))"

text \<open>The same without a large limit as a \<open>nat\<close>, for evaluation.\<close>

lemma read_limited_code [code]:
  "read_limited n b =
     (if n \<le> 0 then (([], None), b)
      else if b_closed b > 0 then (([], Some closed_body_err), b)
      else
        (let len = int (length (b_data b))
         in if len < n \<or> (len = n \<and> b_eager b) then ((b_data b, b_fault b), b\<lparr>b_data := []\<rparr>)
            else if len = n then ((b_data b, None), b\<lparr>b_data := []\<rparr>)
            else ((take (nat n) (b_data b), None), b\<lparr>b_data := drop (nat n) (b_data b)\<rparr>)))"
  by (auto simp: read_limited_def Let_def)

definition close_body :: "nat \<Rightarrow> world \<Rightarrow> world" where
  "close_body a w = w\<lparr>bodies := (bodies w)(a := (bodies w a)\<lparr>b_closed := Suc (b_closed (bodies w a))\<rparr>)\<rparr>"

definition store_body :: "nat \<Rightarrow> body \<Rightarrow> world \<Rightarrow> world" where
  "store_body a b w = w\<lparr>bodies := (bodies w)(a := b)\<rparr>"

section \<open>Draining\<close>

definition drainLimit :: int where "drainLimit = 65536"

text \<open>\<open>io.CopyN\<close> into \<open>io.Discard\<close>: \<open>io.EOF\<close> when the source ended short of the count.\<close>

definition copy_n :: "int \<Rightarrow> body \<Rightarrow> err option \<times> body" where
  "copy_n n b =
     (let ((taken, e), b') = read_limited n b
      in (if int (length taken) = n then None
          else case e of None \<Rightarrow> Some IoEOF | Some x \<Rightarrow> Some x, b'))"

definition Drain :: "nat \<Rightarrow> world \<Rightarrow> world" where
  "Drain a w =
     (let (e, b') = copy_n drainLimit (bodies w a);
          w' = store_body a b' w
      in if e \<noteq> None \<and> \<not> errors_is e IoEOF
         then log default_logger LevelDebug ''failed to drain response body'' [] w'
         else w')"

definition DrainClose :: "nat \<Rightarrow> world \<Rightarrow> world" where
  "DrainClose a w = close_body a (Drain a w)"

definition drainResp :: "response option \<Rightarrow> world \<Rightarrow> world" where
  "drainResp resp w =
     (case resp of
        None \<Rightarrow> w
      | Some r \<Rightarrow> (case Body r of None \<Rightarrow> w | Some a \<Rightarrow> DrainClose a w))"

section \<open>Capped reads\<close>

text \<open>\<open>LimitedBody\<close>: a reader over the body with a budget, and the body's own \<open>Close\<close>.\<close>

record limitedReadCloser =
  lrc_body :: nat
  lrc_budget :: int64

definition LimitedBody :: "nat \<Rightarrow> int64 \<Rightarrow> limitedReadCloser" where
  "LimitedBody a limit = \<lparr>lrc_body = a, lrc_budget = limit\<rparr>"

definition lrc_read_all :: "limitedReadCloser \<Rightarrow> world \<Rightarrow> (string \<times> err option) \<times> world" where
  "lrc_read_all l w =
     (let (r, b') = read_limited (sint (lrc_budget l)) (bodies w (lrc_body l))
      in (r, store_body (lrc_body l) b' w))"

definition lrc_close :: "limitedReadCloser \<Rightarrow> world \<Rightarrow> world" where
  "lrc_close l w = close_body (lrc_body l) w"

definition ReadLimitedBody :: "nat \<Rightarrow> int64 \<Rightarrow> world \<Rightarrow> (err + string) \<times> world" where
  "ReadLimitedBody a limit w =
     (let probe = (if limit <s max_int64 then limit + 1 else limit);
          ((data, e), b') = read_limited (sint probe) (bodies w a);
          w' = close_body a (store_body a b' w)
      in (case e of
            Some x \<Rightarrow> Inl x
          | None \<Rightarrow> if sint limit < int (length data) then Inl (ResponseTooLargeError limit) else Inr data,
          w'))"

section \<open>Lemmas\<close>

lemma read_limited_closed [simp]: "b_closed (snd (read_limited n b)) = b_closed b"
  by (simp add: read_limited_def Let_def)

lemma copy_n_closed [simp]: "b_closed (snd (copy_n n b)) = b_closed b"
  by (simp add: copy_n_def case_prod_beta)

lemma body_store_fields [world_simps]:
  "clock (store_body a b w) = clock w" "caller (store_body a b w) = caller w"
  "logged (store_body a b w) = logged w" "ctx_err (store_body a b w) = ctx_err w"
  "bodies (store_body a b w) = (bodies w)(a := b)"
  "outside (store_body a b w) = outside w" "outside (close_body a w) = outside w"
  "clock (close_body a w) = clock w" "caller (close_body a w) = caller w"
  "logged (close_body a w) = logged w" "ctx_err (close_body a w) = ctx_err w"
  "bodies (close_body a w) = (bodies w)(a := (bodies w a)\<lparr>b_closed := Suc (b_closed (bodies w a))\<rparr>)"
  by (simp_all add: store_body_def close_body_def ctx_err_def)

lemma Drain_fields [world_simps]:
  "clock (Drain a w) = clock w" "caller (Drain a w) = caller w" "ctx_err (Drain a w) = ctx_err w"
  "c \<noteq> a \<Longrightarrow> bodies (Drain a w) c = bodies w c"
  "b_closed (bodies (Drain a w) a) = b_closed (bodies w a)" "outside (Drain a w) = outside w"
  by (simp_all add: Drain_def Let_def case_prod_beta world_simps)

lemma DrainClose_fields [world_simps]:
  "clock (DrainClose a w) = clock w" "caller (DrainClose a w) = caller w"
  "ctx_err (DrainClose a w) = ctx_err w"
  "c \<noteq> a \<Longrightarrow> bodies (DrainClose a w) c = bodies w c"
  "b_closed (bodies (DrainClose a w) a) = Suc (b_closed (bodies w a))"
  "outside (DrainClose a w) = outside w"
  by (simp_all add: DrainClose_def world_simps)

lemma drainResp_fields [world_simps]:
  "clock (drainResp r w) = clock w" "caller (drainResp r w) = caller w"
  "ctx_err (drainResp r w) = ctx_err w" "outside (drainResp r w) = outside w"
  by (simp_all add: drainResp_def world_simps split: option.split)

lemma ReadLimitedBody_fields [world_simps]:
  "clock (snd (ReadLimitedBody a n w)) = clock w" "caller (snd (ReadLimitedBody a n w)) = caller w"
  "ctx_err (snd (ReadLimitedBody a n w)) = ctx_err w" "logged (snd (ReadLimitedBody a n w)) = logged w"
  "outside (snd (ReadLimitedBody a n w)) = outside w"
  "c \<noteq> a \<Longrightarrow> bodies (snd (ReadLimitedBody a n w)) c = bodies w c"
  "b_closed (bodies (snd (ReadLimitedBody a n w)) a) = Suc (b_closed (bodies w a))"
  by (simp_all add: ReadLimitedBody_def Let_def case_prod_beta world_simps)

interpretation reading: world_op "ReadLimitedBody a n" for a n
  by unfold_locales (simp add: world_le_def world_simps)

interpretation draining: world_op "\<lambda>w. ((), drainResp r w)" for r
  by unfold_locales (simp add: world_le_def world_simps)

text \<open>The probe of \<open>ReadLimitedBody\<close> is one past the limit, below the largest value.\<close>

lemma probe_value:
  "sint limit < 9223372036854775807 \<Longrightarrow>
     sint (if limit <s max_int64 then limit + 1 else limit) = sint limit + 1"
  using sint64_bounds(1) [of limit] by (simp add: dur_simps sint_add64)

lemma fst_ReadLimitedBody:
  assumes "sint limit < 9223372036854775807"
  shows "fst (ReadLimitedBody a limit w) =
     (let (data, e) = fst (read_limited (sint limit + 1) (bodies w a))
      in case e of
           Some x \<Rightarrow> Inl x
         | None \<Rightarrow> if sint limit < int (length data) then Inl (ResponseTooLargeError limit) else Inr data)"
  unfolding ReadLimitedBody_def Let_def probe_value [OF assms] by (simp add: case_prod_beta)

section \<open>Properties\<close>

text \<open>
  \<open>ReadLimitedBody\<close> never passes a truncated body off as a complete one. Whatever limit below
  the largest \<open>int64\<close> it is given, bytes it returns are all the body had, ended cleanly, and
  are within the limit.
\<close>

theorem read_limited_body_complete:
  assumes "sint limit < 2 ^ 63 - 1" and "fst (ReadLimitedBody a limit w) = Inr data"
  shows "data = b_data (bodies w a) \<and> b_fault (bodies w a) = None \<and> int (length data) \<le> sint limit"
  using assms
  by (auto simp: fst_ReadLimitedBody read_limited_def Let_def split: if_splits option.splits)

text \<open>A world with one body, for the witnesses.\<close>

definition one_body_world :: "body \<Rightarrow> world" where
  "one_body_world b = world0\<lparr>bodies := (\<lambda>_. b)\<rparr>"

definition open_body :: "string \<Rightarrow> err option \<Rightarrow> body" where
  "open_body s f = \<lparr>b_data = s, b_fault = f, b_eager = False, b_closed = 0\<rparr>"

theorem read_limited_body_complete_witness:
  "fst (ReadLimitedBody 0 3 (one_body_world (open_body ''abc'' None))) = Inr ''abc'' \<and>
   b_fault (open_body ''abc'' None) = None"
proof -
  have r: "fst (ReadLimitedBody 0 3 (one_body_world (open_body ''abc'' None))) = Inr ''abc''"
    by (simp add: ReadLimitedBody_def read_limited_def one_body_world_def open_body_def dur_simps)
  with read_limited_body_complete [of 3 0 "one_body_world (open_body ''abc'' None)" "''abc''"]
  show ?thesis by (simp add: one_body_world_def)
qed

text \<open>
  C35: on an open body and a limit from zero up to below the largest \<open>int64\<close>,
  \<open>ReadLimitedBody\<close> fails with \<open>ResponseTooLargeError\<close> exactly when the body is over the limit
  and no read error came with the probe byte; a body within the limit gives its read
  error or its bytes. On every path the body is closed exactly once more and no other body is
  touched.
\<close>

theorem read_limited_body_outcome:
  assumes "b_closed (bodies w a) = 0" and "0 \<le> sint limit" and "sint limit < 2 ^ 63 - 1"
  shows "fst (ReadLimitedBody a limit w) =
     (let b = bodies w a; len = int (length (b_data b))
      in if len > sint limit \<and> \<not> (len = sint limit + 1 \<and> b_eager b \<and> b_fault b \<noteq> None)
         then Inl (ResponseTooLargeError limit)
         else case b_fault b of Some x \<Rightarrow> Inl x | None \<Rightarrow> Inr (b_data b)) \<and>
     b_closed (bodies (snd (ReadLimitedBody a limit w)) a) = Suc (b_closed (bodies w a)) \<and>
     (bodies (snd (ReadLimitedBody a limit w)))(a := bodies w a) = bodies w"
proof -
  have "(bodies (snd (ReadLimitedBody a limit w)))(a := bodies w a) = bodies w"
    by (rule ext) (simp add: world_simps)
  moreover have "fst (ReadLimitedBody a limit w) =
     (let b = bodies w a; len = int (length (b_data b))
      in if len > sint limit \<and> \<not> (len = sint limit + 1 \<and> b_eager b \<and> b_fault b \<noteq> None)
         then Inl (ResponseTooLargeError limit)
         else case b_fault b of Some x \<Rightarrow> Inl x | None \<Rightarrow> Inr (b_data b))"
    using assms
    by (auto simp: fst_ReadLimitedBody read_limited_def Let_def split: option.splits)
  ultimately show ?thesis by (simp add: world_simps)
qed

theorem read_limited_body_outcome_witness:
  "fst (ReadLimitedBody 0 2 (one_body_world (open_body ''abc'' None))) = Inl (ResponseTooLargeError 2)"
  using read_limited_body_outcome [of "one_body_world (open_body ''abc'' None)" 0 2]
  by (simp add: one_body_world_def open_body_def)

text \<open>
  A drain logs nothing the far end wrote. \<open>Drain\<close> leaves the log as it was or adds one
  fixed line without attributes, whatever the read error says, and it discards at most the
  first 64 KiB of the body.
\<close>

theorem drain_logs_nothing_remote:
  "logged (Drain a w) \<in>
     {logged w,
      logged w @ [\<lparr>ll_logger = default_logger, ll_level = LevelDebug,
                   ll_msg = ''failed to drain response body'', ll_attrs = []\<rparr>]} \<and>
   (\<exists>k \<le> 65536. b_data (bodies (Drain a w) a) = drop k (b_data (bodies w a)))"
proof -
  have data: "\<exists>k \<le> 65536. b_data (snd (copy_n drainLimit b)) = drop k (b_data b)" for b
    by (auto simp: copy_n_def read_limited_def drainLimit_def Let_def intro: exI [of _ 0] exI [of _ 65536])
  have "b_data (bodies (Drain a w) a) = b_data (snd (copy_n drainLimit (bodies w a)))"
    by (simp add: Drain_def Let_def case_prod_beta world_simps)
  then show ?thesis
    using data [of "bodies w a"] by (simp add: Drain_def Let_def case_prod_beta world_simps log_def)
qed

end
