(* ===== verification/Redaction.thy ===== *)
theory Redaction
  imports Bodies
begin

text \<open>
  Keeping credentials out of logs and errors (\<open>httpx.go\<close>, lines 1292 to 1494): the reduction of
  \<open>url.Error\<close> chains, the redaction of a known secret, and the log-safe rendering of a URL.

  \<open>net/url\<close>'s parser, its query parser and its serialiser are parameters, bundled in \<open>url_lib\<close>:
  what the package does is change fields of the parsed value between the two, and the
  properties hold for any of them.
\<close>

section \<open>Reducing url.Error chains\<close>

definition maxURLErrorDepth :: nat where "maxURLErrorDepth = 8"

text \<open>The argument is the pointer: \<open>None\<close> for a nil \<open>*url.Error\<close>, else its \<open>Err\<close> field.\<close>

definition urlErrorCause :: "err option option \<Rightarrow> err" where
  "urlErrorCause urlErr =
     (case urlErr of
        None \<Rightarrow> ErrRequestFailed
      | Some None \<Rightarrow> ErrRequestFailed
      | Some (Some e) \<Rightarrow> the (nameHangUp (Some e)))"

fun reduce_loop :: "nat \<Rightarrow> err \<Rightarrow> err" where
  "reduce_loop 0 e =
     (if errors_as as_url_error (Some e) \<noteq> None then ErrRequestFailed else e)"
| "reduce_loop (Suc n) e =
     (case errors_as as_url_error (Some e) of
        None \<Rightarrow> e
      | Some cause \<Rightarrow> reduce_loop n (urlErrorCause (Some cause)))"

definition reduceURLErrors :: "err \<Rightarrow> err" where
  "reduceURLErrors e = reduce_loop maxURLErrorDepth e"

definition LogSafeError :: "err option \<Rightarrow> err option" where
  "LogSafeError err = (case err of None \<Rightarrow> None | Some e \<Rightarrow> Some (reduceURLErrors e))"

section \<open>Redacting a known secret\<close>

definition RedactSecretString :: "string \<Rightarrow> string \<Rightarrow> string" where
  "RedactSecretString s secret = (if secret = [] then s else replace_all secret ''REDACTED'' s)"

definition RedactTransportError ::
  "(string \<Rightarrow> string) \<Rightarrow> (string \<Rightarrow> string) \<Rightarrow> err option \<Rightarrow> string \<Rightarrow> string \<Rightarrow> err option" where
  "RedactTransportError rd q err pre secret =
     (case err of
        None \<Rightarrow> None
      | Some e \<Rightarrow>
          (let e = reduceURLErrors e;
               wrapped = (if pre = [] then e else WrapError (pre @ '': '') e)
           in if secret = [] then Some wrapped
              else
                (let msg = err_msg rd q wrapped
                 in if \<not> sublist secret msg then Some wrapped
                    else Some (NewError (RedactSecretString msg secret)))))"

definition RedactSecret ::
  "(string \<Rightarrow> string) \<Rightarrow> (string \<Rightarrow> string) \<Rightarrow> err option \<Rightarrow> string \<Rightarrow> err option" where
  "RedactSecret rd q err secret = RedactTransportError rd q err [] secret"

section \<open>Rendering a URL\<close>

record go_url =
  u_scheme :: string
  u_opaque :: string
  u_user :: "(string \<times> string option) option"
  u_host :: string
  u_path :: string
  u_raw_path :: string
  u_force_query :: bool
  u_raw_query :: string
  u_fragment :: string
  u_raw_fragment :: string

record url_lib =
  url_parse :: "string \<Rightarrow> go_url option"
  query_parse :: "string \<Rightarrow> (string \<times> string list) list"
  query_encode :: "(string \<times> string list) list \<Rightarrow> string"
  url_string :: "go_url \<Rightarrow> string"

text \<open>What \<open>redactURL\<close> does to the parsed value before it is serialised.\<close>

definition redact_fields :: "url_lib \<Rightarrow> go_url \<Rightarrow> go_url" where
  "redact_fields lib u =
     (let u = (if u_raw_query u \<noteq> []
               then u\<lparr>u_raw_query := query_encode lib
                        (map (\<lambda>(k, vs). (k, [''REDACTED''])) (query_parse lib (u_raw_query u)))\<rparr>
               else u);
          u = u\<lparr>u_fragment := []\<rparr>;
          u = u\<lparr>u_raw_fragment := []\<rparr>
      in if u_user u \<noteq> None then u\<lparr>u_user := Some (''REDACTED'', None)\<rparr> else u)"

text \<open>\<open>url.URL.Redacted\<close>: the password, if there is one, reads \<open>xxxxx\<close>.\<close>

definition url_redacted :: "url_lib \<Rightarrow> go_url \<Rightarrow> string" where
  "url_redacted lib u =
     url_string lib
       (case u_user u of
          Some (name, Some pw) \<Rightarrow> u\<lparr>u_user := Some (name, Some ''xxxxx'')\<rparr>
        | _ \<Rightarrow> u)"

definition redactURL :: "url_lib \<Rightarrow> string \<Rightarrow> string" where
  "redactURL lib raw =
     (case url_parse lib raw of
        None \<Rightarrow> ''[unparseable url]''
      | Some u \<Rightarrow> url_redacted lib (redact_fields lib u))"

section \<open>Lemmas on the reduction\<close>

lemma no_url_error_iff: "errors_as as_url_error (Some e) = None \<longleftrightarrow> (\<forall>x \<in> set (nodes e). as_url_error x = None)"
  by (rule errors_as_None_iff)

lemma reduce_loop_clean: "errors_as as_url_error (Some (reduce_loop n e)) = None"
proof (induction n e rule: reduce_loop.induct)
  case (1 e)
  have "errors_as as_url_error (Some ErrRequestFailed) = None"
    by (simp add: errors_as_def nodes_leaf as_url_error_def)
  then show ?case by simp
next
  case (2 n e)
  then show ?case by (simp split: option.split)
qed

lemma reduce_loop_id: "errors_as as_url_error (Some e) = None \<Longrightarrow> reduce_loop n e = e"
  by (cases n) simp_all

lemma LogSafeError_simps [simp]:
  "LogSafeError None = None" "LogSafeError (Some e) = Some (reduceURLErrors e)"
  by (simp_all add: LogSafeError_def)

lemma LogSafeError_None_iff [simp]: "LogSafeError err = None \<longleftrightarrow> err = None"
  by (cases err) simp_all

lemma reduceURLErrors_clean: "errors_as as_url_error (Some (reduceURLErrors e)) = None"
  by (simp add: reduceURLErrors_def reduce_loop_clean)

lemma reduceURLErrors_id: "errors_as as_url_error (Some e) = None \<Longrightarrow> reduceURLErrors e = e"
  by (simp add: reduceURLErrors_def reduce_loop_id)

lemma clean_kids:
  "errors_as as_url_error (Some e) = None \<Longrightarrow> k \<in> set (kids e) \<Longrightarrow> errors_as as_url_error (Some k) = None"
  by (meson errors_as_kid not_None_eq)

lemma err_msg_quote_irrelevant:
  "errors_as as_url_error (Some e) = None \<Longrightarrow> err_msg rd q e = err_msg rd q' e"
proof (induction rd q e rule: err_msg.induct)
  case (19 rd q es)
  then have "map (err_msg rd q) es = map (err_msg rd q') es"
    using clean_kids [of "JoinError es"] by (intro map_cong) auto
  then show ?case by (simp only: err_msg.simps)
next
  case (29 rd q op u e)
  then show ?case by (simp add: errors_as_self as_url_error_def)
next
  case (28 rd q op u)
  then show ?case by (simp add: errors_as_self as_url_error_def)
qed (use clean_kids in \<open>force+\<close>)

section \<open>Lemmas on replacing\<close>

lemma prefix_through_replace:
  assumes "old \<noteq> []" and "new \<noteq> []" and "hd new \<notin> set p" and "prefix p (replace_all old new s)"
  shows "prefix p s"
  using assms(3,4)
proof (induction s arbitrary: p)
  case Nil
  then show ?case by simp
next
  case (Cons c cs)
  show ?case
  proof (cases "prefix old (c # cs)")
    case True
    then obtain r where "c # cs = old @ r" by (auto simp: prefix_def)
    with Cons.prems assms(1,2) have "p = []"
      by (cases p; cases new) (auto simp: replace_all_hit)
    then show ?thesis by simp
  next
    case False
    with Cons assms(1) show ?thesis
      by (cases p) (auto simp: replace_all_miss)
  qed
qed

lemma sublist_append_start:
  "sublist p (xs @ ys) \<Longrightarrow> p \<noteq> [] \<Longrightarrow> hd p \<notin> set xs \<Longrightarrow> sublist p ys"
proof (induction xs)
  case (Cons x xs)
  then show ?case by (cases p) (auto simp: sublist_Cons_right)
qed simp

lemma replace_all_removes:
  assumes "old \<noteq> []" and "new \<noteq> []" and "hd old \<notin> set new" and "hd new \<notin> set old"
  shows "\<not> sublist old (replace_all old new s)"
proof (induction s rule: length_induct)
  case (1 s)
  show ?case
  proof (cases s)
    case Nil
    then show ?thesis using assms(1) by simp
  next
    case (Cons c cs)
    show ?thesis
    proof (cases "prefix old s")
      case True
      then obtain r where r: "s = old @ r" by (auto simp: prefix_def)
      with assms(1) have "length r < length s" by simp
      with "1.IH" have "\<not> sublist old (replace_all old new r)" by blast
      with r assms show ?thesis
        by (auto simp: replace_all_hit dest: sublist_append_start)
    next
      case False
      with Cons assms(1) have step: "replace_all old new s = c # replace_all old new cs"
        by (simp add: replace_all_miss)
      have "\<not> prefix old (replace_all old new s)"
        using prefix_through_replace [OF assms(1,2,4)] False by blast
      moreover have "\<not> sublist old (replace_all old new cs)" using "1.IH" Cons by simp
      ultimately show ?thesis using step by (simp add: sublist_Cons_right)
    qed
  qed
qed

section \<open>Lemmas on the redacted URL\<close>

text \<open>Two parsed URLs that a redacted rendering must not tell apart: they agree on all but the
  userinfo, the query values and the fragment.\<close>

definition same_public :: "url_lib \<Rightarrow> go_url \<Rightarrow> go_url \<Rightarrow> bool" where
  "same_public lib u v \<longleftrightarrow>
     u_scheme u = u_scheme v \<and> u_opaque u = u_opaque v \<and> u_host u = u_host v \<and>
     u_path u = u_path v \<and> u_raw_path u = u_raw_path v \<and> u_force_query u = u_force_query v \<and>
     (u_user u = None \<longleftrightarrow> u_user v = None) \<and>
     (u_raw_query u = [] \<longleftrightarrow> u_raw_query v = []) \<and>
     map fst (query_parse lib (u_raw_query u)) = map fst (query_parse lib (u_raw_query v))"

lemma redacted_values: "map fst q1 = map fst q2 \<Longrightarrow>
   map (\<lambda>(k, vs). (k, [''REDACTED''])) q1 = map (\<lambda>(k, vs). (k, [''REDACTED''])) q2"
  by (induction q1 q2 rule: list_induct2') auto

lemma redact_fields_eq:
  "redact_fields lib u =
     \<lparr>u_scheme = u_scheme u, u_opaque = u_opaque u,
      u_user = (if u_user u = None then None else Some (''REDACTED'', None)),
      u_host = u_host u, u_path = u_path u, u_raw_path = u_raw_path u,
      u_force_query = u_force_query u,
      u_raw_query = (if u_raw_query u = [] then []
                     else query_encode lib
                            (map (\<lambda>(k, vs). (k, [''REDACTED''])) (query_parse lib (u_raw_query u)))),
      u_fragment = [], u_raw_fragment = []\<rparr>"
  by (cases u) (simp add: redact_fields_def Let_def)

lemma redact_fields_public:
  assumes "same_public lib u v"
  shows "redact_fields lib u = redact_fields lib v"
proof -
  have "map (\<lambda>(k, vs). (k, [''REDACTED''])) (query_parse lib (u_raw_query u)) =
        map (\<lambda>(k, vs). (k, [''REDACTED''])) (query_parse lib (u_raw_query v))"
    using assms by (intro redacted_values) (simp add: same_public_def)
  then show ?thesis
    using assms unfolding same_public_def redact_fields_eq by simp
qed

section \<open>Properties\<close>

text \<open>
  What \<open>LogSafeError\<close> returns renders no raw request URL. No \<open>url.Error\<close> is left anywhere
  in its chain, so its message does not depend on how the library would quote one; it is nil
  exactly for nil.
\<close>

theorem log_safe_error_holds_no_url_error:
  "errors_as as_url_error (LogSafeError err) = None \<and>
   map_option (err_msg rd q) (LogSafeError err) = map_option (err_msg rd q') (LogSafeError err) \<and>
   (LogSafeError err = None \<longleftrightarrow> err = None)"
  by (cases err) (simp_all add: reduceURLErrors_clean err_msg_quote_irrelevant [of _ rd q q'])

text \<open>
  An error without a \<open>url.Error\<close> in its chain passes through \<open>LogSafeError\<close> unchanged, so its
  marks and its \<open>errors.Is\<close> and \<open>errors.As\<close> matches are kept, and reducing twice is
  reducing once.
\<close>

theorem log_safe_error_identity:
  "(errors_as as_url_error err = None \<longrightarrow> LogSafeError err = err) \<and>
   LogSafeError (LogSafeError err) = LogSafeError err"
  by (cases err) (simp_all add: reduceURLErrors_id reduceURLErrors_clean)

theorem log_safe_error_identity_witness:
  "LogSafeError (Some (PermanentError (Errno EPIPE))) = Some (PermanentError (Errno EPIPE))"
  using log_safe_error_identity [of "Some (PermanentError (Errno EPIPE))"]
  by (simp add: errors_as_def nodes_one nodes_leaf as_url_error_def)

text \<open>
  A hang-up is still named after the reduction of net/http's \<open>url.Error\<close>: the bare \<open>io.EOF\<close>
  in it becomes the server's hang-up, whose cause is a reset as the unreduced error's was, while
  a bare \<open>io.EOF\<close> of the caller's has no known cause.
\<close>

theorem reduction_names_hang_up:
  "LogSafeError (Some (UrlError op u (Some IoEOF))) = Some ErrServerClosed \<and>
   CauseOf (LogSafeError (Some (UrlError op u (Some IoEOF)))) = CauseReset \<and>
   CauseOf (Some (UrlError op u (Some IoEOF))) = CauseReset \<and> CauseOf (Some IoEOF) = CauseUnknown"
  by (simp add: reduceURLErrors_def maxURLErrorDepth_def numeral_eq_Suc errors_as_def urlErrorCause_def
        CauseOf_def isTooLarge_def isTLSFailure_def isDNSFailure_def isReset_def isTimeout_def
        errors_is_def nodes_one nodes_leaf err_casts)

text \<open>
  A redacted text no longer holds the secret, provided the secret cannot be rebuilt
  from the placeholder: its first byte is none of the placeholder's, and it holds
  no \<open>R\<close>, the placeholder's first.
\<close>

theorem redaction_removes_secret:
  assumes "secret \<noteq> []" and "hd secret \<notin> set ''REDACTED''" and "CHR ''R'' \<notin> set secret"
  shows "\<not> sublist secret (RedactSecretString s secret)"
  using replace_all_removes [of secret "''REDACTED''" s] assms
  by (simp add: RedactSecretString_def)

theorem redaction_removes_secret_witness:
  "\<not> sublist ''tok-1'' (RedactSecretString ''GET /hook/tok-1/x: tok-1'' ''tok-1'')"
  by (rule redaction_removes_secret) simp_all



text \<open>
  The rendering of a URL in logs and errors leaks neither userinfo nor a query value nor the
  fragment. Two URLs that parse to values differing in nothing else are rendered the same,
  for any parser and serialiser.
\<close>

theorem redacted_url_noninterference:
  assumes "url_parse lib raw1 = Some u" and "url_parse lib raw2 = Some v" and "same_public lib u v"
  shows "redactURL lib raw1 = redactURL lib raw2"
  using assms redact_fields_public [OF assms(3)] by (simp add: redactURL_def)

text \<open>A library that reads two URLs, for the witness: one with credentials in every place the
  rendering hides, one without.\<close>

definition demo_url :: "string \<Rightarrow> string \<Rightarrow> string \<Rightarrow> go_url" where
  "demo_url name query fragment =
     \<lparr>u_scheme = ''https'', u_opaque = [], u_user = Some (name, Some name), u_host = ''h'',
      u_path = ''/p'', u_raw_path = [], u_force_query = False, u_raw_query = query,
      u_fragment = fragment, u_raw_fragment = []\<rparr>"

definition demo_lib :: url_lib where
  "demo_lib =
     \<lparr>url_parse = (\<lambda>s. if s = ''https://tok:tok@h/p?k=s3cret#x'' then Some (demo_url ''tok'' ''k=s3cret'' ''x'')
                       else if s = ''https://u:u@h/p?k=1'' then Some (demo_url ''u'' ''k=1'' [])
                       else None),
      query_parse = (\<lambda>q. [(''k'', [drop 2 q])]),
      query_encode = (\<lambda>kvs. concat (map (\<lambda>(k, vs). k @ ''='' @ concat vs) kvs)),
      url_string = (\<lambda>u. u_scheme u @ ''://'' @ (case u_user u of None \<Rightarrow> [] | Some (n, p) \<Rightarrow> n @ ''@'')
                         @ u_host u @ u_path u @ ''?'' @ u_raw_query u)\<rparr>"

theorem redacted_url_noninterference_witness:
  "redactURL demo_lib ''https://tok:tok@h/p?k=s3cret#x'' = redactURL demo_lib ''https://u:u@h/p?k=1'' \<and>
   redactURL demo_lib ''https://u:u@h/p?k=1'' = ''https://REDACTED@h/p?k=REDACTED''"
proof -
  have "redactURL demo_lib ''https://tok:tok@h/p?k=s3cret#x'' = redactURL demo_lib ''https://u:u@h/p?k=1''"
    by (rule redacted_url_noninterference
          [where u = "demo_url ''tok'' ''k=s3cret'' ''x''" and v = "demo_url ''u'' ''k=1'' []"])
       (simp_all add: demo_lib_def same_public_def demo_url_def)
  then show ?thesis
    by (simp add: redactURL_def url_redacted_def redact_fields_eq demo_lib_def demo_url_def)
qed

end
