(* ===== verification/Schedule.thy ===== *)
theory Schedule
  imports Redaction
begin

text \<open>
  The retry loop every door runs (\<open>loop.go\<close>, lines 283 to 365): \<open>schedule.run\<close> with the two
  closures a door passes it as functions on the door's variables and the world. The locale
  \<open>loop_contract\<close> is the loop's interface: a door states what holds before an attempt, after a
  failed one, after its pause hook and when it is done, and gets what holds when the loop ends.
\<close>

section \<open>The loop\<close>

record schedule =
  attempts :: int
  baseDelay :: duration
  maxElapsed :: duration

type_synonym 's attempt_fn = "nat \<Rightarrow> 's \<times> world \<Rightarrow> (bool \<times> duration) \<times> 's \<times> world"
type_synonym 's pause_fn = "nat \<Rightarrow> duration \<Rightarrow> 's \<times> world \<Rightarrow> 's \<times> world"

definition resolveWait :: "duration \<Rightarrow> duration \<Rightarrow> world \<Rightarrow> duration \<times> world" where
  "resolveWait explicit backoff w =
     (if 0 <s explicit then (explicit, w) else JitteredBackoff backoff w)"

definition elapsedExceeded :: "schedule \<Rightarrow> duration \<Rightarrow> int \<Rightarrow> int \<Rightarrow> bool" where
  "elapsedExceeded s wait start now \<longleftrightarrow>
     0 <s maxElapsed s \<and> maxElapsed s - since now start \<le>s wait"

text \<open>
  The body of the \<open>for\<close> from attempt \<open>n\<close> on, with \<open>left\<close> attempts left: \<open>n = s.attempts - 1\<close> of the
  code is \<open>left\<close> being one. The result is \<open>exhausted\<close>, \<open>err\<close> and the door's state.
\<close>

fun run_loop ::
  "schedule \<Rightarrow> 's attempt_fn \<Rightarrow> 's pause_fn \<Rightarrow> int \<Rightarrow> nat \<Rightarrow> nat \<Rightarrow> duration \<Rightarrow> 's \<times> world
     \<Rightarrow> bool \<times> err option \<times> 's \<times> world" where
  "run_loop s att pau start 0 n backoff st = (True, None, st)"
| "run_loop s att pau start (Suc left) n backoff st =
     (let ((done, explicit), x, w) = att n st
      in if done then (False, None, x, w)
         else if left = 0 then (True, None, x, w)
         else
           (let (wait, w) = resolveWait explicit backoff w;
                (x, w) = pau (n + 1) wait (x, w)
            in if elapsedExceeded s wait start (clock w) then (False, Some ErrElapsed, x, w)
               else case SleepCtx wait w of
                      (Some e, w) \<Rightarrow> (False, Some e, x, w)
                    | (None, w) \<Rightarrow>
                        run_loop s att pau start left (n + 1) (SafeDouble backoff) (x, w)))"

definition run :: "schedule \<Rightarrow> 's attempt_fn \<Rightarrow> 's pause_fn \<Rightarrow> 's \<times> world \<Rightarrow> bool \<times> err option \<times> 's \<times> world" where
  "run s att pau st =
     run_loop s att pau (clock (snd st)) (nat (attempts s)) 0 (baseDelay s) st"

section \<open>Waits\<close>

text \<open>The waits the loop may choose before retry \<open>n + 1\<close>: an explicit positive one, else half to all
  of the base doubled \<open>n\<close> times.\<close>

definition wait_ok :: "duration \<Rightarrow> nat \<Rightarrow> duration \<Rightarrow> duration \<Rightarrow> bool" where
  "wait_ok base n explicit d \<longleftrightarrow>
     (if 0 < sint explicit then d = explicit
      else let b = sint ((SafeDouble ^^ n) base)
           in if b \<le> 0 then sint d = b else b div 2 \<le> sint d \<and> sint d \<le> b)"

lemma resolveWait_ok: "wait_ok base n e (fst (resolveWait e ((SafeDouble ^^ n) base) w))"
  using JitteredBackoff_bounds [of "(SafeDouble ^^ n) base" w]
  by (simp add: wait_ok_def resolveWait_def dur_simps Let_def JitteredBackoff_def)

lemma resolveWait_world: "snd (resolveWait e b w) \<in> {w, snd (draw w)}"
  by (simp add: resolveWait_def JitteredBackoff_world)

lemma SafeDouble_pos: "0 < sint d \<Longrightarrow> 0 < sint ((SafeDouble ^^ n) d)"
  by (simp add: sint_SafeDouble_pow)

text \<open>A base of one nanosecond is halved to a wait of zero; from two on a wait is positive.\<close>

lemma wait_ok_nonneg: "0 < sint base \<Longrightarrow> wait_ok base n e d \<Longrightarrow> 0 \<le> sint d"
  using SafeDouble_pos [of base n] by (auto simp: wait_ok_def Let_def split: if_splits)

definition within :: "schedule \<Rightarrow> int \<Rightarrow> int \<Rightarrow> bool" where
  "within s start t \<longleftrightarrow> sint (maxElapsed s) \<le> 0 \<or> t < start + sint (maxElapsed s)"

lemma not_exceeded:
  assumes "\<not> elapsedExceeded s d start now" and "start \<le> now" and "0 \<le> sint d"
  shows "sint (maxElapsed s) \<le> 0 \<or> now + sint d < start + sint (maxElapsed s)"
proof (cases "0 < sint (maxElapsed s)")
  case True
  have "sint (since now start) = min (now - start) 9223372036854775807"
    using assms(2) by (rule sint_since)
  moreover have "sint (maxElapsed s - since now start) = sint (maxElapsed s) - sint (since now start)"
    using True calculation assms(2) sint64_bounds [of "maxElapsed s"] by (intro sint_diff64) linarith+
  ultimately show ?thesis
    using assms True sint64_bounds [of "maxElapsed s"]
    by (auto simp: elapsedExceeded_def dur_simps min_def split: if_splits)
qed simp

lemma within_slept:
  assumes "0 \<le> sint d" and "\<not> elapsedExceeded s d start (clock w)" and "start \<le> clock w" and "SleepCtx d w = (None, w')"
  shows "within s start (clock w')"
proof -
  have "clock w' = clock w + sint d"
    using assms(1,4) SleepCtx_slept [of d w w'] SleepCtx_nonpos [of d w] by (cases "0 < sint d") auto
  then show ?thesis using not_exceeded [OF assms(2,3,1)] by (auto simp: within_def)
qed

text \<open>The ends of one round of the loop.\<close>

lemma run_loop_cases:
  obtains (judged) e x1 w1 where "att n (x, w) = ((True, e), x1, w1)"
      "run_loop s att pau start (Suc left) n b (x, w) = (False, None, x1, w1)"
    | (spent) e x1 w1 where "att n (x, w) = ((False, e), x1, w1)" "left = 0"
      "run_loop s att pau start (Suc left) n b (x, w) = (True, None, x1, w1)"
    | (stopped) e x1 w1 d w2 x3 w3 r w4 where "att n (x, w) = ((False, e), x1, w1)" "0 < left"
      "resolveWait e b w1 = (d, w2)" "pau (Suc n) d (x1, w2) = (x3, w3)"
      "elapsedExceeded s d start (clock w3) \<and> r = ErrElapsed \<and> w4 = w3 \<or>
       \<not> elapsedExceeded s d start (clock w3) \<and> SleepCtx d w3 = (Some r, w4)"
      "run_loop s att pau start (Suc left) n b (x, w) = (False, Some r, x3, w4)"
    | (again) e x1 w1 d w2 x3 w3 w4 where "att n (x, w) = ((False, e), x1, w1)" "0 < left"
      "resolveWait e b w1 = (d, w2)" "pau (Suc n) d (x1, w2) = (x3, w3)"
      "\<not> elapsedExceeded s d start (clock w3)" "SleepCtx d w3 = (None, w4)"
      "run_loop s att pau start (Suc left) n b (x, w) = run_loop s att pau start left (Suc n) (SafeDouble b) (x3, w4)"
proof -
  obtain dn e x1 w1 where a: "att n (x, w) = ((dn, e), x1, w1)" by (metis prod.exhaust)
  obtain d w2 where r: "resolveWait e b w1 = (d, w2)" by fastforce
  obtain x3 w3 where p: "pau (Suc n) d (x1, w2) = (x3, w3)" by fastforce
  obtain se w4 where sl: "SleepCtx d w3 = (se, w4)" by fastforce
  note def = run_loop.simps(2) [of s att pau start left n b "(x, w)", unfolded a Let_def prod.case]
  consider "dn" | "\<not> dn" "left = 0" | "\<not> dn" "0 < left" "elapsedExceeded s d start (clock w3)"
    | "\<not> dn" "0 < left" "\<not> elapsedExceeded s d start (clock w3)" by blast
  then show thesis
  proof cases
    case 1
    with a def show thesis by (intro judged) simp_all
  next
    case 2
    with a def show thesis by (intro spent) simp_all
  next
    case 3
    with a def r p show thesis by (intro stopped [of e x1 w1 d w2 x3 w3 ErrElapsed w3]) simp_all
  next
    case 4
    with a def r p sl show thesis
      by (cases se) (auto intro: again stopped simp del: run_loop.simps)
  qed
qed

section \<open>The contract of a door with the loop\<close>

text \<open>
  \<open>I n\<close> holds before attempt \<open>n\<close>, \<open>F n e\<close> after attempt \<open>n\<close> failed asking for the explicit wait
  \<open>e\<close>, \<open>P n\<close> after the pause hook that follows it, \<open>D n\<close> after attempt \<open>n\<close> was the last by its
  own verdict. The loop itself only draws jitter and sleeps.
\<close>

locale loop_contract =
  fixes s :: schedule
    and start :: int
    and att :: "'s attempt_fn"
    and pau :: "'s pause_fn"
    and I :: "nat \<Rightarrow> 's \<times> world \<Rightarrow> bool"
    and F :: "nat \<Rightarrow> duration \<Rightarrow> 's \<times> world \<Rightarrow> bool"
    and P :: "nat \<Rightarrow> 's \<times> world \<Rightarrow> bool"
    and D :: "nat \<Rightarrow> 's \<times> world \<Rightarrow> bool"
  assumes attempt_done: "I n st \<Longrightarrow> att n st = ((True, e), st') \<Longrightarrow> D n st'"
    and attempt_failed: "I n st \<Longrightarrow> att n st = ((False, e), st') \<Longrightarrow> F n e st'"
    and jittered: "F n e (x, w) \<Longrightarrow> F n e (x, snd (draw w))"
    and paused: "F n e st \<Longrightarrow> wait_ok (baseDelay s) n e d \<Longrightarrow> P n (pau (Suc n) d st)"
    and slept: "P n (x, w) \<Longrightarrow> SleepCtx d w = (None, w') \<Longrightarrow>
        (start \<le> clock w \<Longrightarrow> 0 < sint (baseDelay s) \<Longrightarrow> within s start (clock w')) \<Longrightarrow> I (Suc n) (x, w')"
begin

definition stopped :: "nat \<Rightarrow> err \<Rightarrow> 's \<times> world \<Rightarrow> bool" where
  "stopped m e st \<longleftrightarrow>
     (\<exists>x w d w'. P m (x, w) \<and> st = (x, w') \<and>
        (e = ErrElapsed \<and> w' = w \<and> 0 < sint (maxElapsed s) \<or> SleepCtx d w = (Some e, w')))"

definition ended :: "nat \<Rightarrow> bool \<times> err option \<times> 's \<times> world \<Rightarrow> bool" where
  "ended N r \<longleftrightarrow>
     (case r of
        (True, e, st) \<Rightarrow> e = None \<and> (\<exists>d. F (N - 1) d st)
      | (False, None, st) \<Rightarrow> (\<exists>m < N. D m st)
      | (False, Some e, st) \<Rightarrow> (\<exists>m < N - 1. stopped m e st))"

lemma loop_rule:
  assumes "I n st" and "0 < left" and "b = (SafeDouble ^^ n) (baseDelay s)"
  shows "ended (n + left) (run_loop s att pau start left n b st)"
  using assms
proof (induction left arbitrary: n b st)
  case (Suc left)
  obtain x w where st: "st = (x, w)" by fastforce
  have fail: "F n e (x1, w2)" if "att n (x, w) = ((False, e), x1, w1)" "resolveWait e b w1 = (d, w2)" for e x1 w1 d w2
    using attempt_failed [OF Suc.prems(1) [unfolded st] that(1)] jittered resolveWait_world [of e b w1] that(2) by auto
  have waited: "wait_ok (baseDelay s) n e d" if "resolveWait e b w1 = (d, w2)" for e w1 d w2
    using resolveWait_ok [of "baseDelay s" n e w1] that Suc.prems(3) by simp
  show ?case unfolding st
  proof (cases rule: run_loop_cases [of att n x w s pau start left b])
    case (judged e x1 w1)
    then show "ended (n + Suc left) (run_loop s att pau start (Suc left) n b (x, w))"
      using attempt_done [OF Suc.prems(1) [unfolded st]] by (auto simp: ended_def intro!: exI [of _ n])
  next
    case (spent e x1 w1)
    then show "ended (n + Suc left) (run_loop s att pau start (Suc left) n b (x, w))"
      using attempt_failed [OF Suc.prems(1) [unfolded st]] by (auto simp: ended_def)
  next
    case (stopped e x1 w1 d w2 x3 w3 r w4)
    then have "P n (x3, w3)" using paused [OF fail waited] by fastforce
    with stopped(5) have "local.stopped n r (x3, w4)"
      unfolding local.stopped_def by (auto simp: elapsedExceeded_def dur_simps)
    with stopped show "ended (n + Suc left) (run_loop s att pau start (Suc left) n b (x, w))"
      by (auto simp: ended_def intro!: exI [of _ n])
  next
    case (again e x1 w1 d w2 x3 w3 w4)
    then have p: "P n (x3, w3)" using paused [OF fail waited] by fastforce
    have "within s start (clock w4)" if "start \<le> clock w3" "0 < sint (baseDelay s)"
      using within_slept [OF wait_ok_nonneg [OF that(2) waited [OF again(3)]] again(5) that(1) again(6)] .
    then have "I (Suc n) (x3, w4)" using slept [OF p again(6)] by blast
    then have "ended (Suc n + left) (run_loop s att pau start left (Suc n) (SafeDouble b) (x3, w4))"
      using Suc.prems(3) again(2) by (intro Suc.IH) simp_all
    with again(7) show "ended (n + Suc left) (run_loop s att pau start (Suc left) n b (x, w))" by simp
  qed
qed simp

lemma run_rule:
  assumes "I 0 st" and "0 < attempts s" and "start = clock (snd st)"
  shows "ended (nat (attempts s)) (run s att pau st)"
  using loop_rule [of 0 st "nat (attempts s)" "baseDelay s"] assms by (simp add: run_def)

lemma run_exhausted:
  assumes "run s att pau st = (True, e, st')" and "I 0 st" and "0 < attempts s" and "start = clock (snd st)"
  shows "e = None \<and> (\<exists>d. F (nat (attempts s) - 1) d st')"
  using run_rule [OF assms(2-4)] assms(1) by (simp add: ended_def)

lemma run_done:
  assumes "run s att pau st = (False, None, st')" and "I 0 st" and "0 < attempts s" and "start = clock (snd st)"
  shows "\<exists>m < nat (attempts s). D m st'"
  using run_rule [OF assms(2-4)] assms(1) by (simp add: ended_def)

lemma run_stopped:
  assumes "run s att pau st = (False, Some e, st')" and "I 0 st" and "0 < attempts s" and "start = clock (snd st)"
  shows "\<exists>m < nat (attempts s) - 1. stopped m e st'"
  using run_rule [OF assms(2-4)] assms(1) by (simp add: ended_def)

end

text \<open>A predicate on the world that an attempt, the pause hook and the loop's own steps keep is a special case.\<close>

locale loop_invariant =
  fixes s :: schedule
    and att :: "'s attempt_fn"
    and pau :: "'s pause_fn"
    and J :: "world \<Rightarrow> bool"
  assumes kept_by_attempt: "J w \<Longrightarrow> att n (x, w) = (v, x', w') \<Longrightarrow> J w'"
    and kept_by_pause: "J w \<Longrightarrow> pau n d (x, w) = (x', w') \<Longrightarrow> J w'"
    and kept_by_draw: "J w \<Longrightarrow> J (snd (draw w))"
    and kept_by_sleep: "J w \<Longrightarrow> J (snd (SleepCtx d w))"

sublocale loop_invariant \<subseteq> loop_contract s start att pau
  "\<lambda>n (x, w). J w" "\<lambda>n e (x, w). J w" "\<lambda>n (x, w). J w" "\<lambda>n (x, w). J w" for start
proof (unfold_locales, goal_cases)
  case (5 n x w d w')
  then show ?case using kept_by_sleep [of w d] by simp
qed (auto intro: kept_by_attempt kept_by_pause kept_by_draw split: prod.splits)

context loop_invariant
begin

lemma run_keeps:
  assumes "run s att pau (x, w) = (ex, e, x', w')" and "J w"
  shows "J w'"
proof (cases "0 < attempts s")
  case True
  then have "ended (nat (attempts s)) (ex, e, x', w')"
    using run_rule [where start = "clock w" and st = "(x, w)"] assms by simp
  note ends = this [unfolded ended_def prod.case]
  show ?thesis
  proof (cases ex)
    case False
    show ?thesis
    proof (cases e)
      case (Some r)
      then obtain m where "stopped m r (x', w')" using ends False by auto
      then obtain w2 d where "J w2" "w' = w2 \<or> SleepCtx d w2 = (Some r, w')" unfolding stopped_def by auto
      then show ?thesis using kept_by_sleep [of w2 d] by auto
    qed (use ends False in auto)
  qed (use ends in auto)
qed (use assms in \<open>simp add: run_def\<close>)

end

section \<open>Two loops in step\<close>

text \<open>
  Two doors whose attempts and pauses answer alike, on states kept in a relation that says nothing
  on the clock, the context and the random source but that they are the same: their loops answer alike.
\<close>

locale loop_simulation =
  fixes s :: schedule
    and att :: "'s attempt_fn" and pau :: "'s pause_fn"
    and att' :: "'t attempt_fn" and pau' :: "'t pause_fn"
    and R :: "'s \<times> world \<Rightarrow> 't \<times> world \<Rightarrow> bool"
  assumes same_time: "R (x, w) (y, v) \<Longrightarrow> clock w = clock v \<and> caller w = caller v \<and> draws w = draws v \<and> drawn w = drawn v"
    and same_attempt: "R st tt \<Longrightarrow> fst (att n st) = fst (att' n tt) \<and> R (snd (att n st)) (snd (att' n tt))"
    and same_pause: "R st tt \<Longrightarrow> R (pau n d st) (pau' n d tt)"
    and later: "R (x, w) (y, v) \<Longrightarrow> R (x, w\<lparr>clock := t\<rparr>) (y, v\<lparr>clock := t\<rparr>)"
    and drew: "R (x, w) (y, v) \<Longrightarrow> R (x, w\<lparr>drawn := k\<rparr>) (y, v\<lparr>drawn := k\<rparr>)"
begin

lemma drawn_alike:
  assumes "R (x, w) (y, v)"
  shows "fst (resolveWait e b w) = fst (resolveWait e b v) \<and> R (x, snd (resolveWait e b w)) (y, snd (resolveWait e b v))"
  using same_time [OF assms] assms
  by (auto intro!: drew simp: resolveWait_def JitteredBackoff_def rand_N_def draw_def Let_def)

lemma slept_alike:
  assumes "R (x, w) (y, v)"
  shows "fst (SleepCtx d w) = fst (SleepCtx d v) \<and> R (x, snd (SleepCtx d w)) (y, snd (SleepCtx d v))"
  using same_time [OF assms] assms
  by (auto intro!: later drew simp: SleepCtx_def draw_def Let_def split: option.splits)

lemma loops_alike:
  assumes "R (x, w) (y, v)"
  shows "(case (run_loop s att pau start left n b (x, w), run_loop s att' pau' start left n b (y, v)) of
    ((ex, e, st), (ex', e', tt)) \<Rightarrow> ex = ex' \<and> e = e' \<and> R st tt)"
  using assms
proof (induction left arbitrary: n b x w y v)
  case (Suc left)
  obtain q y1 v1 where a': "att' n (y, v) = (q, y1, v1)" by (metis prod.exhaust)
  have a: "R (x1, w1) (y1, v1)" "q = z" if "att n (x, w) = (z, x1, w1)" for z x1 w1
    using same_attempt [OF Suc.prems, of n] that a' by auto
  have pre: "\<exists>v2 y3 v3. resolveWait e b v1 = (d, v2) \<and> pau' (Suc n) d (y1, v2) = (y3, v3) \<and> R (x3, w3) (y3, v3)"
    if "att n (x, w) = (z, x1, w1)" "resolveWait e b w1 = (d, w2)" "pau (Suc n) d (x1, w2) = (x3, w3)"
    for z e x1 w1 d w2 x3 w3
  proof -
    obtain d' v2 where r: "resolveWait e b v1 = (d', v2)" by fastforce
    obtain y3 v3 where p: "pau' (Suc n) d (y1, v2) = (y3, v3)" by fastforce
    have "d' = d \<and> R (x1, w2) (y1, v2)" using drawn_alike [OF a(1) [OF that(1)], of e b] that(2) r by simp
    with same_pause [of "(x1, w2)" "(y1, v2)" "Suc n" d] that(3) r p show ?thesis by simp
  qed
  show ?case
  proof (cases rule: run_loop_cases [of att n x w s pau start left b])
    case (judged e x1 w1)
    with a a' show ?thesis by simp
  next
    case (spent e x1 w1)
    with a a' show ?thesis by simp
  next
    case (stopped e x1 w1 d w2 x3 w3 r w4)
    obtain v2 y3 v3 where q: "resolveWait e b v1 = (d, v2)" "pau' (Suc n) d (y1, v2) = (y3, v3)" "R (x3, w3) (y3, v3)"
      using pre [OF stopped(1,3,4)] by blast
    then have "clock w3 = clock v3" using same_time by blast
    moreover obtain se v4 where "SleepCtx d v3 = (se, v4)" by fastforce
    ultimately show ?thesis
      using stopped q a [OF stopped(1)] a' slept_alike [OF q(3), of d]
      by (auto simp: Let_def)
  next
    case (again e x1 w1 d w2 x3 w3 w4)
    obtain v2 y3 v3 where q: "resolveWait e b v1 = (d, v2)" "pau' (Suc n) d (y1, v2) = (y3, v3)" "R (x3, w3) (y3, v3)"
      using pre [OF again(1,3,4)] by blast
    then have c: "clock w3 = clock v3" using same_time by blast
    obtain se v4 where sl: "SleepCtx d v3 = (se, v4)" by fastforce
    have "se = None" "R (x3, w4) (y3, v4)" using slept_alike [OF q(3), of d] again(6) sl by simp_all
    then show ?thesis
      using Suc.IH [of x3 w4 y3 v4 "Suc n" "SafeDouble b"] again q c sl a [OF again(1)] a'
      by (simp del: run_loop.simps(2) add: run_loop.simps(2) [of s att' pau'])
  qed
qed simp

lemma runs_alike:
  assumes "R (x, w) (y, v)"
  obtains ex e x1 w1 y1 v1 where "run s att pau (x, w) = (ex, e, x1, w1)" "run s att' pau' (y, v) = (ex, e, y1, v1)"
    "R (x1, w1) (y1, v1)"
proof -
  obtain ex e x1 w1 where r: "run s att pau (x, w) = (ex, e, x1, w1)" by (metis prod.exhaust)
  obtain ex' e' y1 v1 where r': "run s att' pau' (y, v) = (ex', e', y1, v1)" by (metis prod.exhaust)
  from loops_alike [OF assms, of "clock w" "nat (attempts s)" 0 "baseDelay s"] same_time [OF assms] r r' that
  show thesis by (simp add: run_def)
qed

end

section \<open>What the loop does, recorded\<close>

text \<open>A door run with a recorder beside its state: the clock reading at which each attempt began,
  with the explicit wait it asked for, and the retry number and wait of each call of the pause hook.\<close>

type_synonym record_state = "(int \<times> duration) list \<times> (nat \<times> duration) list"

definition rec_att :: "'s attempt_fn \<Rightarrow> (record_state \<times> 's) attempt_fn" where
  "rec_att att n st =
     (let (((ts, ws), x), w) = st; (r, x', w') = att n (x, w)
      in (r, ((ts @ [(clock w, snd r)], ws), x'), w'))"

definition rec_pau :: "'s pause_fn \<Rightarrow> (record_state \<times> 's) pause_fn" where
  "rec_pau pau n d st =
     (let (((ts, ws), x), w) = st; (x', w') = pau n d (x, w)
      in (((ts, ws @ [(n, d)]), x'), w'))"

text \<open>The recorder changes nothing of the run it records.\<close>

interpretation erasing: loop_simulation s "rec_att att" "rec_pau pau" att pau "\<lambda>((rc, x), w) (y, v). x = y \<and> w = v"
  for s att pau
proof (unfold_locales, goal_cases)
  case (2 st tt n)
  then show ?case by (auto simp: rec_att_def Let_def split: prod.splits)
next
  case (3 st tt n d)
  then show ?case by (auto simp: rec_pau_def Let_def split: prod.splits)
qed (auto split: prod.splits)

lemma erase_run:
  assumes "run s (rec_att att) (rec_pau pau) ((rc, x), w) = (ex, e, (rc', x'), w')"
  shows "run s att pau (x, w) = (ex, e, x', w')"
  by (rule erasing.runs_alike [of "(rc, x)" w x w s att pau]) (use assms in auto)

text \<open>The doors' closures let time move on only.\<close>

definition forward :: "'s attempt_fn \<Rightarrow> 's pause_fn \<Rightarrow> bool" where
  "forward att pau \<longleftrightarrow>
     (\<forall>n x w. clock w \<le> clock (snd (snd (att n (x, w))))) \<and>
     (\<forall>n d x w. clock w \<le> clock (snd (pau n d (x, w))))"

lemma forward_att: "forward att pau \<Longrightarrow> att n (x, w) = (r, x', w') \<Longrightarrow> clock w \<le> clock w'"
  unfolding forward_def by (metis snd_conv)

lemma forward_pau: "forward att pau \<Longrightarrow> pau n d (x, w) = (x', w') \<Longrightarrow> clock w \<le> clock w'"
  unfolding forward_def by (metis snd_conv)

definition waits_ok :: "duration \<Rightarrow> nat \<Rightarrow> record_state \<Rightarrow> bool" where
  "waits_ok base n rc \<longleftrightarrow>
     length (snd rc) = n \<and>
     (\<forall>i < n. fst (snd rc ! i) = Suc i \<and> wait_ok base i (snd (fst rc ! i)) (snd (snd rc ! i)))"

definition times_ok :: "schedule \<Rightarrow> int \<Rightarrow> record_state \<Rightarrow> bool" where
  "times_ok s start rc \<longleftrightarrow> (\<forall>t \<in> set (tl (fst rc)). within s start (fst t))"

lemma waits_ok_att: "waits_ok base n (ts, ws) \<Longrightarrow> length ts = n \<Longrightarrow> waits_ok base n (ts @ [t], ws)"
  by (simp add: waits_ok_def nth_append)

lemma waits_ok_pau:
  "waits_ok base n (ts, ws) \<Longrightarrow> wait_ok base n (snd (ts ! n)) d \<Longrightarrow> waits_ok base (Suc n) (ts, ws @ [(Suc n, d)])"
  by (auto simp: waits_ok_def nth_append less_Suc_eq)

lemma times_ok_snoc:
  "times_ok s start (ts, ws) \<Longrightarrow> (ts \<noteq> [] \<longrightarrow> within s start (fst t)) \<Longrightarrow> times_ok s start (ts @ [t], ws)"
  by (cases ts) (auto simp: times_ok_def)

lemma times_ok_pau [simp]: "times_ok s start (ts, ws @ ws') = times_ok s start (ts, ws)"
  by (simp add: times_ok_def)

lemma waits_ok_0 [simp]: "waits_ok base 0 (ts, ws) \<longleftrightarrow> ws = []"
  by (simp add: waits_ok_def)

lemma times_ok_first [simp]: "times_ok s start ([], ws)" "times_ok s start ([t], ws)"
  by (simp_all add: times_ok_def)

interpretation recording: loop_contract s start "rec_att att" "rec_pau pau"
  "\<lambda>n (((ts, ws), x), w). length ts = n \<and> waits_ok (baseDelay s) n (ts, ws) \<and>
      (forward att pau \<and> 0 < sint (baseDelay s) \<and> start \<le> t0 \<longrightarrow>
         start \<le> clock w \<and> times_ok s start (ts, ws) \<and> (0 < n \<longrightarrow> within s start (clock w)))"
  "\<lambda>n e (((ts, ws), x), w). length ts = Suc n \<and> waits_ok (baseDelay s) n (ts, ws) \<and> snd (ts ! n) = e \<and>
      (forward att pau \<and> 0 < sint (baseDelay s) \<and> start \<le> t0 \<longrightarrow>
         start \<le> clock w \<and> times_ok s start (ts, ws))"
  "\<lambda>n (((ts, ws), x), w). length ts = Suc n \<and> waits_ok (baseDelay s) (Suc n) (ts, ws) \<and>
      (forward att pau \<and> 0 < sint (baseDelay s) \<and> start \<le> t0 \<longrightarrow>
         start \<le> clock w \<and> times_ok s start (ts, ws))"
  "\<lambda>n (((ts, ws), x), w). length ts = Suc n \<and> waits_ok (baseDelay s) n (ts, ws) \<and>
      (forward att pau \<and> 0 < sint (baseDelay s) \<and> start \<le> t0 \<longrightarrow>
         start \<le> clock w \<and> times_ok s start (ts, ws))"
  for s start att pau t0
proof (unfold_locales, goal_cases)
  case (1 n st e st')
  then show ?case
    by (auto simp: rec_att_def waits_ok_att times_ok_snoc intro: order_trans dest: forward_att split: prod.splits)
next
  case (2 n st e st')
  then show ?case
    by (auto simp: rec_att_def waits_ok_att times_ok_snoc intro: order_trans dest: forward_att split: prod.splits)
next
  case (3 n e x w)
  then show ?case by (simp add: case_prod_beta world_simps)
next
  case (4 n e st d)
  then show ?case
    by (auto simp: rec_pau_def waits_ok_pau intro: order_trans dest: forward_pau split: prod.splits)
next
  case (5 n x w d w')
  then show ?case
    using SleepCtx_clock(1) [of w d] by (auto split: prod.splits)
qed

definition record_end :: "schedule \<Rightarrow> int \<Rightarrow> bool \<Rightarrow> bool \<Rightarrow> err option \<Rightarrow> record_state \<Rightarrow> world \<Rightarrow> bool" where
  "record_end s start tight ex e rc w =
     (let (ts, ws) = rc; n = nat (attempts s)
      in 0 < length ts \<and> length ts \<le> n \<and> waits_ok (baseDelay s) (length ws) rc \<and>
         (tight \<longrightarrow> (\<forall>t \<in> set (tl ts). within s start (fst t))) \<and>
         (case e of
            None \<Rightarrow> length ws = length ts - 1 \<and> (ex \<longrightarrow> length ts = n)
          | Some r \<Rightarrow> \<not> ex \<and> length ws = length ts \<and> length ts < n \<and>
              (r = ErrElapsed \<and> 0 < sint (maxElapsed s) \<or> ctx_err w = Some r)))"

lemma recorded_end:
  assumes "run s (rec_att att) (rec_pau pau) ((([], []), x), w) = (ex, e, ((ts, ws), x'), w')"
    and "0 < attempts s"
  shows "record_end s (clock w) (forward att pau \<and> 0 < sint (baseDelay s)) ex e (ts, ws) w'"
proof -
  have "recording.ended s att pau (clock w) (clock w) (nat (attempts s)) (ex, e, ((ts, ws), x'), w')"
    unfolding assms(1) [symmetric]
    by (rule recording.run_rule) (simp_all add: assms(2) waits_ok_def times_ok_def)
  note e = this [unfolded recording.ended_def recording.stopped_def]
  show ?thesis
  proof (cases e)
    case None
    with e assms(2) show ?thesis
      by (cases ex) (auto simp: record_end_def times_ok_def waits_ok_def Let_def)
  next
    case (Some r)
    then have "\<not> ex" using e by (auto split: bool.splits)
    with e Some show ?thesis
      by (auto simp: record_end_def times_ok_def waits_ok_def Let_def dest!: SleepCtx_stopped)
  qed
qed

section \<open>Properties\<close>

text \<open>
  C29: However a door judges its attempts, \<open>schedule.run\<close> makes at most \<open>attempts\<close> of them, and
  none only when the budget is not positive. It reports exhaustion exactly after the whole budget
  is spent without a verdict; it sleeps a wait and calls the pause hook between two attempts, with
  retry numbers 1, 2, ... in order; before retry \<open>i\<close> it waits what the attempt before asked for
  when that is positive, and otherwise between half and all of the base delay doubled \<open>i - 1\<close>
  times; and it stops early only with \<open>errElapsed\<close> under a ceiling, or with the error of a caller's
  context that has ended. The recorder beside the door's variables changes none of it.
\<close>

theorem schedule_budget:
  "case run s (rec_att att) (rec_pau pau) ((([], []), x), w) of
     (ex, e, ((ts, ws), x'), w') \<Rightarrow>
       run s att pau (x, w) = (ex, e, x', w') \<and>
       length ts \<le> nat (attempts s) \<and> (ts = [] \<longleftrightarrow> attempts s \<le> 0) \<and>
       (ex \<longrightarrow> e = None \<and> length ts = nat (attempts s)) \<and>
       length ws = (if e = None then length ts - 1 else length ts) \<and>
       map fst ws = [1 ..< length ws + 1] \<and>
       (\<forall>i < length ws. wait_ok (baseDelay s) i (snd (ts ! i)) (snd (ws ! i))) \<and>
       (\<forall>r. e = Some r \<longrightarrow> length ts < nat (attempts s) \<and>
          (r = ErrElapsed \<and> 0 < sint (maxElapsed s) \<or> ctx_err w' = Some r))"
proof -
  obtain ex e ts ws x' w' where r:
    "run s (rec_att att) (rec_pau pau) ((([], []), x), w) = (ex, e, ((ts, ws), x'), w')"
    by (metis prod.exhaust)
  then have er: "run s att pau (x, w) = (ex, e, x', w')" by (rule erase_run)
  show ?thesis
  proof (cases "0 < attempts s")
    case True
    have n: "map fst ws = [1 ..< length ws + 1]" if "waits_ok (baseDelay s) (length ws) (ts, ws)"
      using that by (intro nth_equalityI) (auto simp: waits_ok_def simp del: upt_Suc)
    from recorded_end [OF r True] n er True r show ?thesis
      by (auto simp: record_end_def waits_ok_def Let_def split: option.splits)
  next
    case False
    with r er show ?thesis by (auto simp: run_def)
  qed
qed

text \<open>
  C30: Under a positive \<open>maxElapsed\<close> no attempt after the first begins at or past that much time
  after the start of the schedule, whatever the attempts themselves take: the loop stops with
  \<open>errElapsed\<close> rather than begin a sleep that would end there.
\<close>

theorem elapsed_ceiling:
  assumes "forward att pau" and "0 < sint (baseDelay s)" and "0 < sint (maxElapsed s)"
  shows "case run s (rec_att att) (rec_pau pau) ((([], []), x), w) of
     (ex, e, ((ts, ws), x'), w') \<Rightarrow>
       (\<forall>t \<in> set (tl ts). fst t < clock w + sint (maxElapsed s))"
proof (cases "0 < attempts s")
  case True
  obtain ex e ts ws x' w' where r:
    "run s (rec_att att) (rec_pau pau) ((([], []), x), w) = (ex, e, ((ts, ws), x'), w')"
    by (metis prod.exhaust)
  from recorded_end [OF r True] assms show ?thesis
    by (simp add: r record_end_def within_def Let_def)
qed (simp add: run_def)

definition slow_attempt :: "unit attempt_fn" where
  "slow_attempt n st = (case st of (x, w) \<Rightarrow> ((False, 0), x, w\<lparr>clock := clock w + 400\<rparr>))"

definition idle_pause :: "unit pause_fn" where
  "idle_pause n d st = st"

theorem schedule_budget_witness:
  "case run \<lparr>attempts = 3, baseDelay = 100, maxElapsed = 0\<rparr> (rec_att slow_attempt) (rec_pau idle_pause) ((([], []), ()), world0) of
     (ex, e, ((ts, ws), x'), w') \<Rightarrow>
       ex \<and> e = None \<and> length ts = 3 \<and> map fst ws = [1, 2] \<and>
       wait_ok 100 0 (snd (ts ! 0)) (snd (ws ! 0)) \<and> wait_ok 100 1 (snd (ts ! 1)) (snd (ws ! 1))"
proof -
  let ?s = "\<lparr>attempts = 3, baseDelay = 100, maxElapsed = 0\<rparr>"
  obtain ex e ts ws x' w' where
    r: "run ?s (rec_att slow_attempt) (rec_pau idle_pause) ((([], []), ()), world0) = (ex, e, ((ts, ws), x'), w')"
    by (metis prod.exhaust)
  have "fst (run ?s (rec_att slow_attempt) (rec_pau idle_pause) ((([], []), ()), world0))" by code_simp
  then have "ex" by (simp add: r)
  then show ?thesis
    using schedule_budget [where s = ?s and att = slow_attempt and pau = idle_pause and x = "()" and w = world0]
    by (simp add: r numeral_2_eq_2 numeral_3_eq_3)
qed

theorem elapsed_ceiling_witness:
  "(case run \<lparr>attempts = 5, baseDelay = 100, maxElapsed = 1000\<rparr> slow_attempt idle_pause ((), world0) of
      (ex, e, x, w) \<Rightarrow> (ex, e, clock w)) = (False, Some ErrElapsed, 1350) \<and>
   (case run \<lparr>attempts = 5, baseDelay = 100, maxElapsed = 1000\<rparr> (rec_att slow_attempt) (rec_pau idle_pause)
        ((([], []), ()), world0) of
     (ex, e, ((ts, ws), x'), w') \<Rightarrow> (\<forall>t \<in> set (tl ts). fst t < clock world0 + 1000))"
  (is "?a \<and> ?b")
proof
  show ?a by code_simp
  show ?b
    using elapsed_ceiling [where att = slow_attempt and pau = idle_pause and x = "()" and w = world0
        and s = "\<lparr>attempts = 5, baseDelay = 100, maxElapsed = 1000\<rparr>"]
    by (simp add: forward_def slow_attempt_def idle_pause_def)
qed

end
