(* ===== verification/RetryLoop.thy ===== *)
theory RetryLoop
  imports Schedule
begin

text \<open>
  The loop door \<open>Do\<close> and the options both loop doors share (\<open>loop.go\<close>, lines 42 to 508): the
  settings and their defaults, how an attempt runs under its own time bound, which errors are
  retried with which wait, and \<open>Do\<close> itself over \<open>schedule.run\<close>.

  The caller's function is a parameter: it takes the context of the attempt and the world, and
  returns a value, an error and the world it left.
\<close>

section \<open>Settings\<close>

abbreviation DefaultMaxAttempts :: int where "DefaultMaxAttempts \<equiv> 3"
abbreviation DefaultBaseDelay :: duration where "DefaultBaseDelay \<equiv> second"

datatype rlMode = RlNone | RlRetry | RlOnly

record loopConfig =
  cfg_logger :: "nat option"
  cfg_label :: string
  cfg_baseDelay :: duration
  cfg_rlMaxWait :: duration
  cfg_attemptTimeout :: duration
  cfg_maxAttempts :: int
  cfg_exhaustedLvl :: int
  cfg_exhaustedLvlOn :: bool
  cfg_rlMode :: rlMode
  cfg_rlConflict :: bool

text \<open>Options that are \<open>Option\<close> values, and the options of \<open>Do\<close>.\<close>

datatype http_option =
    WithMaxAttempts int
  | WithBaseDelay duration
  | WithLogger "nat option"
  | WithExhaustedLevel int

datatype do_option =
    DoBoth http_option
  | WithLabel string
  | WithAttemptTimeout duration
  | WithRateLimitRetry duration
  | WithRateLimitOnly duration

fun apply_option :: "http_option \<Rightarrow> 'z loopConfig_scheme \<Rightarrow> 'z loopConfig_scheme" where
  "apply_option (WithMaxAttempts n) c = c\<lparr>cfg_maxAttempts := n\<rparr>"
| "apply_option (WithBaseDelay d) c = c\<lparr>cfg_baseDelay := d\<rparr>"
| "apply_option (WithLogger l) c = c\<lparr>cfg_logger := l\<rparr>"
| "apply_option (WithExhaustedLevel l) c = c\<lparr>cfg_exhaustedLvl := l, cfg_exhaustedLvlOn := True\<rparr>"

definition rateLimit_applyDo :: "duration \<Rightarrow> rlMode \<Rightarrow> 'z loopConfig_scheme \<Rightarrow> 'z loopConfig_scheme" where
  "rateLimit_applyDo maxWait mode c =
     (let c = (if cfg_rlMode c \<noteq> RlNone \<and> cfg_rlMode c \<noteq> mode then c\<lparr>cfg_rlConflict := True\<rparr> else c)
      in c\<lparr>cfg_rlMode := mode, cfg_rlMaxWait := maxWait\<rparr>)"

fun applyDo :: "do_option \<Rightarrow> 'z loopConfig_scheme \<Rightarrow> 'z loopConfig_scheme" where
  "applyDo (DoBoth opt) c = apply_option opt c"
| "applyDo (WithLabel s) c = c\<lparr>cfg_label := s\<rparr>"
| "applyDo (WithAttemptTimeout d) c = c\<lparr>cfg_attemptTimeout := d\<rparr>"
| "applyDo (WithRateLimitRetry maxWait) c = rateLimit_applyDo maxWait RlRetry c"
| "applyDo (WithRateLimitOnly maxWait) c = rateLimit_applyDo maxWait RlOnly c"

definition normalize :: "'z loopConfig_scheme \<Rightarrow> 'z loopConfig_scheme" where
  "normalize c =
     (let c = (if cfg_maxAttempts c < 1 then c\<lparr>cfg_maxAttempts := 1\<rparr> else c);
          c = (if cfg_baseDelay c \<le>s 0 then c\<lparr>cfg_baseDelay := DefaultBaseDelay\<rparr> else c);
          c = (if cfg_logger c = None then c\<lparr>cfg_logger := Some default_logger\<rparr> else c);
          c = (if cfg_label c = [] then c\<lparr>cfg_label := ''operation''\<rparr> else c)
      in if cfg_rlMode c \<noteq> RlNone \<and> cfg_rlMaxWait c \<le>s 0 then c\<lparr>cfg_rlMaxWait := RetryAfterCap\<rparr>
         else c)"

text \<open>The zero value of the struct, with the budget both constructors set.\<close>

definition zeroConfig :: loopConfig where
  "zeroConfig = \<lparr>cfg_logger = None, cfg_label = [], cfg_baseDelay = 0, cfg_rlMaxWait = 0,
     cfg_attemptTimeout = 0, cfg_maxAttempts = DefaultMaxAttempts, cfg_exhaustedLvl = 0,
     cfg_exhaustedLvlOn = False, cfg_rlMode = RlNone, cfg_rlConflict = False\<rparr>"

text \<open>A nil option is \<open>None\<close>.\<close>

definition newLoopConfig :: "do_option option list \<Rightarrow> loopConfig" where
  "newLoopConfig opts =
     normalize (fold (\<lambda>opt c. case opt of None \<Rightarrow> c | Some opt \<Rightarrow> applyDo opt c) opts zeroConfig)"

definition loop_schedule :: "'z loopConfig_scheme \<Rightarrow> schedule" where
  "loop_schedule c = \<lparr>attempts = cfg_maxAttempts c, baseDelay = cfg_baseDelay c, maxElapsed = 0\<rparr>"

text \<open>A call on the configured logger; \<open>normalize\<close> has made it non-nil.\<close>

definition cfg_log :: "'z loopConfig_scheme \<Rightarrow> int \<Rightarrow> string \<Rightarrow> (string \<times> attr) list \<Rightarrow> world \<Rightarrow> world" where
  "cfg_log c lv m as w = log (the (cfg_logger c)) lv m as w"

section \<open>One attempt\<close>

definition logRetrySuccess :: "'z loopConfig_scheme \<Rightarrow> nat \<Rightarrow> world \<Rightarrow> world" where
  "logRetrySuccess c attempt w =
     (if attempt > 0
      then cfg_log c LevelDebug (cfg_label c @ '' succeeded after retry'') [(''attempts'', AInt (int attempt + 1))] w
      else w)"

definition retryAfterHintWait :: "err option \<Rightarrow> duration" where
  "retryAfterHintWait err = (case errors_as hint_method err of Some h \<Rightarrow> h | None \<Rightarrow> 0)"

type_synonym 'a callback = "go_context \<Rightarrow> world \<Rightarrow> ('a \<times> err option) \<times> world"

definition markAttemptTimeout :: "err option \<Rightarrow> err option \<Rightarrow> err option \<Rightarrow> err option" where
  "markAttemptTimeout ctxErr attemptErr err =
     (if ctxErr \<noteq> None \<or> attemptErr = None \<or> \<not> errors_is err DeadlineExceeded then err
      else AttemptTimeout err)"

text \<open>
  The attempt context follows the caller's, so its state after the call is read off the caller's
  context as the call left it, under the same deadline.
\<close>

definition runAttempt :: "'z loopConfig_scheme \<Rightarrow> 'a callback \<Rightarrow> world \<Rightarrow> ('a \<times> err option) \<times> world" where
  "runAttempt c fn w =
     (if cfg_attemptTimeout c \<le>s 0 then fn (caller w) w
      else
        (let t = clock w + sint (cfg_attemptTimeout c);
             ((result, err), w') = fn (with_deadline (caller w) t) w
         in ((result, markAttemptTimeout (ctx_err w') (c_err (with_deadline (caller w') t) (clock w')) err), w')))"

definition classify :: "'z loopConfig_scheme \<Rightarrow> err option \<Rightarrow> bool \<times> duration" where
  "classify c err =
     (let general = (if \<not> IsTransient err then (False, 0) else (True, retryAfterHintWait err))
      in if cfg_rlMode c \<noteq> RlNone
         then case errors_as as_rate_limit err of
                Some retryAfter \<Rightarrow>
                  (True, if 0 <s retryAfter then smin retryAfter (cfg_rlMaxWait c) else cfg_rlMaxWait c)
              | None \<Rightarrow> if cfg_rlMode c = RlOnly then (False, 0) else general
         else general)"

definition exhaustedMsg :: "'z loopConfig_scheme \<Rightarrow> string" where
  "exhaustedMsg c =
     (if cfg_rlMode c = RlOnly then ''rate limit retries exhausted'' else cfg_label c @ '' retries exhausted'')"

definition exhaustedLevel :: "'z loopConfig_scheme \<Rightarrow> int" where
  "exhaustedLevel c =
     (if cfg_exhaustedLvlOn c then cfg_exhaustedLvl c
      else if cfg_maxAttempts c > 1 then LevelWarn else LevelDebug)"

section \<open>Do\<close>

text \<open>The closures of \<open>Do\<close>, on its variables \<open>result\<close> and \<open>err\<close>.\<close>

definition do_attempt :: "'z loopConfig_scheme \<Rightarrow> 'a callback \<Rightarrow> ('a \<times> err option) attempt_fn" where
  "do_attempt c fn n st =
     (let ((result, err), w) = runAttempt c fn (snd st)
      in if err = None then ((True, 0), (result, err), logRetrySuccess c n w)
         else if cfg_rlMode c \<noteq> RlOnly \<and> ctx_err w \<noteq> None then ((True, 0), (result, ctx_err w), w)
         else (let (retryable, wait) = classify c err in ((\<not> retryable, wait), (result, err), w)))"

definition do_pause :: "'z loopConfig_scheme \<Rightarrow> ('a \<times> err option) pause_fn" where
  "do_pause c retry wait st =
     (let ((result, err), w) = st
      in ((result, err),
          cfg_log c LevelDebug (cfg_label c @ '' failed, retrying'')
            [(''attempt'', AInt (int retry)), (''max'', AInt (cfg_maxAttempts c)),
             (''delay'', AStr (duration_string wait)), (''error'', AErr (LogSafeError err))] w))"

definition conflict_err :: err where
  "conflict_err = NewError ''httpx: WithRateLimitRetry and WithRateLimitOnly are mutually exclusive''"

definition Do :: "'a \<Rightarrow> 'a callback \<Rightarrow> do_option option list \<Rightarrow> world \<Rightarrow> ('a \<times> err option) \<times> world" where
  "Do zero fn opts w =
     (let cfg = newLoopConfig opts
      in if cfg_rlConflict cfg then ((zero, Some conflict_err), w)
         else
           (let (exhausted, stopErr, (result, err), w) =
                  run (loop_schedule cfg) (do_attempt cfg fn) (do_pause cfg) ((zero, None), w)
            in if stopErr \<noteq> None then ((zero, stopErr), w)
               else if err = None then ((result, None), w)
               else if exhausted
                    then ((zero, err),
                          cfg_log cfg (exhaustedLevel cfg) (exhaustedMsg cfg)
                            [(''attempts'', AInt (cfg_maxAttempts cfg)), (''error'', AErr (LogSafeError err))] w)
                    else ((zero, err), w)))"

section \<open>Lemmas on the settings\<close>

lemma normalize_fields [simp]:
  "cfg_maxAttempts (normalize c) = max 1 (cfg_maxAttempts c)"
  "cfg_rlMode (normalize c) = cfg_rlMode c" "cfg_rlConflict (normalize c) = cfg_rlConflict c"
  "cfg_attemptTimeout (normalize c) = cfg_attemptTimeout c"
  "cfg_logger (normalize c) \<noteq> None"
  "cfg_exhaustedLvl (normalize c) = cfg_exhaustedLvl c"
  "cfg_exhaustedLvlOn (normalize c) = cfg_exhaustedLvlOn c"
  by (simp_all add: normalize_def Let_def max_def)

lemma normalize_delays:
  "0 < sint (cfg_baseDelay (normalize c))"
  "cfg_rlMode c = RlNone \<or> 0 < sint (cfg_rlMaxWait (normalize c))"
  by (simp_all add: normalize_def Let_def dur_simps not_less)

lemma loop_schedule_fields [simp]:
  "attempts (loop_schedule c) = cfg_maxAttempts c" "baseDelay (loop_schedule c) = cfg_baseDelay c"
  "maxElapsed (loop_schedule c) = 0"
  by (simp_all add: loop_schedule_def)

section \<open>What Do keeps while it loops\<close>

text \<open>A callback seen from outside: one that leaves a mark at each call, and one that logs nothing.\<close>

definition counts :: "'a callback \<Rightarrow> bool" where
  "counts fn \<longleftrightarrow> (\<forall>c w. outside (snd (fn c w)) = Suc (outside w))"

definition quiet :: "'a callback \<Rightarrow> bool" where
  "quiet fn \<longleftrightarrow> (\<forall>c w. logged (snd (fn c w)) = logged w)"

definition clean_attr :: "attr \<Rightarrow> bool" where
  "clean_attr a = (case a of AErr e \<Rightarrow> errors_as as_url_error e = None | _ \<Rightarrow> True)"

text \<open>A line with its level and message, that carries no \<open>url.Error\<close>.\<close>

definition is_line :: "int \<Rightarrow> string \<Rightarrow> log_line \<Rightarrow> bool" where
  "is_line lv m l \<longleftrightarrow> ll_level l = lv \<and> ll_msg l = m \<and> list_all (clean_attr \<circ> snd) (ll_attrs l)"

definition logged_since :: "log_line list \<Rightarrow> nat \<Rightarrow> string \<Rightarrow> world \<Rightarrow> bool" where
  "logged_since old n m w \<longleftrightarrow>
     (\<exists>new. logged w = old @ new \<and> length new = n \<and> list_all (is_line LevelDebug m) new)"

definition produced :: "'z loopConfig_scheme \<Rightarrow> 'a callback \<Rightarrow> 'a \<Rightarrow> err option \<Rightarrow> bool" where
  "produced c fn r e \<longleftrightarrow> (\<exists>w0 w1. runAttempt c fn w0 = ((r, e), w1))"

lemma runAttempt_counts: "counts fn \<Longrightarrow> runAttempt c fn w = (r, w') \<Longrightarrow> outside w' = Suc (outside w)"
  unfolding counts_def runAttempt_def Let_def
  by (auto split: if_splits prod.splits) (metis snd_conv)+

lemma runAttempt_quiet: "quiet fn \<Longrightarrow> runAttempt c fn w = (r, w') \<Longrightarrow> logged w' = logged w"
  unfolding quiet_def runAttempt_def Let_def
  by (auto split: if_splits prod.splits) (metis snd_conv)+

lemma clean_LogSafe [simp]: "clean_attr (AErr (LogSafeError e))"
  by (cases e) (simp_all add: clean_attr_def reduceURLErrors_clean)

lemma clean_plain [simp]: "clean_attr (AInt i)" "clean_attr (AStr s)"
  by (simp_all add: clean_attr_def)

lemma logged_since_log:
  "logged_since old n m w \<Longrightarrow> list_all (clean_attr \<circ> snd) as \<Longrightarrow> logged_since old (Suc n) m (cfg_log c LevelDebug m as w)"
  by (fastforce simp: logged_since_def cfg_log_def log_def is_line_def)

lemma cfg_log_fields [world_simps]:
  "clock (cfg_log c lv m as w) = clock w" "caller (cfg_log c lv m as w) = caller w"
  "bodies (cfg_log c lv m as w) = bodies w" "ctx_err (cfg_log c lv m as w) = ctx_err w"
  "outside (cfg_log c lv m as w) = outside w"
  by (simp_all add: cfg_log_def world_simps)

lemma logRetrySuccess_fields [world_simps]:
  "clock (logRetrySuccess c n w) = clock w" "caller (logRetrySuccess c n w) = caller w"
  "bodies (logRetrySuccess c n w) = bodies w" "ctx_err (logRetrySuccess c n w) = ctx_err w"
  "outside (logRetrySuccess c n w) = outside w"
  by (simp_all add: logRetrySuccess_def world_simps)

text \<open>The verdicts of one attempt.\<close>

lemma do_attempt_cases:
  assumes "do_attempt c fn n (x, w) = ((dn, wait), (r, e), w')"
  obtains (success) w1 where "runAttempt c fn w = ((r, None), w1)" "e = None" "dn"
      "w' = logRetrySuccess c n w1"
    | (ended) e0 f where "runAttempt c fn w = ((r, Some e0), w')" "cfg_rlMode c \<noteq> RlOnly"
      "e = Some f" "ctx_err w' = Some f" "dn"
    | (judged) e0 where "runAttempt c fn w = ((r, Some e0), w')" "e = Some e0"
      "cfg_rlMode c = RlOnly \<or> ctx_err w' = None" "classify c e = (\<not> dn, wait)"
  using assms
  by (auto simp: do_attempt_def Let_def split: prod.splits if_splits) metis

definition retry_msg :: "'z loopConfig_scheme \<Rightarrow> string" where
  "retry_msg c = cfg_label c @ '' failed, retrying''"

definition do_trace :: "'z loopConfig_scheme \<Rightarrow> 'a callback \<Rightarrow> world \<Rightarrow> nat \<Rightarrow> nat \<Rightarrow> world \<Rightarrow> bool" where
  "do_trace c fn w0 calls lines w \<longleftrightarrow>
     (counts fn \<longrightarrow> outside w = outside w0 + calls) \<and>
     (quiet fn \<longrightarrow> logged_since (logged w0) lines (retry_msg c) w)"

definition do_failed :: "'z loopConfig_scheme \<Rightarrow> 'a callback \<Rightarrow> 'a \<Rightarrow> err option \<Rightarrow> bool" where
  "do_failed c fn r e \<longleftrightarrow> e \<noteq> None \<and> produced c fn r e \<and> fst (classify c e)"

definition do_verdict :: "'z loopConfig_scheme \<Rightarrow> 'a callback \<Rightarrow> 'a \<Rightarrow> err option \<Rightarrow> world \<Rightarrow> bool" where
  "do_verdict c fn r e w \<longleftrightarrow>
     produced c fn r e \<and> (e = None \<or> \<not> fst (classify c e)) \<or>
     e \<noteq> None \<and> cfg_rlMode c \<noteq> RlOnly \<and> ctx_err w = e"

lemma do_trace_frame:
  "do_trace c fn w0 k l w \<Longrightarrow> outside w' = outside w \<Longrightarrow> logged w' = logged w \<Longrightarrow> do_trace c fn w0 k l w'"
  by (simp add: do_trace_def logged_since_def)

lemma do_trace_attempt:
  "do_trace c fn w0 k l w \<Longrightarrow> runAttempt c fn w = (r, w') \<Longrightarrow> do_trace c fn w0 (Suc k) l w'"
  by (auto simp: do_trace_def logged_since_def dest: runAttempt_counts runAttempt_quiet)

interpretation doing: loop_contract "loop_schedule c" start "do_attempt c fn" "do_pause c"
  "\<lambda>n ((r, e), w). do_trace c fn w0 n n w"
  "\<lambda>n x ((r, e), w). do_trace c fn w0 (Suc n) n w \<and> do_failed c fn r e \<and> x = snd (classify c e) \<and>
      (cfg_rlMode c \<noteq> RlOnly \<longrightarrow> ctx_err w = None)"
  "\<lambda>n ((r, e), w). do_trace c fn w0 (Suc n) (Suc n) w \<and> do_failed c fn r e"
  "\<lambda>n ((r, e), w). do_verdict c fn r e w \<and>
      (\<exists>w1. do_trace c fn w0 (Suc n) n w1 \<and> w = (if e = None then logRetrySuccess c n w1 else w1))"
  for c start fn w0
proof (unfold_locales, goal_cases)
  case (1 n st x st')
  then show ?case
    by (cases st; cases st')
       (auto elim!: do_attempt_cases intro!: do_trace_attempt
         simp: do_verdict_def produced_def world_simps; blast?)
next
  case (2 n st x st')
  then show ?case
    by (cases st; cases st')
       (auto elim!: do_attempt_cases intro!: do_trace_attempt simp: do_failed_def produced_def)
next
  case (3 n e x w)
  then show ?case by (auto simp: world_simps intro: do_trace_frame split: prod.splits)
next
  case (4 n e st d)
  then show ?case
    by (auto simp: do_pause_def do_trace_def world_simps logged_since_log retry_msg_def split: prod.splits)
next
  case (5 n x w d w')
  then show ?case
    using SleepCtx_frame [of d w] by (auto intro: do_trace_frame split: prod.splits)
qed


section \<open>How Do ends\<close>

lemma Do_unfold:
  assumes "\<not> cfg_rlConflict (newLoopConfig opts)"
  obtains ex se r e w1 where
    "run (loop_schedule (newLoopConfig opts)) (do_attempt (newLoopConfig opts) fn)
       (do_pause (newLoopConfig opts)) ((zero, None), w) = (ex, se, (r, e), w1)"
    "Do zero fn opts w =
       (if se \<noteq> None then ((zero, se), w1)
        else if e = None then ((r, None), w1)
        else if ex then ((zero, e), cfg_log (newLoopConfig opts) (exhaustedLevel (newLoopConfig opts))
               (exhaustedMsg (newLoopConfig opts))
               [(''attempts'', AInt (cfg_maxAttempts (newLoopConfig opts))), (''error'', AErr (LogSafeError e))] w1)
        else ((zero, e), w1))"
proof -
  obtain ex se r e w1 where
    "run (loop_schedule (newLoopConfig opts)) (do_attempt (newLoopConfig opts) fn)
       (do_pause (newLoopConfig opts)) ((zero, None), w) = (ex, se, (r, e), w1)"
    by (metis prod.exhaust)
  with that assms show thesis by (simp add: Do_def Let_def)
qed

lemma newLoopConfig_fields [simp]:
  "1 \<le> cfg_maxAttempts (newLoopConfig opts)" "0 < cfg_maxAttempts (newLoopConfig opts)"
  "cfg_logger (newLoopConfig opts) \<noteq> None"
  by (simp_all add: newLoopConfig_def)

text \<open>The three ends of the loop, read off its contract.\<close>

lemma do_start: "do_trace c fn w 0 0 w"
  by (simp add: do_trace_def logged_since_def)

lemma do_exhausted:
  assumes "run (loop_schedule c) (do_attempt c fn) (do_pause c) ((zero, None), w) = (True, se, (r, e), w1)"
    and "0 < cfg_maxAttempts c"
  shows "se = None \<and> do_trace c fn w (nat (cfg_maxAttempts c)) (nat (cfg_maxAttempts c) - 1) w1 \<and>
    do_failed c fn r e \<and> (cfg_rlMode c \<noteq> RlOnly \<longrightarrow> ctx_err w1 = None)"
proof -
  have "Suc (nat (cfg_maxAttempts c) - 1) = nat (cfg_maxAttempts c)" using assms(2) by simp
  then show ?thesis
    using doing.run_exhausted [OF assms(1), where ?w0.0 = w] assms(2) do_start [of c fn w] by simp
qed

lemma do_done:
  assumes "run (loop_schedule c) (do_attempt c fn) (do_pause c) ((zero, None), w) = (False, None, (r, e), w1)"
    and "0 < cfg_maxAttempts c"
  shows "\<exists>m < nat (cfg_maxAttempts c). do_verdict c fn r e w1 \<and>
    (\<exists>w2. do_trace c fn w (Suc m) m w2 \<and> w1 = (if e = None then logRetrySuccess c m w2 else w2))"
  using doing.run_done [OF assms(1), where ?w0.0 = w] assms(2) do_start [of c fn w] by simp

lemma do_stopped:
  assumes "run (loop_schedule c) (do_attempt c fn) (do_pause c) ((zero, None), w) = (False, Some x, (r, e), w1)"
    and "0 < cfg_maxAttempts c"
  shows "\<exists>m < nat (cfg_maxAttempts c) - 1. do_trace c fn w (Suc m) (Suc m) w1 \<and> ctx_err w1 = Some x"
proof -
  obtain m w2 d where m: "m < nat (cfg_maxAttempts c) - 1" "do_trace c fn w (Suc m) (Suc m) w2"
    and sl: "SleepCtx d w2 = (Some x, w1)"
    using doing.run_stopped [OF assms(1), where ?w0.0 = w] assms(2) do_start [of c fn w]
    by (auto simp: doing.stopped_def)
  then have "do_trace c fn w (Suc m) (Suc m) w1"
    using SleepCtx_frame [of d w2] by (auto intro: do_trace_frame)
  with m SleepCtx_stopped [OF sl] show ?thesis by blast
qed

text \<open>
  Every end of \<open>Do\<close> past the configuration check: a value, with the verdict that ended the loop,
  the spent budget, or the sleep the caller's context interrupted.
\<close>

lemma Do_cases:
  assumes "\<not> cfg_rlConflict (newLoopConfig opts)" and "c = newLoopConfig opts"
    and d: "Do zero fn opts w = ((r, e), w')"
  obtains (returned) m w1 where "e = None" "produced c fn r None" "m < nat (cfg_maxAttempts c)"
      "do_trace c fn w (Suc m) m w1" "w' = logRetrySuccess c m w1"
    | (verdict) m x x' where "r = zero" "e = Some x" "do_verdict c fn x' e w'" "m < nat (cfg_maxAttempts c)"
      "do_trace c fn w (Suc m) m w'"
    | (exhausted) x x' w1 where "r = zero" "e = Some x" "do_failed c fn x' e"
      "cfg_rlMode c \<noteq> RlOnly \<longrightarrow> ctx_err w' = None"
      "do_trace c fn w (nat (cfg_maxAttempts c)) (nat (cfg_maxAttempts c) - 1) w1"
      "w' = cfg_log c (exhaustedLevel c) (exhaustedMsg c)
          [(''attempts'', AInt (cfg_maxAttempts c)), (''error'', AErr (LogSafeError e))] w1"
    | (stopped) m x where "r = zero" "e = Some x" "ctx_err w' = Some x" "m < nat (cfg_maxAttempts c) - 1"
      "do_trace c fn w (Suc m) (Suc m) w'"
proof -
  obtain ex se r1 e1 w1 where
    run: "run (loop_schedule c) (do_attempt c fn) (do_pause c) ((zero, None), w) = (ex, se, (r1, e1), w1)"
    and eq: "Do zero fn opts w =
       (if se \<noteq> None then ((zero, se), w1)
        else if e1 = None then ((r1, None), w1)
        else if ex then ((zero, e1), cfg_log c (exhaustedLevel c) (exhaustedMsg c)
               [(''attempts'', AInt (cfg_maxAttempts c)), (''error'', AErr (LogSafeError e1))] w1)
        else ((zero, e1), w1))"
    using Do_unfold [OF assms(1), of fn zero w] unfolding assms(2) by metis
  have pos: "0 < cfg_maxAttempts c" by (simp add: assms(2))
  consider "ex = True" | x where "ex = False" "se = Some x" | "ex = False" "se = None" by fastforce
  then show thesis
  proof cases
    case 1
    then show thesis
      using do_exhausted [OF run [unfolded 1] pos] 1 d eq exhausted [of _ r1 w1]
      by (auto simp: do_failed_def world_simps)
  next
    case 2
    then show thesis
      using do_stopped [OF run [unfolded 2] pos] 2 d eq stopped by auto
  next
    case 3
    then obtain m w2 where m: "m < nat (cfg_maxAttempts c)" "do_verdict c fn r1 e1 w1"
      "do_trace c fn w (Suc m) m w2" "w1 = (if e1 = None then logRetrySuccess c m w2 else w2)"
      using do_done [OF run [unfolded 3] pos] by auto
    show thesis
    proof (cases e1)
      case None
      with m have "produced c fn r1 None" by (auto simp: do_verdict_def)
      with m None 3 d eq show thesis by (intro returned [of m w2]) auto
    next
      case (Some x)
      with m 3 d eq show thesis by (intro verdict [of x r1 m]) auto
    qed
  qed
qed

lemma markAttemptTimeout_None_iff [simp]: "markAttemptTimeout a b e = None \<longleftrightarrow> e = None"
  by (cases e) (simp_all add: markAttemptTimeout_def AttemptTimeout_def)

lemma runAttempt_callback:
  "runAttempt c fn w = ((r, e), w') \<Longrightarrow> \<exists>ctx e0. fn ctx w = ((r, e0), w') \<and> (e = None \<longleftrightarrow> e0 = None)"
  by (auto simp: runAttempt_def Let_def split: if_splits prod.splits) blast

lemma produced_value: "produced c fn r None \<Longrightarrow> \<exists>ctx w0 w1. fn ctx w0 = ((r, None), w1)"
  unfolding produced_def using runAttempt_callback by fastforce

text \<open>While the caller's context lives, the attempt's own context has ended exactly when its bound
  has passed.\<close>

lemma own_bound_expired:
  "ctx_err w = None \<Longrightarrow> c_err (with_deadline (caller w) t) (clock w) \<noteq> None \<longleftrightarrow> t \<le> clock w"
  by (auto simp: ctx_err_def c_err_def with_deadline_def split: option.splits if_splits)

lemma rate_limit_refused: "errors_as as_rate_limit err \<noteq> None \<Longrightarrow> \<not> IsTransient err"
  by (cases err) (auto simp: IsTransient_def)

section \<open>Properties\<close>

text \<open>
  \<open>Do\<close> never invents a value. A nil error comes with a value the caller's function
  returned with a nil error; any other return has the zero value and an error that is the
  configuration conflict, the outcome of an attempt (marked as an attempt timeout at most), or the
  \<open>ctx.Err()\<close> of a caller's context that has ended.
\<close>

theorem do_returns_what_fn_returned:
  "case Do zero fn opts w of
     ((r, None), w') \<Rightarrow> (\<exists>ctx w0 w1. fn ctx w0 = ((r, None), w1))
   | ((r, Some e), w') \<Rightarrow> r = zero \<and>
       (e = conflict_err \<and> w' = w \<or>
        (\<exists>x. produced (newLoopConfig opts) fn x (Some e)) \<or> ctx_err w' = Some e)"
proof (cases "cfg_rlConflict (newLoopConfig opts)")
  case True
  then show ?thesis by (simp add: Do_def)
next
  case False
  obtain r e w' where d: "Do zero fn opts w = ((r, e), w')" by (metis prod.exhaust)
  from False refl d show ?thesis
  proof (cases rule: Do_cases)
    case (returned m w1)
    with d show ?thesis by (simp add: produced_value)
  next
    case (verdict m x x')
    with d show ?thesis by (auto simp: do_verdict_def)
  next
    case (exhausted x x' w1)
    with d show ?thesis by (auto simp: do_failed_def)
  next
    case (stopped m x)
    with d show ?thesis by simp
  qed
qed

text \<open>
  \<open>Do\<close> calls the caller's function at least once and at most as often as the normalised
  budget says (a budget below one counts as one), and not at all when both rate-limit modes are
  given. \<open>counts\<close> says that each call shows outside.
\<close>

theorem do_call_budget:
  assumes "counts fn"
  shows "let calls = outside (snd (Do zero fn opts w)) - outside w;
             c = newLoopConfig opts
         in if cfg_rlConflict c then calls = 0
            else 1 \<le> calls \<and> calls \<le> nat (cfg_maxAttempts c)"
proof (cases "cfg_rlConflict (newLoopConfig opts)")
  case True
  then show ?thesis by (simp add: Do_def)
next
  case False
  obtain r e w' where d: "Do zero fn opts w = ((r, e), w')" by (metis prod.exhaust)
  note t = do_trace_def assms
  from False refl d show ?thesis
  proof (cases rule: Do_cases)
    case (returned m w1)
    with d False show ?thesis by (simp add: t world_simps)
  next
    case (verdict m x x')
    with d False show ?thesis by (simp add: t)
  next
    case (exhausted x x' w1)
    with d False show ?thesis by (simp add: t world_simps Suc_le_eq)
  next
    case (stopped m x)
    with d False show ?thesis by (simp add: t)
  qed
qed

definition failing :: "err \<Rightarrow> int callback" where
  "failing e c w = ((0, Some e), w\<lparr>outside := Suc (outside w)\<rparr>)"

theorem do_call_budget_witness:
  "(let calls = outside (snd (Do 0 (failing (TransientError IoEOF)) [Some (DoBoth (WithMaxAttempts 2))] world0))
    in 1 \<le> calls \<and> calls \<le> 2) \<and>
   outside (snd (Do 0 (failing (TransientError IoEOF)) [Some (DoBoth (WithMaxAttempts 2))] world0)) = 2"
  (is "?a \<and> ?b")
proof
  have "cfg_maxAttempts (newLoopConfig [Some (DoBoth (WithMaxAttempts 2))]) = 2"
    "cfg_rlConflict (newLoopConfig [Some (DoBoth (WithMaxAttempts 2))]) = False" by code_simp+
  moreover have o0: "outside world0 = 0" by (simp add: world0_def)
  moreover have "counts (failing (TransientError IoEOF))" by (simp add: counts_def failing_def)
  ultimately show ?a
    using do_call_budget [of "failing (TransientError IoEOF)" 0 "[Some (DoBoth (WithMaxAttempts 2))]" world0]
    by (simp only: Let_def o0 diff_zero if_False nat_numeral)
  show ?b by code_simp
qed

text \<open>
  An error outside the retryable set ends \<open>Do\<close> at once: when the first attempt fails with an
  error the configured mode does not retry (and the caller's context is live, or the mode is
  rate-limit-only), \<open>Do\<close> returns the zero value and exactly that error, in the world the attempt
  left: no second call, no sleep, no line logged.
\<close>

theorem do_final_error_at_once:
  assumes "\<not> cfg_rlConflict (newLoopConfig opts)"
    and "runAttempt (newLoopConfig opts) fn w = ((r, Some e), w')"
    and "\<not> fst (classify (newLoopConfig opts) (Some e))"
    and "ctx_err w' = None \<or> cfg_rlMode (newLoopConfig opts) = RlOnly"
  shows "Do zero fn opts w = ((zero, Some e), w')"
proof -
  obtain k where k: "nat (cfg_maxAttempts (newLoopConfig opts)) = Suc k"
    using newLoopConfig_fields(2) [of opts] by (metis gr0_implies_Suc zero_less_nat_eq)
  then show ?thesis
    using assms by (auto simp: Do_def run_def do_attempt_def Let_def case_prod_beta)
qed

theorem do_final_error_at_once_witness:
  "Do 0 (failing (PermanentError IoEOF)) [] world0 =
     ((0, Some (PermanentError IoEOF)), world0\<lparr>outside := 1\<rparr>)"
proof (rule do_final_error_at_once)
  show "runAttempt (newLoopConfig []) (failing (PermanentError IoEOF)) world0 =
      ((0, Some (PermanentError IoEOF)), world0\<lparr>outside := 1\<rparr>)"
    by (simp add: runAttempt_def newLoopConfig_def normalize_def zeroConfig_def failing_def world0_def dur_simps)
  show "\<not> cfg_rlConflict (newLoopConfig [])" by (simp add: newLoopConfig_def zeroConfig_def)
  show "\<not> fst (classify (newLoopConfig []) (Some (PermanentError IoEOF)))" by code_simp
  show "ctx_err (world0\<lparr>outside := 1\<rparr>) = None \<or> cfg_rlMode (newLoopConfig []) = RlOnly" by code_simp
qed


lemma clean_reduced [simp]: "clean_attr (AErr (Some (reduceURLErrors e)))"
  by (simp add: clean_attr_def reduceURLErrors_clean)

lemma normalize_label: "cfg_label (normalize c) \<noteq> []"
  by (simp add: normalize_def Let_def)

text \<open>
  C25: the per-attempt bound. Under a positive bound an attempt's deadline error is marked
  retryable exactly when the caller's own context is still live and the attempt's bound has
  passed; in every other case the error of the caller's function comes back as it is.
\<close>

theorem attempt_mark_only_own_bound:
  assumes "0 < sint (cfg_attemptTimeout c)" and "runAttempt c fn w = ((r, e), w')"
  shows "\<exists>e0. fn (with_timeout (caller w) (cfg_attemptTimeout c) (clock w)) w = ((r, e0), w') \<and>
     e = (if ctx_err w' = None \<and> clock w + sint (cfg_attemptTimeout c) \<le> clock w' \<and>
             errors_is e0 DeadlineExceeded
          then AttemptTimeout e0 else e0)"
proof -
  let ?t = "clock w + sint (cfg_attemptTimeout c)"
  obtain r0 e0 w0 where f: "fn (with_deadline (caller w) ?t) w = ((r0, e0), w0)" by (metis prod.exhaust)
  with assms have "r0 = r" "w0 = w'"
    "e = markAttemptTimeout (ctx_err w') (c_err (with_deadline (caller w') ?t) (clock w')) e0"
    by (auto simp: runAttempt_def dur_simps Let_def)
  with f own_bound_expired [of w' ?t] show ?thesis
    by (auto simp: markAttemptTimeout_def with_timeout_def intro!: exI [of _ e0])
qed

definition stuck :: "int callback" where
  "stuck c w = ((0, Some DeadlineExceeded), w\<lparr>clock := clock w + 50\<rparr>)"

theorem attempt_mark_only_own_bound_witness:
  "fst (runAttempt (zeroConfig\<lparr>cfg_attemptTimeout := 50\<rparr>) stuck world0) =
     (0, Some (AttemptTimeoutError DeadlineExceeded))"
proof -
  obtain r e w' where r: "runAttempt (zeroConfig\<lparr>cfg_attemptTimeout := 50\<rparr>) stuck world0 = ((r, e), w')"
    by (metis prod.exhaust)
  have "errors_is (Some DeadlineExceeded) DeadlineExceeded" by (rule errors_is_node) simp
  with attempt_mark_only_own_bound [OF _ r] have "(r, e) = (0, Some (AttemptTimeoutError DeadlineExceeded))"
    by (auto simp: stuck_def world0_def ctx_err_def c_err_def AttemptTimeout_def)
  with r show ?thesis by simp
qed

text \<open>
  C26: the wait on a rate limit. Without a rate-limit mode a rate-limit error is final. Under
  either mode it is retried, after the wait it asks for or the configured ceiling, whichever is
  less; that wait is positive, so the sleep looks at the caller's context before every retry.
\<close>

theorem rate_limit_wait_positive_and_capped:
  assumes "errors_as as_rate_limit err = Some asked"
  shows "let c = newLoopConfig opts; (retryable, wait) = classify c err
         in if cfg_rlMode c = RlNone then \<not> retryable
            else retryable \<and> 0 < sint wait \<and>
                 sint wait = (if 0 < sint asked then min (sint asked) (sint (cfg_rlMaxWait c))
                              else sint (cfg_rlMaxWait c))"
proof -
  have "0 < sint (cfg_rlMaxWait (newLoopConfig opts))" if "cfg_rlMode (newLoopConfig opts) \<noteq> RlNone"
    using that normalize_delays(2) unfolding newLoopConfig_def by fastforce
  moreover have "\<not> IsTransient err" using rate_limit_refused assms by simp
  ultimately show ?thesis
    using assms by (auto simp: classify_def Let_def dur_simps split: prod.splits if_splits)
qed

theorem rate_limit_wait_positive_and_capped_witness:
  "classify (newLoopConfig [Some (WithRateLimitRetry (-1))]) (Some (RateLimitError ''slow down'' (90 * second))) =
     (True, RetryAfterCap) \<and>
   (let (retryable, wait) = classify (newLoopConfig []) (Some (RateLimitError ''slow down'' 5)) in \<not> retryable)"
  (is "?a \<and> ?b")
proof
  show ?a by code_simp
  have "cfg_rlMode (newLoopConfig []) = RlNone" by code_simp
  moreover have "errors_as as_rate_limit (Some (RateLimitError ''slow down'' 5)) = Some 5"
    by (rule errors_as_self) (simp add: as_rate_limit_def)
  ultimately show ?b
    using rate_limit_wait_positive_and_capped [of "Some (RateLimitError ''slow down'' 5)" 5 "[]"]
    by (simp add: Let_def)
qed






text \<open>
  C40: whatever options \<open>Do\<close> is given, in whatever order and with nil ones between them, its
  settings are usable: at least one attempt, a positive base delay, a logger, a label, a positive
  rate-limit ceiling under a rate-limit mode. They conflict exactly when both modes are given.
\<close>

theorem options_normalised:
  "let c = newLoopConfig opts
   in 1 \<le> cfg_maxAttempts c \<and> 0 < sint (cfg_baseDelay c) \<and> cfg_logger c \<noteq> None \<and> cfg_label c \<noteq> [] \<and>
      (cfg_rlMode c = RlNone \<or> 0 < sint (cfg_rlMaxWait c)) \<and>
      (cfg_rlConflict c \<longleftrightarrow>
         (\<exists>d. Some (WithRateLimitRetry d) \<in> set opts) \<and> (\<exists>d. Some (WithRateLimitOnly d) \<in> set opts))"
proof -
  let ?step = "\<lambda>opt c. case opt of None \<Rightarrow> c | Some opt \<Rightarrow> applyDo opt c"
  let ?rt = "\<lambda>os. \<exists>d. Some (WithRateLimitRetry d) \<in> set os"
  let ?on = "\<lambda>os. \<exists>d. Some (WithRateLimitOnly d) \<in> set os"
  have "(cfg_rlConflict (fold ?step opts c) \<longleftrightarrow>
           cfg_rlConflict c \<or> ?rt opts \<and> ?on opts \<or> ?rt opts \<and> cfg_rlMode c = RlOnly \<or>
           ?on opts \<and> cfg_rlMode c = RlRetry)" for c :: loopConfig
  proof (induction opts arbitrary: c)
    case (Cons opt opts)
    show ?case
      unfolding fold_Cons o_apply Cons.IH
      by (cases opt; simp; rename_tac a; case_tac a; simp add: rateLimit_applyDo_def Let_def;
          (rename_tac b; case_tac b; simp)?; cases "cfg_rlMode c"; auto)
  qed simp
  note conflict = this
  let ?c = "fold ?step opts zeroConfig"
  have "cfg_rlConflict ?c \<longleftrightarrow> ?rt opts \<and> ?on opts"
    using conflict [of zeroConfig] by (simp add: zeroConfig_def)
  then show ?thesis
    unfolding newLoopConfig_def Let_def
    using normalize_delays [of ?c] normalize_label [of ?c] by simp
qed

end
