(* ===== verification/GetBytes.thy ===== *)
theory GetBytes
  imports RetryLoop
begin

text \<open>
  The second loop door, \<open>GetBytes\<close> (\<open>loop.go\<close>, lines 510 to 628), with its settings and the
  verdict on a round trip it shares with the transport (\<open>roundtripper.go\<close>, lines 124 to 147).

  \<open>http.NewRequestWithContext\<close>, \<open>http.Client.Do\<close>, \<open>http.ParseTime\<close> and \<open>net/url\<close> are
  parameters, the fields of \<open>get_env\<close>. As net/http documents, the client returns an error or a
  response, and a response has a body.
\<close>

section \<open>Requests\<close>

datatype req_body = NilBody | NoBody | BodyAt nat

record request =
  Method :: string
  URL :: go_url
  ReqHeader :: header
  ReqBody :: req_body
  GetBody :: "(world \<Rightarrow> (err + req_body) \<times> world) option"

record get_env =
  ge_parse_time :: "string \<Rightarrow> int option"
  ge_new_request :: "string \<Rightarrow> err + request"
  ge_client :: "request \<Rightarrow> world \<Rightarrow> (err + response) \<times> world"
  ge_urls :: url_lib

section \<open>Settings\<close>

abbreviation DefaultMaxBodyBytes :: int64 where "DefaultMaxBodyBytes \<equiv> 10485760"

type_synonym set_headers = "request \<Rightarrow> world \<Rightarrow> request \<times> world"

record getConfig = loopConfig +
  cfg_setHeaders :: "set_headers option"
  cfg_maxBodyBytes :: int64

datatype get_option =
    GetBoth http_option
  | WithHeaders "set_headers option"
  | WithMaxBodyBytes int64

fun applyGet :: "get_option \<Rightarrow> getConfig \<Rightarrow> getConfig" where
  "applyGet (GetBoth opt) c = apply_option opt c"
| "applyGet (WithHeaders fn) c = c\<lparr>cfg_setHeaders := fn\<rparr>"
| "applyGet (WithMaxBodyBytes n) c = c\<lparr>cfg_maxBodyBytes := n\<rparr>"

definition newGetConfig :: "get_option option list \<Rightarrow> getConfig" where
  "newGetConfig opts =
     (let cfg = loopConfig.extend zeroConfig (getConfig.fields None 0);
          cfg = fold (\<lambda>opt c. case opt of None \<Rightarrow> c | Some opt \<Rightarrow> applyGet opt c) opts cfg;
          cfg = normalize cfg
      in if cfg_maxBodyBytes cfg \<le>s 0 then cfg\<lparr>cfg_maxBodyBytes := DefaultMaxBodyBytes\<rparr> else cfg)"

section \<open>The verdict on a round trip\<close>

definition retryableRoundTrip :: "response option \<Rightarrow> err option \<Rightarrow> bool" where
  "retryableRoundTrip resp err =
     (if err \<noteq> None then IsTransient err
      else case resp of None \<Rightarrow> False | Some r \<Rightarrow> IsRetryableStatus (StatusCode r))"

definition retryAfterOf :: "(string \<Rightarrow> int option) \<Rightarrow> int \<Rightarrow> response option \<Rightarrow> duration" where
  "retryAfterOf pt now resp =
     (case resp of None \<Rightarrow> 0 | Some r \<Rightarrow> ParseRetryAfter pt now (header_get (Header r) ''Retry-After''))"

section \<open>One attempt\<close>

definition logSlowUpstream :: "url_lib \<Rightarrow> getConfig \<Rightarrow> string \<Rightarrow> int \<Rightarrow> world \<Rightarrow> world" where
  "logSlowUpstream lib cfg reqURL attemptStart w =
     (let elapsed = since (clock w) attemptStart
      in if 10 * second <s elapsed
         then cfg_log cfg LevelWarn ''slow upstream response''
                [(''url'', AStr (redactURL lib reqURL)),
                 (''duration'', AInt (sint (duration_round elapsed millisecond)))] w
         else w)"

text \<open>The body, whether to retry, the capped \<open>Retry-After\<close> and the error of one attempt.\<close>

definition getAttempt ::
  "get_env \<Rightarrow> string \<Rightarrow> getConfig \<Rightarrow> world \<Rightarrow> (string \<times> bool \<times> duration \<times> err option) \<times> world" where
  "getAttempt env reqURL cfg w =
     (case ge_new_request env reqURL of
        Inl e \<Rightarrow> (([], False, 0, Some e), w)
      | Inr req \<Rightarrow>
          (let (req, w) = (case cfg_setHeaders cfg of None \<Rightarrow> (req, w) | Some fn \<Rightarrow> fn req w);
               (got, w) = ge_client env req w
           in case got of
                Inl e \<Rightarrow> (([], retryableRoundTrip None (Some e), 0, Some e), w)
              | Inr resp \<Rightarrow>
                  (let body = the (Body resp); status_err = StatusError reqURL (StatusCode resp)
                   in if retryableRoundTrip (Some resp) None
                      then (let retryAfter = retryAfterOf (ge_parse_time env) (clock w) (Some resp)
                            in (([], True, retryAfter, Some status_err), DrainClose body w))
                      else if CheckHTTPStatus (ge_parse_time env) (clock w) resp \<noteq> None
                      then (([], False, 0, Some status_err), DrainClose body w)
                      else
                        (let (data, w) = ReadLimitedBody body (cfg_maxBodyBytes cfg) w
                         in case data of
                              Inr bytes \<Rightarrow> ((bytes, False, 0, None), w)
                            | Inl e \<Rightarrow>
                                if errors_as as_too_large (Some e) \<noteq> None
                                then (([], False, 0, Some e), w)
                                else (([], False, 0, Some (WrapError ''read response: '' e)), w)))))"

section \<open>GetBytes\<close>

text \<open>The variables the closures share: \<open>body\<close>, \<open>err\<close> and \<open>retryAfter\<close>.\<close>

type_synonym get_vars = "string \<times> err option \<times> duration"

definition get_attempt_fn :: "get_env \<Rightarrow> string \<Rightarrow> getConfig \<Rightarrow> get_vars attempt_fn" where
  "get_attempt_fn env reqURL cfg n st =
     (let attemptStart = clock (snd st);
          ((body, retry, retryAfter, err), w) = getAttempt env reqURL cfg (snd st);
          w = (if err = None then logSlowUpstream (ge_urls env) cfg reqURL attemptStart w else w)
      in ((\<not> retry, retryAfter), (body, err, retryAfter), w))"

definition get_pause :: "get_env \<Rightarrow> string \<Rightarrow> getConfig \<Rightarrow> get_vars pause_fn" where
  "get_pause env reqURL cfg retry wait st =
     (let ((body, err, retryAfter), w) = st
      in ((body, err, retryAfter),
          cfg_log cfg LevelDebug ''http request failed, will retry''
            [(''url'', AStr (redactURL (ge_urls env) reqURL)), (''attempt'', AInt (int retry)),
             (''max'', AInt (cfg_maxAttempts cfg)), (''error'', AErr (LogSafeError err))] w))"

definition exhausted_err :: "duration \<Rightarrow> err option \<Rightarrow> duration \<Rightarrow> err" where
  "exhausted_err elapsed err retryAfter =
     (let exhaustedErr = WrapError (''retries exhausted after '' @ duration_string elapsed @ '': '') (the (LogSafeError err))
      in if 0 <s retryAfter then RetryAfterError exhaustedErr retryAfter else exhaustedErr)"

definition GetBytes :: "get_env \<Rightarrow> string \<Rightarrow> get_option option list \<Rightarrow> world \<Rightarrow> (string \<times> err option) \<times> world" where
  "GetBytes env reqURL opts w =
     (let cfg = newGetConfig opts;
          start = clock w;
          (exhausted, stopErr, (body, err, retryAfter), w) =
            run (loop_schedule cfg) (get_attempt_fn env reqURL cfg) (get_pause env reqURL cfg) (([], None, 0), w)
      in if stopErr \<noteq> None then (([], stopErr), w)
         else if err = None then ((body, None), w)
         else if \<not> exhausted then (([], LogSafeError err), w)
         else
           (let elapsed = duration_round (since (clock w) start) millisecond;
                w = cfg_log cfg (exhaustedLevel cfg) ''http retries exhausted''
                      [(''url'', AStr (redactURL (ge_urls env) reqURL)), (''attempts'', AInt (cfg_maxAttempts cfg)),
                       (''elapsed'', AInt (sint elapsed)), (''error'', AErr (LogSafeError err))] w
            in (([], Some (exhausted_err elapsed err retryAfter)), w)))"


section \<open>The outcomes of one attempt\<close>

lemma newGetConfig_fields [simp]:
  "0 < cfg_maxAttempts (newGetConfig opts)" "0 < sint (cfg_maxBodyBytes (newGetConfig opts))"
  by (simp_all add: newGetConfig_def Let_def dur_simps)

definition get_result :: "get_env \<Rightarrow> string \<Rightarrow> getConfig \<Rightarrow> string \<Rightarrow> err option \<Rightarrow> duration \<Rightarrow> bool \<Rightarrow> bool" where
  "get_result env reqURL cfg body err ra retry \<longleftrightarrow>
     (\<exists>w0 w1. getAttempt env reqURL cfg w0 = ((body, retry, ra, err), w1))"

lemma retryAfterOf_bounds: "0 \<le> sint (retryAfterOf pt now r)" "sint (retryAfterOf pt now r) \<le> sint RetryAfterCap"
  using ParseRetryAfter_bounds by (auto simp: retryAfterOf_def split: option.splits)

lemma getAttempt_retry_error:
  "getAttempt env u cfg w = ((b, retry, ra, e), w') \<Longrightarrow> retry \<Longrightarrow> e \<noteq> None"
  by (auto simp: getAttempt_def Let_def split: sum.splits prod.splits if_splits)

lemma getAttempt_hint:
  "getAttempt env u cfg w = ((b, retry, ra, e), w') \<Longrightarrow> 0 \<le> sint ra \<and> sint ra \<le> sint RetryAfterCap"
  using retryAfterOf_bounds
  by (auto simp: getAttempt_def Let_def split: sum.splits prod.splits if_splits)

text \<open>What the environment of an attempt does before the response is judged.\<close>

definition get_answer :: "get_env \<Rightarrow> getConfig \<Rightarrow> request \<Rightarrow> world \<Rightarrow> (err + response) \<times> world" where
  "get_answer env cfg req w =
     (let (req, w) = (case cfg_setHeaders cfg of None \<Rightarrow> (req, w) | Some fn \<Rightarrow> fn req w) in ge_client env req w)"

lemma getAttempt_error_answer:
  "ge_new_request env u = Inr req \<Longrightarrow> get_answer env cfg req w = (Inl e, w') \<Longrightarrow>
     getAttempt env u cfg w = (([], IsTransient (Some e), 0, Some e), w')"
  by (auto simp: getAttempt_def get_answer_def retryableRoundTrip_def Let_def split: prod.splits)

lemma getAttempt_retry_status:
  "ge_new_request env u = Inr req \<Longrightarrow> get_answer env cfg req w = (Inr r, w') \<Longrightarrow> IsRetryableStatus (StatusCode r) \<Longrightarrow>
     getAttempt env u cfg w =
       (([], True, retryAfterOf (ge_parse_time env) (clock w') (Some r), Some (StatusError u (StatusCode r))),
        DrainClose (the (Body r)) w')"
  by (auto simp: getAttempt_def get_answer_def retryableRoundTrip_def Let_def split: prod.splits)

lemma status_ok_iff: "CheckHTTPStatus pt now r = None \<longleftrightarrow> 200 \<le> StatusCode r \<and> StatusCode r < 300"
  by (simp add: CheckHTTPStatus_def Let_def)

lemma getAttempt_bad_status:
  "ge_new_request env u = Inr req \<Longrightarrow> get_answer env cfg req w = (Inr r, w') \<Longrightarrow>
     \<not> IsRetryableStatus (StatusCode r) \<Longrightarrow> StatusCode r < 200 \<or> 300 \<le> StatusCode r \<Longrightarrow>
     getAttempt env u cfg w =
       (([], False, 0, Some (StatusError u (StatusCode r))), DrainClose (the (Body r)) w')"
  by (auto simp: getAttempt_def get_answer_def retryableRoundTrip_def Let_def status_ok_iff split: prod.splits)

lemma ok_not_retryable: "200 \<le> c \<Longrightarrow> c < 300 \<Longrightarrow> \<not> IsRetryableStatus c"
  by (simp add: IsRetryableStatus_def)

lemma getAttempt_ok_status:
  "ge_new_request env u = Inr req \<Longrightarrow> get_answer env cfg req w = (Inr r, w') \<Longrightarrow>
     200 \<le> StatusCode r \<Longrightarrow> StatusCode r < 300 \<Longrightarrow>
     getAttempt env u cfg w =
       (case ReadLimitedBody (the (Body r)) (cfg_maxBodyBytes cfg) w' of
          (Inr bytes, w2) \<Rightarrow> ((bytes, False, 0, None), w2)
        | (Inl e, w2) \<Rightarrow>
            (([], False, 0,
              Some (if errors_as as_too_large (Some e) \<noteq> None then e else WrapError ''read response: '' e)), w2))"
  by (auto simp: getAttempt_def get_answer_def retryableRoundTrip_def Let_def status_ok_iff ok_not_retryable
      split: prod.splits sum.splits)

section \<open>What GetBytes keeps while it loops\<close>

definition env_counts :: "get_env \<Rightarrow> getConfig \<Rightarrow> bool" where
  "env_counts env cfg \<longleftrightarrow> (\<forall>req w. outside (snd (get_answer env cfg req w)) = Suc (outside w))"

definition env_quiet :: "get_env \<Rightarrow> getConfig \<Rightarrow> bool" where
  "env_quiet env cfg \<longleftrightarrow> (\<forall>req w. logged (snd (get_answer env cfg req w)) = logged w)"

text \<open>A line that shows of the URL no more than its redacted form, and no \<open>url.Error\<close>.\<close>

definition safe_line :: "get_env \<Rightarrow> string \<Rightarrow> log_line \<Rightarrow> bool" where
  "safe_line env u l \<longleftrightarrow>
     list_all (\<lambda>(k, a). clean_attr a \<and> (case a of AStr s \<Rightarrow> s = redactURL (ge_urls env) u | _ \<Rightarrow> True)) (ll_attrs l)"

definition safe_since :: "get_env \<Rightarrow> string \<Rightarrow> world \<Rightarrow> world \<Rightarrow> bool" where
  "safe_since env u w0 w \<longleftrightarrow> (\<exists>new. logged w = logged w0 @ new \<and> list_all (safe_line env u) new)"

definition get_trace :: "get_env \<Rightarrow> string \<Rightarrow> getConfig \<Rightarrow> world \<Rightarrow> nat \<Rightarrow> world \<Rightarrow> bool" where
  "get_trace env u cfg w0 n w \<longleftrightarrow>
     (env_counts env cfg \<longrightarrow> outside w \<le> outside w0 + n) \<and>
     (env_quiet env cfg \<longrightarrow> safe_since env u w0 w)"

lemma safe_since_refl [simp]: "safe_since env u w w"
  by (simp add: safe_since_def)

lemma safe_since_trans: "safe_since env u w0 w1 \<Longrightarrow> safe_since env u w1 w2 \<Longrightarrow> safe_since env u w0 w2"
  by (fastforce simp: safe_since_def)

lemma safe_since_log:
  "list_all (\<lambda>(k, a). clean_attr a \<and> (case a of AStr s \<Rightarrow> s = redactURL (ge_urls env) u | _ \<Rightarrow> True)) as \<Longrightarrow>
     safe_since env u w (cfg_log c lv m as w)"
  by (simp add: safe_since_def cfg_log_def log_def safe_line_def)

lemma safe_since_same: "logged w' = logged w \<Longrightarrow> safe_since env u w w'"
  by (simp add: safe_since_def)

lemma logged_DrainClose: "safe_since env u w (DrainClose a w)"
  by (auto simp: DrainClose_def Drain_def Let_def safe_since_def log_def safe_line_def world_simps split: prod.splits)

lemma get_answer_counts: "env_counts env cfg \<Longrightarrow> get_answer env cfg req w = (r, w') \<Longrightarrow> outside w' = Suc (outside w)"
  by (metis env_counts_def snd_conv)

lemma get_answer_quiet: "env_quiet env cfg \<Longrightarrow> get_answer env cfg req w = (r, w') \<Longrightarrow> logged w' = logged w"
  by (metis env_quiet_def snd_conv)

text \<open>Past the answer an attempt only drains, closes and reads a body.\<close>

lemma getAttempt_world:
  assumes "ge_new_request env u = Inr req" and "get_answer env cfg req w = (r, w1)"
    and "getAttempt env u cfg w = (v, w')"
  shows "outside w' = outside w1 \<and> safe_since env u w1 w'"
proof (cases r)
  case (Inl e)
  with assms getAttempt_error_answer [of env u req cfg w e w1] show ?thesis by simp
next
  case (Inr resp)
  consider "IsRetryableStatus (StatusCode resp)" |
    "\<not> IsRetryableStatus (StatusCode resp)" "StatusCode resp < 200 \<or> 300 \<le> StatusCode resp" |
    "200 \<le> StatusCode resp" "StatusCode resp < 300" by linarith
  then show ?thesis
  proof cases
    case 1
    with assms Inr getAttempt_retry_status [of env u req cfg w resp w1] logged_DrainClose
    show ?thesis by (auto simp: world_simps)
  next
    case 2
    with assms Inr getAttempt_bad_status [of env u req cfg w resp w1] logged_DrainClose
    show ?thesis by (auto simp: world_simps)
  next
    case 3
    have "w' = snd (ReadLimitedBody (the (Body resp)) (cfg_maxBodyBytes cfg) w1)"
      using 3 assms Inr getAttempt_ok_status [of env u req cfg w resp w1] by (auto split: prod.splits sum.splits)
    then show ?thesis by (simp add: world_simps safe_since_same)
  qed
qed

lemma safe_since_step:
  "safe_since env u w0 w \<Longrightarrow> logged w1 = logged w \<Longrightarrow> safe_since env u w1 w' \<Longrightarrow> safe_since env u w0 w'"
  by (fastforce simp: safe_since_def)

lemma get_trace_attempt:
  assumes "get_trace env u cfg w0 n w" and "getAttempt env u cfg w = (v, w')"
  shows "get_trace env u cfg w0 (Suc n) w'"
proof (cases "ge_new_request env u")
  case (Inl e)
  with assms show ?thesis by (auto simp: getAttempt_def get_trace_def)
next
  case (Inr req)
  obtain r w1 where a: "get_answer env cfg req w = (r, w1)" by fastforce
  show ?thesis
    using assms getAttempt_world [OF Inr a assms(2)] get_answer_counts [OF _ a] get_answer_quiet [OF _ a]
    by (auto simp: get_trace_def intro: safe_since_step)
qed

lemma get_trace_safe:
  "get_trace env u cfg w0 n w \<Longrightarrow> outside w' = outside w \<Longrightarrow> safe_since env u w w' \<Longrightarrow> get_trace env u cfg w0 n w'"
  by (auto simp: get_trace_def intro: safe_since_trans)

lemma get_trace_frame:
  "get_trace env u cfg w0 n w \<Longrightarrow> outside w' = outside w \<Longrightarrow> logged w' = logged w \<Longrightarrow> get_trace env u cfg w0 n w'"
  by (simp add: get_trace_def safe_since_def)

lemma logSlowUpstream_safe: "safe_since env u w (logSlowUpstream (ge_urls env) cfg u t w)"
  by (auto simp: logSlowUpstream_def Let_def intro!: safe_since_log)

lemma logSlowUpstream_fields [world_simps]:
  "clock (logSlowUpstream lib cfg u t w) = clock w" "outside (logSlowUpstream lib cfg u t w) = outside w"
  "bodies (logSlowUpstream lib cfg u t w) = bodies w" "caller (logSlowUpstream lib cfg u t w) = caller w"
  by (simp_all add: logSlowUpstream_def Let_def world_simps)

lemma get_attempt_fn_trace:
  "get_trace env u cfg w0 n w \<Longrightarrow> get_attempt_fn env u cfg n (x, w) = (v, x', w') \<Longrightarrow> get_trace env u cfg w0 (Suc n) w'"
  by (auto simp: get_attempt_fn_def Let_def world_simps split: prod.splits if_splits
      intro: get_trace_attempt get_trace_safe [OF get_trace_attempt] logSlowUpstream_safe)

lemma get_attempt_fn_result:
  "get_attempt_fn env u cfg n (x, w) = ((dn, wait), (b, e, ra), w') \<Longrightarrow>
     get_result env u cfg b e ra (\<not> dn) \<and> wait = ra"
  by (auto simp: get_attempt_fn_def get_result_def Let_def split: prod.splits) blast+

lemma get_pause_keeps: "fst (get_pause env u cfg r d (x, w)) = x"
  by (simp add: get_pause_def case_prod_beta)

lemma get_pause_trace:
  assumes "get_trace env u cfg w0 n w"
  shows "get_trace env u cfg w0 n (snd (get_pause env u cfg r d (x, w)))"
proof (rule get_trace_safe [OF assms])
  show "outside (snd (get_pause env u cfg r d (x, w))) = outside w"
    by (simp add: get_pause_def case_prod_beta world_simps)
  show "safe_since env u w (snd (get_pause env u cfg r d (x, w)))"
    by (auto simp: get_pause_def case_prod_beta intro!: safe_since_log)
qed

interpretation getting: loop_contract "loop_schedule cfg" start "get_attempt_fn env u cfg" "get_pause env u cfg"
  "\<lambda>n (x, w). get_trace env u cfg w0 n w"
  "\<lambda>n d ((b, e, ra), w). get_trace env u cfg w0 (Suc n) w \<and> get_result env u cfg b e ra True \<and> d = ra"
  "\<lambda>n ((b, e, ra), w). get_trace env u cfg w0 (Suc n) w"
  "\<lambda>n ((b, e, ra), w). get_trace env u cfg w0 (Suc n) w \<and> get_result env u cfg b e ra False"
  for cfg start env u w0
proof (unfold_locales, goal_cases)
  case (1 n st e st')
  then show ?case using get_attempt_fn_trace get_attempt_fn_result by (fastforce split: prod.splits)
next
  case (2 n st e st')
  then show ?case using get_attempt_fn_trace get_attempt_fn_result by (fastforce split: prod.splits)
next
  case (3 n e x w)
  then show ?case by (auto simp: world_simps intro: get_trace_frame split: prod.splits)
next
  case (4 n e st d)
  then show ?case
    using get_pause_trace [where x = "fst st" and w = "snd st"] by (simp add: case_prod_beta)
next
  case (5 n x w d w')
  then have "outside w' = outside w" "logged w' = logged w"
    using SleepCtx_frame [of d w] by simp_all
  with 5 show ?case by (simp add: case_prod_beta get_trace_frame)
qed

section \<open>How GetBytes ends\<close>

lemma get_start: "get_trace env u cfg w 0 w"
  by (simp add: get_trace_def)

lemma get_exhausted:
  assumes "run (loop_schedule cfg) (get_attempt_fn env u cfg) (get_pause env u cfg) (x, w) = (True, se, (b, e, ra), w1)"
    and "0 < cfg_maxAttempts cfg"
  shows "se = None \<and> get_trace env u cfg w (nat (cfg_maxAttempts cfg)) w1 \<and> get_result env u cfg b e ra True"
proof -
  have "Suc (nat (cfg_maxAttempts cfg) - 1) = nat (cfg_maxAttempts cfg)" using assms(2) by simp
  then show ?thesis
    using getting.run_exhausted [OF assms(1), where ?w0.0 = w] assms(2) get_start [of env u cfg w] by simp
qed

lemma get_done:
  assumes "run (loop_schedule cfg) (get_attempt_fn env u cfg) (get_pause env u cfg) (x, w) = (False, None, (b, e, ra), w1)"
    and "0 < cfg_maxAttempts cfg"
  shows "\<exists>m < nat (cfg_maxAttempts cfg). get_trace env u cfg w (Suc m) w1 \<and> get_result env u cfg b e ra False"
  using getting.run_done [OF assms(1), where ?w0.0 = w] assms(2) get_start [of env u cfg w] by simp

lemma get_stopped:
  assumes "run (loop_schedule cfg) (get_attempt_fn env u cfg) (get_pause env u cfg) (x, w) = (False, Some y, (b, e, ra), w1)"
    and "0 < cfg_maxAttempts cfg"
  shows "\<exists>m < nat (cfg_maxAttempts cfg) - 1. get_trace env u cfg w (Suc m) w1 \<and> ctx_err w1 = Some y"
proof -
  obtain m w2 d where m: "m < nat (cfg_maxAttempts cfg) - 1" "get_trace env u cfg w (Suc m) w2"
    and sl: "SleepCtx d w2 = (Some y, w1)"
    using getting.run_stopped [OF assms(1), where ?w0.0 = w] assms(2) get_start [of env u cfg w]
    by (auto simp: getting.stopped_def)
  then have "get_trace env u cfg w (Suc m) w1"
    using SleepCtx_frame [of d w2] by (auto intro: get_trace_frame)
  with m SleepCtx_stopped [OF sl] show ?thesis by blast
qed

text \<open>A trace of as many answers as the budget allows, with what was logged.\<close>

definition get_bound :: "get_env \<Rightarrow> string \<Rightarrow> getConfig \<Rightarrow> world \<Rightarrow> world \<Rightarrow> bool" where
  "get_bound env u cfg w w' \<longleftrightarrow> get_trace env u cfg w (nat (cfg_maxAttempts cfg)) w'"

lemma get_bound_le: "get_trace env u cfg w n w' \<Longrightarrow> n \<le> nat (cfg_maxAttempts cfg) \<Longrightarrow> get_bound env u cfg w w'"
  by (auto simp: get_bound_def get_trace_def)

lemma GetBytes_cases:
  assumes "GetBytes env u opts w = ((b, e), w')" and "cfg = newGetConfig opts"
  obtains (returned) ra where "e = None" "get_result env u cfg b None ra False" "get_bound env u cfg w w'"
    | (final) b' x ra where "b = []" "e = LogSafeError (Some x)" "get_result env u cfg b' (Some x) ra False"
      "get_bound env u cfg w w'"
    | (exhausted) b' x ra d where "b = []" "e = Some (exhausted_err d (Some x) ra)"
      "get_result env u cfg b' (Some x) ra True" "get_bound env u cfg w w'"
    | (stopped) x where "b = []" "e = Some x" "ctx_err w' = Some x" "get_bound env u cfg w w'"
proof -
  obtain ex se b1 e1 ra w1 where
    run: "run (loop_schedule cfg) (get_attempt_fn env u cfg) (get_pause env u cfg) (([], None, 0), w) =
      (ex, se, (b1, e1, ra), w1)"
    by (metis prod.exhaust)
  have pos: "0 < cfg_maxAttempts cfg" by (simp add: assms(2))
  note def = GetBytes_def [of env u opts w, folded assms(2), unfolded run Let_def prod.case]
  consider "ex = True" | x where "ex = False" "se = Some x" | "ex = False" "se = None" by fastforce
  then show thesis
  proof cases
    case 1
    note r = get_exhausted [OF run [unfolded 1] pos]
    then obtain x where x: "e1 = Some x"
      using getAttempt_retry_error by (fastforce simp: get_result_def)
    from r have t: "get_trace env u cfg w (nat (cfg_maxAttempts cfg)) w1" by simp
    have "get_trace env u cfg w (nat (cfg_maxAttempts cfg)) w'"
      using assms(1) def 1 r x
      by (auto simp: world_simps intro!: get_trace_safe [OF t] safe_since_log)
    with 1 r x assms(1) def show thesis
      by (intro exhausted [of "duration_round (since (clock w1) (clock w)) millisecond" x ra b1])
         (auto intro: get_bound_le)
  next
    case 2
    then obtain m where m: "m < nat (cfg_maxAttempts cfg) - 1" "get_trace env u cfg w (Suc m) w1" "ctx_err w1 = Some x"
      using get_stopped [OF run [unfolded 2] pos] by auto
    then have "Suc m \<le> nat (cfg_maxAttempts cfg)" by linarith
    with m have "get_bound env u cfg w w1" by (blast intro: get_bound_le)
    with m 2 assms(1) def show thesis by (intro stopped [of x]) auto
  next
    case 3
    then obtain m where m: "m < nat (cfg_maxAttempts cfg)" "get_trace env u cfg w (Suc m) w1"
      "get_result env u cfg b1 e1 ra False"
      using get_done [OF run [unfolded 3] pos] by auto
    then have "get_bound env u cfg w w1" by (blast intro: get_bound_le Suc_leI)
    with m 3 assms(1) def show thesis
      by (cases e1) (auto intro: returned [of ra] final [of _ b1 ra])
  qed
qed

section \<open>Properties\<close>


text \<open>
  C21: no error \<open>GetBytes\<close> returns holds a \<open>url.Error\<close>, whose text would show the request URL with
  its credentials: on every path the error is reduced, or is the \<open>ctx.Err()\<close> of the caller.
\<close>

theorem get_bytes_errors_hold_no_url_error:
  "case GetBytes env u opts w of ((b, e), w') \<Rightarrow> errors_as as_url_error e = None"
proof -
  have plain: "errors_as as_url_error (Some (fault_err f)) = None" for f
    by (cases f) (simp_all add: errors_as_def nodes_leaf as_url_error_def)
  have ctx: "errors_as as_url_error (Some x) = None" if "ctx_err w = Some x" for w x
    using that by (auto simp: ctx_err_def c_err_def plain split: option.splits if_splits)
  have wrap: "errors_as as_url_error (Some (WrapError p e)) = errors_as as_url_error (Some e)"
    "errors_as as_url_error (Some (RetryAfterError e h)) = errors_as as_url_error (Some e)" for p e h
    by (rule errors_as_one; simp add: as_url_error_def)+
  obtain b e w' where g: "GetBytes env u opts w = ((b, e), w')" by (metis prod.exhaust)
  from g refl have "errors_as as_url_error e = None"
    by (cases rule: GetBytes_cases)
       (use ctx in \<open>force simp: exhausted_err_def Let_def wrap reduceURLErrors_clean\<close>)+
  with g show ?thesis by simp
qed

text \<open>
  \<open>GetBytes\<close> asks the client at most as often as its budget says, and, when the client and the
  header hook log nothing themselves, every line it logs shows of the URL only its redacted form
  and carries no \<open>url.Error\<close>.
\<close>

theorem get_bytes_budget_and_logs:
  assumes "env_counts env (newGetConfig opts)" and "env_quiet env (newGetConfig opts)"
  shows "case GetBytes env u opts w of
    (r, w') \<Rightarrow> outside w' - outside w \<le> nat (cfg_maxAttempts (newGetConfig opts)) \<and>
      (\<exists>new. logged w' = logged w @ new \<and> list_all (safe_line env u) new)"
proof -
  obtain b e w' where g: "GetBytes env u opts w = ((b, e), w')" by (metis prod.exhaust)
  from g refl have "get_bound env u (newGetConfig opts) w w'" by (cases rule: GetBytes_cases)
  with assms g show ?thesis by (auto simp: get_bound_def get_trace_def safe_since_def)
qed

definition demo_request :: request where
  "demo_request = \<lparr>Method = ''GET'', URL = demo_url ''n'' [] [], ReqHeader = Map.empty, ReqBody = NoBody, GetBody = None\<rparr>"

text \<open>An environment whose client answers every request with one status and a body \<open>''ok''\<close>.\<close>

definition demo_env :: "int \<Rightarrow> get_env" where
  "demo_env code =
     \<lparr>ge_parse_time = (\<lambda>_. None), ge_new_request = (\<lambda>u. Inr demo_request),
      ge_client = (\<lambda>req w.
        (Inr \<lparr>StatusCode = code, Header = [''Retry-After'' \<mapsto> [''7'']], Body = Some 0\<rparr>,
         w\<lparr>outside := Suc (outside w), bodies := (\<lambda>_. open_body ''ok'' None)\<rparr>)),
      ge_urls = demo_lib\<rparr>"

lemma demo_counts: "env_counts (demo_env code) (newGetConfig [])"
  by (simp add: env_counts_def get_answer_def demo_env_def newGetConfig_def Let_def loopConfig.defs getConfig.defs normalize_def zeroConfig_def)

lemma demo_quiet: "env_quiet (demo_env code) (newGetConfig [])"
  by (simp add: env_quiet_def get_answer_def demo_env_def newGetConfig_def Let_def loopConfig.defs getConfig.defs normalize_def zeroConfig_def)

theorem get_bytes_budget_and_logs_witness:
  "outside (snd (GetBytes (demo_env 200) ''u'' [] world0)) \<le> 3 \<and>
   fst (GetBytes (demo_env 200) ''u'' [] world0) = (''ok'', None) \<and>
   fst (GetBytes (demo_env 404) ''u'' [] world0) = ([], Some (StatusError ''u'' 404))"
proof (intro conjI)
  have "nat (cfg_maxAttempts (newGetConfig [])) = 3" by code_simp
  then show "outside (snd (GetBytes (demo_env 200) ''u'' [] world0)) \<le> 3"
    using get_bytes_budget_and_logs [OF demo_counts demo_quiet, where u = "''u''" and w = world0]
    by (auto simp: case_prod_beta world0_def)
  show "fst (GetBytes (demo_env 200) ''u'' [] world0) = (''ok'', None)" by code_simp
  show "fst (GetBytes (demo_env 404) ''u'' [] world0) = ([], Some (StatusError ''u'' 404))" by code_simp
qed

text \<open>
  One attempt of \<open>GetBytes\<close>, for each answer of the client. It is retried exactly when the
  transport error is transient or the status is retryable, with a wait that is the response's
  \<open>Retry-After\<close> cut to the cap and zero otherwise; a status outside 2xx is a \<open>StatusError\<close> with the
  request URL; a read error or a body over the cap is never retried; and the body of every
  response is closed exactly once, no other body being touched.
\<close>

theorem get_attempt_verdict:
  assumes "ge_new_request env u = Inr req" and "get_answer env cfg req w = (got, w1)"
  shows "case getAttempt env u cfg w of
    ((b, retry, ra, e), w') \<Rightarrow>
      0 \<le> sint ra \<and> sint ra \<le> sint RetryAfterCap \<and> (retry \<or> ra = 0) \<and> (e = None \<or> b = []) \<and>
      (case got of
         Inl x \<Rightarrow> e = Some x \<and> (retry \<longleftrightarrow> IsTransient (Some x)) \<and> w' = w1
       | Inr r \<Rightarrow>
           (retry \<longleftrightarrow> IsRetryableStatus (StatusCode r)) \<and>
           (StatusCode r < 200 \<or> 300 \<le> StatusCode r \<longleftrightarrow> e = Some (StatusError u (StatusCode r))) \<and>
           (let a = the (Body r)
            in b_closed (bodies w' a) = Suc (b_closed (bodies w1 a)) \<and>
               (bodies w')(a := bodies w1 a) = bodies w1))"
proof (cases got)
  case (Inl x)
  with assms getAttempt_error_answer [of env u req cfg w x w1] show ?thesis by simp
next
  case (Inr r)
  note a = assms [unfolded Inr]
  consider "IsRetryableStatus (StatusCode r)" |
    "\<not> IsRetryableStatus (StatusCode r)" "StatusCode r < 200 \<or> 300 \<le> StatusCode r" |
    "200 \<le> StatusCode r" "StatusCode r < 300" by linarith
  then show ?thesis
  proof cases
    case 1
    then have "\<not> (200 \<le> StatusCode r \<and> StatusCode r < 300)" using ok_not_retryable by blast
    then show ?thesis
      using 1 Inr getAttempt_retry_status [OF a 1] retryAfterOf_bounds
      by (auto simp: Let_def world_simps fun_eq_iff)
  next
    case 2
    then show ?thesis
      using Inr getAttempt_bad_status [OF a 2] by (auto simp: Let_def world_simps fun_eq_iff)
  next
    case 3
    obtain d w2 where r: "ReadLimitedBody (the (Body r)) (cfg_maxBodyBytes cfg) w1 = (d, w2)" by fastforce
    have w2: "b_closed (bodies w2 (the (Body r))) = Suc (b_closed (bodies w1 (the (Body r))))"
      "\<And>c. c \<noteq> the (Body r) \<Longrightarrow> bodies w2 c = bodies w1 c"
      using ReadLimitedBody_fields(6,7) [where a = "the (Body r)" and n = "cfg_maxBodyBytes cfg" and w = w1]
      by (simp_all add: r)
    have "errors_as as_too_large (Some (StatusError u (StatusCode r))) = None"
      by (simp add: errors_as_def nodes_leaf as_too_large_def)
    with w2 show ?thesis
      using Inr 3 getAttempt_ok_status [OF a 3] ok_not_retryable [OF 3]
      by (cases d) (auto simp: r Let_def fun_eq_iff)
  qed
qed

theorem get_attempt_verdict_witness:
  "case getAttempt (demo_env 503) ''u'' (newGetConfig []) world0 of
     ((b, retry, ra, e), w') \<Rightarrow> retry \<and> ra = 7 * second \<and> e = Some (StatusError ''u'' 503) \<and>
       b_closed (bodies w' 0) = 1"
proof -
  obtain b retry ra e w' where
    g: "getAttempt (demo_env 503) ''u'' (newGetConfig []) world0 = ((b, retry, ra, e), w')"
    by (metis prod.exhaust)
  have req: "ge_new_request (demo_env 503) ''u'' = Inr demo_request" by (simp add: demo_env_def)
  obtain r w1 where ans: "get_answer (demo_env 503) (newGetConfig []) demo_request world0 = (Inr r, w1)"
    and r: "StatusCode r = 503" "the (Body r) = 0" "b_closed (bodies w1 0) = 0"
    by (simp add: get_answer_def demo_env_def newGetConfig_def Let_def loopConfig.defs getConfig.defs
        normalize_def zeroConfig_def open_body_def)
  have "fst (getAttempt (demo_env 503) ''u'' (newGetConfig []) world0) =
      ([], True, 7 * second, Some (StatusError ''u'' 503))"
    by code_simp
  with get_attempt_verdict [OF req ans] r g show ?thesis by (auto simp: Let_def)
qed

text \<open>
  What rides out on the error of an exhausted budget. The wrappers \<open>GetBytes\<close> adds leave the
  verdict of \<open>IsTransient\<close> and the cause as they are on the reduced error of the last attempt, so
  an enclosing loop's set of retryable errors does not widen; a positive \<open>Retry-After\<close> of the last
  response is the wait that loop will honour.
\<close>

theorem exhausted_error_rides_out:
  "IsTransient (Some (exhausted_err d (Some x) ra)) = IsTransient (LogSafeError (Some x)) \<and>
   CauseOf (Some (exhausted_err d (Some x) ra)) = CauseOf (LogSafeError (Some x)) \<and>
   retryAfterHintWait (Some (exhausted_err d (Some x) ra)) =
     (if 0 < sint ra then ra else retryAfterHintWait (LogSafeError (Some x)))"
proof -
  have "errors_as hint_method (Some (RetryAfterError y h)) = Some h" for y h
    by (simp add: errors_as_self hint_method_def)
  moreover have "errors_as hint_method (Some (WrapError p y)) = errors_as hint_method (Some y)" for p y
    by (simp add: wrapf.as_through hint_method_def)
  ultimately show ?thesis
    by (simp add: exhausted_err_def Let_def dur_simps retryAfterHintWait_def
        silent_wrapf.transient_through silent_retry_after.transient_through
        wrapf.cause_through retry_after.cause_through)
qed

end
