(* ===== verification/Conditional.thy ===== *)
theory Conditional
  imports GetBytes
begin

text \<open>
  Conditional requests (\<open>conditional.go\<close>): which validators of a cached response are replayed, and how
  the answer is judged. The client and \<open>http.ParseTime\<close> are parameters, as for \<open>GetBytes\<close>; since
  \<open>DoConditional\<close> writes the caller's request, it returns the request as it left it.
\<close>

section \<open>Validators\<close>

record Validators =
  v_ETag :: string
  v_LastModified :: string

record ConditionalResult =
  cr_Validators :: Validators
  cr_Body :: "string option"
  cr_NotModified :: bool

definition maxValidatorBytes :: nat where "maxValidatorBytes = 1024"

definition validValidator :: "string \<Rightarrow> bool" where
  "validValidator v =
     (if length v > maxValidatorBytes then False
      else list_all (\<lambda>c. \<not> ((byte_of c < 32 \<and> byte_of c \<noteq> 9) \<or> byte_of c = 127)) v)"

definition captureValidator :: "string \<Rightarrow> string" where
  "captureValidator v = (if \<not> validValidator v then [] else v)"

definition no_validators :: Validators where
  "no_validators = \<lparr>v_ETag = [], v_LastModified = []\<rparr>"

definition zero_result :: ConditionalResult where
  "zero_result = \<lparr>cr_Validators = no_validators, cr_Body = None, cr_NotModified = False\<rparr>"

section \<open>The request\<close>

definition conditional_request :: "Validators \<Rightarrow> request \<Rightarrow> request" where
  "conditional_request v req =
     (let h = header_del (ReqHeader req) ''If-None-Match'';
          h = header_del h ''If-Modified-Since'';
          h = (if v_ETag v \<noteq> [] \<and> validValidator (v_ETag v) then header_set h ''If-None-Match'' (v_ETag v) else h);
          h = (if v_LastModified v \<noteq> [] \<and> validValidator (v_LastModified v)
               then header_set h ''If-Modified-Since'' (v_LastModified v) else h)
      in req\<lparr>ReqHeader := h\<rparr>)"

section \<open>DoConditional\<close>

type_synonym http_do = "request \<Rightarrow> world \<Rightarrow> (err + response) \<times> world"

definition DoConditional ::
  "(string \<Rightarrow> int option) \<Rightarrow> http_do \<Rightarrow> request \<Rightarrow> Validators \<Rightarrow> int64 \<Rightarrow> world
     \<Rightarrow> (ConditionalResult \<times> err option) \<times> request \<times> world" where
  "DoConditional pt client req v maxBodyBytes w =
     (let maxBodyBytes = (if maxBodyBytes \<le>s 0 then DefaultMaxBodyBytes else maxBodyBytes);
          req = conditional_request v req;
          (got, w) = client req w
      in case got of
           Inl e \<Rightarrow> ((zero_result, LogSafeError (Some e)), req, w)
         | Inr resp \<Rightarrow>
             (let body = the (Body resp)
              in if StatusCode resp = 304
                 then ((zero_result\<lparr>cr_NotModified := True\<rparr>, None), req, DrainClose body w)
                 else if StatusCode resp = 200
                 then (case ReadLimitedBody body maxBodyBytes w of
                         (Inl e, w) \<Rightarrow> ((zero_result, Some e), req, w)
                       | (Inr bytes, w) \<Rightarrow>
                           ((\<lparr>cr_Validators = \<lparr>v_ETag = captureValidator (header_get (Header resp) ''ETag''),
                                               v_LastModified = captureValidator (header_get (Header resp) ''Last-Modified'')\<rparr>,
                              cr_Body = Some bytes, cr_NotModified = False\<rparr>, None), req, w))
                 else
                   (let w = DrainClose body w
                    in case CheckHTTPStatus pt (clock w) resp of
                         Some statusErr \<Rightarrow> ((zero_result, Some statusErr), req, w)
                       | None \<Rightarrow>
                           ((zero_result,
                             Some (NewError (''unexpected status '' @ itoa (StatusCode resp) @ '' on conditional request''))),
                            req, w))))"

section \<open>Lemmas\<close>




lemma captureValidator_valid [simp]: "validValidator (captureValidator v)"
  by (simp add: captureValidator_def validValidator_def)

section \<open>Properties\<close>


text \<open>
  How \<open>DoConditional\<close> judges the one answer it asks for. A transport error comes back reduced to its
  log-safe form. Of a response the body is closed exactly once and no other is touched; \<open>NotModified\<close> is
  set exactly for a 304; a nil error with a body comes exactly from a 200 read in full within the
  cap; every other status is an error.
\<close>

theorem conditional_outcome:
  "let limit = (if sint maxBytes \<le> 0 then DefaultMaxBodyBytes else maxBytes);
       (got, w1) = client (conditional_request v req) w;
       ((res, e), req', w') = DoConditional pt client req v maxBytes w
   in req' = conditional_request v req \<and>
      (case got of
         Inl x \<Rightarrow> res = zero_result \<and> e = Some (reduceURLErrors x) \<and> w' = w1
       | Inr r \<Rightarrow>
           b_closed (bodies w' (the (Body r))) = Suc (b_closed (bodies w1 (the (Body r)))) \<and>
           (bodies w')(the (Body r) := bodies w1 (the (Body r))) = bodies w1 \<and>
           (cr_NotModified res \<longleftrightarrow> StatusCode r = 304) \<and>
           (e = None \<longleftrightarrow> StatusCode r = 304 \<or> (\<exists>b. cr_Body res = Some b)) \<and>
           (\<forall>b. cr_Body res = Some b \<longleftrightarrow>
              StatusCode r = 200 \<and> fst (ReadLimitedBody (the (Body r)) limit w1) = Inr b))"
proof -
  let ?limit = "if sint maxBytes \<le> 0 then DefaultMaxBodyBytes else maxBytes"
  obtain got w1 where c: "client (conditional_request v req) w = (got, w1)" by fastforce
  show ?thesis
  proof (cases got)
    case (Inl x)
    then show ?thesis by (simp add: c DoConditional_def Let_def)
  next
    case (Inr r)
    let ?a = "the (Body r)"
    obtain d w2 where rl: "ReadLimitedBody ?a ?limit w1 = (d, w2)" by fastforce
    have b: "b_closed (bodies w2 ?a) = Suc (b_closed (bodies w1 ?a))" "(bodies w2)(?a := bodies w1 ?a) = bodies w1"
      using ReadLimitedBody_fields(6,7) [where a = ?a and n = ?limit and w = w1]
      by (auto simp: rl fun_eq_iff)
    have dc: "(bodies (DrainClose ?a w1))(?a := bodies w1 ?a) = bodies w1" by (auto simp: fun_eq_iff world_simps)
    have lim: "(if maxBytes \<le>s 0 then DefaultMaxBodyBytes else maxBytes) = ?limit" by (simp add: dur_simps)
    show ?thesis
      unfolding DoConditional_def c Let_def prod.case Inr sum.case lim
      using b dc
      by (auto simp: rl zero_result_def world_simps split: sum.splits option.splits)
  qed
qed

end
