(* ===== verification/Revalidation.thy ===== *)
theory Revalidation
  imports Conditional
begin

text \<open>
  A cache kept fresh with \<open>DoConditional\<close> (\<open>conditional.go\<close>), the way its documentation tells the caller to
  keep one: body and validators stored together, none sent without a body, those held kept on a 304. The origin
  server is a parameter that answers conditional requests as RFC 9110 says; its resource changes at any time.
\<close>

section \<open>The origin\<close>




section \<open>The cache\<close>











section \<open>Properties\<close>






end
