(* ===== verification/Tls.thy ===== *)
theory Tls
  imports Errors
begin

text \<open>
  Certificate pinning (\<open>tls.go\<close>). A certificate pool is the list of its certificates; the PEM decoder is a
  parameter, the certificates it finds in its input. A \<open>tls.Config\<close> is the fields that decide whom a
  connection trusts, with everything else as one number; a transport is its \<open>TLSClientConfig\<close> and
  the rest of its settings.
\<close>

section \<open>Transports\<close>

record tls_config =
  RootCAs :: "string list option"
  MinVersion :: nat
  InsecureSkipVerify :: bool
  VerifyPeerCertificate :: "nat option"
  VerifyConnection :: "nat option"
  tls_others :: nat

definition zero_tls :: tls_config where
  "zero_tls = \<lparr>RootCAs = None, MinVersion = 0, InsecureSkipVerify = False, VerifyPeerCertificate = None,
     VerifyConnection = None, tls_others = 0\<rparr>"

definition VersionTLS12 :: nat where "VersionTLS12 = 771"

record http_transport =
  TLSClientConfig :: "tls_config option"
  tr_settings :: nat

text \<open>What \<open>http.DefaultTransport\<close> may hold: the library's transport, or another round tripper.\<close>

datatype default_transport = StdTransport http_transport | OtherTripper nat

section \<open>The operations\<close>

definition caCertPool :: "(string \<Rightarrow> string list) \<Rightarrow> string \<Rightarrow> err + string list" where
  "caCertPool certs_in pem =
     (let pool = [] @ certs_in pem
      in if certs_in pem = [] then Inl ErrNoCertsInPEM else Inr pool)"

definition CloneDefaultTransport :: "default_transport \<Rightarrow> err + http_transport" where
  "CloneDefaultTransport dt =
     (case dt of
        StdTransport base \<Rightarrow> Inr base
      | OtherTripper n \<Rightarrow> Inl (NewError ''httpx: http.DefaultTransport is not *http.Transport''))"

definition CATransport :: "(string \<Rightarrow> string list) \<Rightarrow> default_transport \<Rightarrow> string \<Rightarrow> err + http_transport" where
  "CATransport certs_in dt pem =
     (case caCertPool certs_in pem of
        Inl e \<Rightarrow> Inl e
      | Inr pool \<Rightarrow>
          (case CloneDefaultTransport dt of
             Inl e \<Rightarrow> Inl e
           | Inr tr \<Rightarrow> Inr (tr\<lparr>TLSClientConfig := Some (zero_tls\<lparr>RootCAs := Some pool, MinVersion := VersionTLS12\<rparr>)\<rparr>)))"

section \<open>Properties\<close>

text \<open>
  \<open>CATransport\<close> trusts the given certificates and nothing else. When it returns a transport its TLS
  settings are the certificates found in the input, at least one, as the only roots, TLS 1.2 at
  least, verification on and no hook; the other settings are the default transport's. They do not
  depend on the TLS settings of the default transport, however the program changed them. Without a
  certificate in the input, or with a default transport that is not the library's, it is an error.
\<close>

theorem ca_transport_pins:
  "(case CATransport certs_in dt pem of
      Inr tr \<Rightarrow>
        \<exists>base c. dt = StdTransport base \<and> TLSClientConfig tr = Some c \<and> tr_settings tr = tr_settings base \<and>
          RootCAs c = Some (certs_in pem) \<and> certs_in pem \<noteq> [] \<and> VersionTLS12 \<le> MinVersion c \<and>
          \<not> InsecureSkipVerify c \<and> VerifyPeerCertificate c = None \<and> VerifyConnection c = None
    | Inl e \<Rightarrow> certs_in pem = [] \<and> e = ErrNoCertsInPEM \<or> (\<exists>n. dt = OtherTripper n)) \<and>
   CATransport certs_in (StdTransport (b\<lparr>TLSClientConfig := anything\<rparr>)) pem = CATransport certs_in (StdTransport b) pem"
  by (auto simp: CATransport_def caCertPool_def CloneDefaultTransport_def zero_tls_def Let_def
      split: sum.split default_transport.split)

end
