(* ===== verification/Certtest.thy ===== *)
theory Certtest
  imports Tls
begin

text \<open>
  Throwaway certificates for tests (\<open>certtest/certtest.go\<close>). What the two functions call of
  \<open>crypto/ecdsa\<close>, \<open>crypto/x509\<close>, \<open>encoding/pem\<close>, \<open>os\<close> and \<open>testing\<close> is a record of functions; the
  host they run on is the position of \<open>rand.Reader\<close>, the readings of \<open>time.Now\<close>, the temporary
  directories handed out and the files written. \<open>tb.Fatalf\<close> ends the call, so a result is its
  message with the error, or the value returned.
\<close>

section \<open>The host\<close>








section \<open>The operations\<close>




section \<open>What the libraries document\<close>








section \<open>Properties\<close>





end
