(* ===== verification/Transport.thy ===== *)
theory Transport
  imports GetBytes
begin

text \<open>
  The transport door (\<open>roundtripper.go\<close>): a round tripper that retries another. The base transport,
  \<open>http.DefaultTransport\<close>, the retry policy, the hooks and \<open>GetBody\<close> are parameters; a nil function is
  \<open>None\<close>. A request is a value, so \<open>req.Clone\<close> is the request itself and nothing below can
  mutate the caller's.
\<close>

section \<open>Configuration\<close>

type_synonym round_tripper = "request \<Rightarrow> world \<Rightarrow> (response option \<times> err option) \<times> world"
type_synonym check_retry = "response option \<Rightarrow> err option \<Rightarrow> world \<Rightarrow> (bool \<times> err option) \<times> world"
type_synonym on_retry = "nat \<Rightarrow> request \<Rightarrow> response option \<Rightarrow> err option \<Rightarrow> world \<Rightarrow> world"
type_synonym prepare_retry = "request \<Rightarrow> world \<Rightarrow> (request \<times> err option) \<times> world"

record TransportConfig =
  CheckRetry :: "check_retry option"
  OnRetry :: "on_retry option"
  PrepareRetry :: "prepare_retry option"
  MaxAttempts :: int
  BaseDelay :: duration
  MaxElapsedTime :: duration
  RetryNonIdempotent :: bool

record retryRoundTripper =
  rt_next :: "round_tripper option"
  rt_checkRetry :: "check_retry option"
  rt_onRetry :: "on_retry option"
  rt_prepareRetry :: "prepare_retry option"
  rt_baseDelay :: duration
  rt_maxAttempts :: int
  rt_maxElapsedTime :: duration
  rt_retryNonIdempotent :: bool

definition NewRetryRoundTripper :: "round_tripper \<Rightarrow> round_tripper option \<Rightarrow> TransportConfig \<Rightarrow> retryRoundTripper" where
  "NewRetryRoundTripper defaultTransport next cfg =
     (let next = (if next = None then Some defaultTransport else next)
      in \<lparr>rt_next = next, rt_checkRetry = CheckRetry cfg, rt_onRetry = OnRetry cfg,
          rt_prepareRetry = PrepareRetry cfg, rt_baseDelay = BaseDelay cfg,
          rt_maxAttempts = MaxAttempts cfg, rt_maxElapsedTime = MaxElapsedTime cfg,
          rt_retryNonIdempotent = RetryNonIdempotent cfg\<rparr>)"

section \<open>What may be sent again\<close>

definition isSafeMethod :: "string \<Rightarrow> bool" where
  "isSafeMethod m \<longleftrightarrow> m \<in> {'''', ''GET'', ''HEAD'', ''OPTIONS'', ''TRACE''}"

definition canRetry :: "retryRoundTripper \<Rightarrow> request \<Rightarrow> bool" where
  "canRetry rt req =
     (if \<not> isSafeMethod (Method req) \<and> \<not> rt_retryNonIdempotent rt then False
      else ReqBody req = NilBody \<or> ReqBody req = NoBody \<or> GetBody req \<noteq> None)"

definition defaultCheckRetry :: check_retry where
  "defaultCheckRetry resp err w = ((retryableRoundTrip resp err, None), w)"

definition rt_schedule :: "retryRoundTripper \<Rightarrow> schedule" where
  "rt_schedule rt =
     (let s = \<lparr>attempts = rt_maxAttempts rt, baseDelay = rt_baseDelay rt, maxElapsed = rt_maxElapsedTime rt\<rparr>;
          s = (if attempts s = 0 then s\<lparr>attempts := DefaultMaxAttempts\<rparr>
               else if attempts s < 0 then s\<lparr>attempts := 1\<rparr> else s)
      in if baseDelay s \<le>s 0 then s\<lparr>baseDelay := DefaultBaseDelay\<rparr> else s)"

definition rt_transport :: "round_tripper \<Rightarrow> retryRoundTripper \<Rightarrow> round_tripper" where
  "rt_transport defaultTransport rt = (case rt_next rt of Some next \<Rightarrow> next | None \<Rightarrow> defaultTransport)"

definition getCheckRetry :: "retryRoundTripper \<Rightarrow> check_retry" where
  "getCheckRetry rt = (case rt_checkRetry rt of Some check \<Rightarrow> check | None \<Rightarrow> defaultCheckRetry)"

section \<open>One attempt\<close>

definition roundTripOnce :: "round_tripper \<Rightarrow> retryRoundTripper \<Rightarrow> round_tripper" where
  "roundTripOnce dt rt req w =
     (let ((resp, err), w) = rt_transport dt rt req w in ((resp, nameHangUp err), w))"

definition buildAttemptRequest :: "retryRoundTripper \<Rightarrow> request \<Rightarrow> nat \<Rightarrow> world \<Rightarrow> (err + request) \<times> world" where
  "buildAttemptRequest rt req attempt w =
     (let tryReq = req
      in if attempt = 0 then (Inr tryReq, w)
         else
           (let (rewound, w) =
                  (case GetBody req of
                     None \<Rightarrow> (Inr tryReq, w)
                   | Some get \<Rightarrow>
                       (case get w of
                          (Inl bodyErr, w) \<Rightarrow> (Inl (WrapError ''rewind request body: '' bodyErr), w)
                        | (Inr body, w) \<Rightarrow> (Inr (tryReq\<lparr>ReqBody := body\<rparr>), w)))
            in case rewound of
                 Inl e \<Rightarrow> (Inl e, w)
               | Inr tryReq \<Rightarrow>
                   (case rt_prepareRetry rt of
                      None \<Rightarrow> (Inr tryReq, w)
                    | Some prepare \<Rightarrow>
                        (case prepare tryReq w of
                           ((tryReq, Some prepErr), w) \<Rightarrow> (Inl (WrapError ''prepare retry: '' prepErr), w)
                         | ((tryReq, None), w) \<Rightarrow> (Inr tryReq, w)))))"

section \<open>RoundTrip\<close>

text \<open>The variables the closures share: \<open>resp\<close> and \<open>err\<close>.\<close>

type_synonym rt_vars = "response option \<times> err option"

definition rt_attempt ::
  "(string \<Rightarrow> int option) \<Rightarrow> round_tripper \<Rightarrow> retryRoundTripper \<Rightarrow> request \<Rightarrow> rt_vars attempt_fn" where
  "rt_attempt pt dt rt req n st =
     (case buildAttemptRequest rt req n (snd st) of
        (Inl buildErr, w) \<Rightarrow> ((True, 0), (None, Some buildErr), w)
      | (Inr tryReq, w) \<Rightarrow>
          (let ((resp, err), w) = roundTripOnce dt rt tryReq w;
               ((retry, checkErr), w) = getCheckRetry rt resp err w
           in if checkErr \<noteq> None then ((True, 0), (None, checkErr), drainResp resp w)
              else if \<not> retry then ((True, 0), (resp, err), w)
              else if ctx_err w \<noteq> None then ((True, 0), (None, ctx_err w), drainResp resp w)
              else ((False, retryAfterOf pt (clock w) resp), (resp, err), w)))"

definition rt_pause :: "retryRoundTripper \<Rightarrow> request \<Rightarrow> rt_vars pause_fn" where
  "rt_pause rt req retry wait st =
     (let ((resp, err), w) = st;
          w = (case rt_onRetry rt of None \<Rightarrow> w | Some hook \<Rightarrow> hook retry req resp err w)
      in ((resp, err), drainResp resp w))"

definition elapsed_err :: "duration \<Rightarrow> err option \<Rightarrow> err" where
  "elapsed_err d err =
     (case err of
        Some e \<Rightarrow> WrapError (''max elapsed time '' @ duration_string d @ '' exceeded: '') e
      | None \<Rightarrow> NewError (''max elapsed time '' @ duration_string d @ '' exceeded''))"

definition RoundTrip :: "(string \<Rightarrow> int option) \<Rightarrow> round_tripper \<Rightarrow> retryRoundTripper \<Rightarrow> round_tripper" where
  "RoundTrip pt dt rt req w =
     (if \<not> canRetry rt req then roundTripOnce dt rt req w
      else
        (let (exhausted, stopErr, (resp, err), w) =
               run (rt_schedule rt) (rt_attempt pt dt rt req) (rt_pause rt req) ((None, None), w)
         in if errors_is stopErr ErrElapsed then ((None, Some (elapsed_err (rt_maxElapsedTime rt) err)), w)
            else if stopErr \<noteq> None then ((None, stopErr), w)
            else ((resp, err), w)))"

section \<open>Accounting for responses\<close>

text \<open>
  A base transport that hands out its answers in numbered slots, one for each send: \<open>outside\<close> counts
  the sends, and the body of answer \<open>k\<close> is body \<open>k\<close>, open; an answer without a response leaves its
  slot as a closed body would. It changes no other body's count of closes.
\<close>

definition numbered :: "round_tripper \<Rightarrow> bool" where
  "numbered tr \<longleftrightarrow>
     (\<forall>req w. case tr req w of
        ((r, e), w') \<Rightarrow>
          outside w' = Suc (outside w) \<and>
          (\<forall>a. a \<noteq> outside w \<longrightarrow> b_closed (bodies w' a) = b_closed (bodies w a)) \<and>
          (case r of
             None \<Rightarrow> b_closed (bodies w' (outside w)) = 1
           | Some x \<Rightarrow> Body x = Some (outside w) \<and> b_closed (bodies w' (outside w)) = 0))"

definition keeps :: "world \<Rightarrow> world \<Rightarrow> bool" where
  "keeps w w' \<longleftrightarrow> outside w' = outside w \<and> (\<forall>a. b_closed (bodies w' a) = b_closed (bodies w a))"

text \<open>Hooks that neither send nor close.\<close>

definition tame :: "retryRoundTripper \<Rightarrow> request \<Rightarrow> bool" where
  "tame rt req \<longleftrightarrow>
     (\<forall>r e w. keeps w (snd (getCheckRetry rt r e w))) \<and>
     (\<forall>h. rt_onRetry rt = Some h \<longrightarrow> (\<forall>n q r e w. keeps w (h n q r e w))) \<and>
     (\<forall>p. rt_prepareRetry rt = Some p \<longrightarrow> (\<forall>q w. keeps w (snd (p q w)))) \<and>
     (\<forall>g. GetBody req = Some g \<longrightarrow> (\<forall>w. keeps w (snd (g w))))"

definition held :: "response option \<Rightarrow> nat option" where
  "held resp = (case resp of None \<Rightarrow> None | Some r \<Rightarrow> Body r)"

text \<open>Every body answered since \<open>w0\<close> has been closed exactly once, but for the one still held; none from before has been closed.\<close>

definition ledger :: "world \<Rightarrow> world \<Rightarrow> nat option \<Rightarrow> bool" where
  "ledger w0 w open \<longleftrightarrow>
     outside w0 \<le> outside w \<and>
     (\<forall>a. outside w0 \<le> a \<and> a < outside w \<longrightarrow> b_closed (bodies w a) = (if open = Some a then 0 else 1)) \<and>
     (\<forall>a. open = Some a \<longrightarrow> outside w0 \<le> a \<and> a < outside w) \<and>
     (\<forall>a < outside w0. b_closed (bodies w a) = b_closed (bodies w0 a))"

lemma keeps_refl [simp]: "keeps w w"
  by (simp add: keeps_def)

lemma keeps_trans: "keeps w w1 \<Longrightarrow> keeps w1 w2 \<Longrightarrow> keeps w w2"
  by (simp add: keeps_def)

lemma ledger_keeps: "ledger w0 w h \<Longrightarrow> keeps w w' \<Longrightarrow> ledger w0 w' h"
  by (simp add: ledger_def keeps_def)

lemma ledger_start [simp]: "ledger w w None"
  by (simp add: ledger_def)

lemma ledger_trans:
  assumes "ledger w0 w None" and "ledger w w' h"
  shows "ledger w0 w' h"
proof -
  have old: "b_closed (bodies w' a) = b_closed (bodies w a) \<and> h \<noteq> Some a" if "a < outside w" for a
    using assms(2) that by (fastforce simp: ledger_def)
  have "b_closed (bodies w' a) = (if h = Some a then 0 else 1)" if "outside w0 \<le> a" "a < outside w'" for a
  proof (cases "a < outside w")
    case True
    with old [OF True] assms(1) that show ?thesis by (simp add: ledger_def)
  next
    case False
    with assms(2) that show ?thesis by (simp add: ledger_def)
  qed
  moreover have "outside w0 \<le> a" if "h = Some a" for a using assms that by (fastforce simp: ledger_def)
  ultimately show ?thesis using assms old by (simp add: ledger_def)
qed

lemma ledger_drain:
  assumes "ledger w0 w (held resp)"
  shows "ledger w0 (drainResp resp w) None"
proof (cases "held resp")
  case None
  then have "drainResp resp w = w" by (auto simp: held_def drainResp_def split: option.splits)
  with assms None show ?thesis by simp
next
  case (Some a)
  then have "drainResp resp w = DrainClose a w" by (auto simp: held_def drainResp_def split: option.splits)
  with assms Some show ?thesis
    by (auto simp: ledger_def world_simps) (metis DrainClose_fields(4,5) One_nat_def)
qed

lemma ledger_send:
  assumes "numbered (rt_transport dt rt)" and "ledger w0 w None" and "roundTripOnce dt rt req w = ((r, e), w')"
  shows "ledger w0 w' (held r)" "outside w' = Suc (outside w)"
proof -
  obtain e0 where t: "rt_transport dt rt req w = ((r, e0), w')"
    using assms(3) by (auto simp: roundTripOnce_def split: prod.splits)
  have n: "outside w' = Suc (outside w) \<and>
      (\<forall>a. a \<noteq> outside w \<longrightarrow> b_closed (bodies w' a) = b_closed (bodies w a)) \<and>
      (case r of
         None \<Rightarrow> b_closed (bodies w' (outside w)) = 1
       | Some x \<Rightarrow> Body x = Some (outside w) \<and> b_closed (bodies w' (outside w)) = 0)"
    using spec [OF spec [OF assms(1) [unfolded numbered_def], of req], of w] by (simp add: t)
  then show o: "outside w' = Suc (outside w)" by simp
  show "ledger w0 w' (held r)"
    using n assms(2) by (cases r) (auto simp: ledger_def held_def less_Suc_eq)
qed


section \<open>What RoundTrip keeps while it loops\<close>

definition fair :: "round_tripper \<Rightarrow> retryRoundTripper \<Rightarrow> request \<Rightarrow> bool" where
  "fair dt rt req \<longleftrightarrow> numbered (rt_transport dt rt) \<and> tame rt req"

definition answered :: "round_tripper \<Rightarrow> retryRoundTripper \<Rightarrow> response option \<Rightarrow> err option \<Rightarrow> bool" where
  "answered dt rt resp err \<longleftrightarrow> (\<exists>req w0 w1. roundTripOnce dt rt req w0 = ((resp, err), w1))"

lemma keepsI: "f w = (x, w') \<Longrightarrow> keeps w (snd (f w)) \<Longrightarrow> keeps w w'"
  by simp

lemma build_keeps:
  assumes "tame rt req" and "buildAttemptRequest rt req n w = (r, w')"
  shows "keeps w w'"
proof -
  have get: "keeps w w1" if "GetBody req = Some g" "g w = (x, w1)" for g x w w1
    using assms(1) that unfolding tame_def by (metis snd_conv)
  have prep: "keeps w w1" if "rt_prepareRetry rt = Some p" "p q w = (x, w1)" for p q x w w1
    using assms(1) that unfolding tame_def by (metis snd_conv)
  show ?thesis
    using assms(2)
    by (auto simp: buildAttemptRequest_def Let_def split: if_splits option.splits prod.splits sum.splits
        dest!: get prep intro: keeps_trans)
qed

lemma check_keeps: "tame rt req \<Longrightarrow> getCheckRetry rt r e w = (x, w') \<Longrightarrow> keeps w w'"
  unfolding tame_def by (metis snd_conv)

lemma build_first [simp]: "buildAttemptRequest rt req 0 w = (Inr req, w)"
  by (simp add: buildAttemptRequest_def)

text \<open>The ends of one attempt.\<close>

lemma rt_attempt_cases:
  assumes "rt_attempt pt dt rt req n (x, w) = ((dn, wait), (resp, err), w')"
  obtains (unbuilt) e where "buildAttemptRequest rt req n w = (Inl e, w')" "resp = None" "err = Some e" "dn" "0 < n"
    | (dropped) q w1 r e w2 b w3 where "buildAttemptRequest rt req n w = (Inr q, w1)"
      "roundTripOnce dt rt q w1 = ((r, e), w2)" "getCheckRetry rt r e w2 = (b, w3)" "resp = None" "err \<noteq> None" "dn"
      "w' = drainResp r w3"
    | (kept) q w1 w2 b where "buildAttemptRequest rt req n w = (Inr q, w1)"
      "roundTripOnce dt rt q w1 = ((resp, err), w2)" "getCheckRetry rt resp err w2 = ((\<not> dn, b), w')"
      "\<not> dn \<longrightarrow> wait = retryAfterOf pt (clock w') resp"
  using assms
  by (cases "n = 0")
     (auto simp: rt_attempt_def Let_def split: prod.splits sum.splits if_splits, metis+)

definition rt_inv :: "round_tripper \<Rightarrow> retryRoundTripper \<Rightarrow> request \<Rightarrow> world \<Rightarrow> nat \<Rightarrow> nat \<Rightarrow> nat option \<Rightarrow> world \<Rightarrow> bool" where
  "rt_inv dt rt req w0 lo hi h w \<longleftrightarrow>
     (fair dt rt req \<longrightarrow> ledger w0 w h \<and> outside w0 + lo \<le> outside w \<and> outside w \<le> outside w0 + hi)"

lemma rt_inv_frame:
  "rt_inv dt rt req w0 lo hi h w \<Longrightarrow> outside w' = outside w \<Longrightarrow> bodies w' = bodies w \<Longrightarrow> rt_inv dt rt req w0 lo hi h w'"
  by (simp add: rt_inv_def ledger_def)

lemma rt_inv_keeps: "rt_inv dt rt req w0 lo hi h w \<Longrightarrow> fair dt rt req \<Longrightarrow> keeps w w' \<Longrightarrow> rt_inv dt rt req w0 lo hi h w'"
  by (auto simp: rt_inv_def intro: ledger_keeps) (auto simp: keeps_def)

lemma rt_inv_drain: "rt_inv dt rt req w0 lo hi (held r) w \<Longrightarrow> rt_inv dt rt req w0 lo hi None (drainResp r w)"
  by (auto simp: rt_inv_def world_simps intro: ledger_drain)

lemma rt_inv_mono: "rt_inv dt rt req w0 lo hi h w \<Longrightarrow> lo' \<le> lo \<Longrightarrow> hi \<le> hi' \<Longrightarrow> rt_inv dt rt req w0 lo' hi' h w"
  by (auto simp: rt_inv_def)

lemma rt_inv_send:
  assumes "rt_inv dt rt req w0 lo hi None w" and "buildAttemptRequest rt req n w = (Inr q, w1)"
    and "roundTripOnce dt rt q w1 = ((r, e), w2)" and "getCheckRetry rt r e w2 = (b, w3)"
  shows "rt_inv dt rt req w0 (Suc lo) (Suc hi) (held r) w3"
  unfolding rt_inv_def
proof
  assume f: "fair dt rt req"
  then have num: "numbered (rt_transport dt rt)" and t: "tame rt req" by (simp_all add: fair_def)
  have "rt_inv dt rt req w0 lo hi None w1" using rt_inv_keeps [OF assms(1) f build_keeps [OF t assms(2)]] .
  then have "ledger w0 w1 None" "outside w0 + lo \<le> outside w1" "outside w1 \<le> outside w0 + hi"
    using f by (simp_all add: rt_inv_def)
  then have "rt_inv dt rt req w0 (Suc lo) (Suc hi) (held r) w2"
    using ledger_send [OF num _ assms(3)] by (auto simp: rt_inv_def)
  then have "rt_inv dt rt req w0 (Suc lo) (Suc hi) (held r) w3"
    using rt_inv_keeps [OF _ f check_keeps [OF t assms(4)]] by blast
  then show "ledger w0 w3 (held r) \<and> outside w0 + Suc lo \<le> outside w3 \<and> outside w3 \<le> outside w0 + Suc hi"
    using f by (simp add: rt_inv_def)
qed

lemma rt_attempt_inv:
  assumes "rt_inv dt rt req w0 (min n 1) n None w" and a: "rt_attempt pt dt rt req n (x, w) = ((dn, wait), (resp, err), w')"
  shows "rt_inv dt rt req w0 1 (Suc n) (held resp) w'"
  using a
proof (cases rule: rt_attempt_cases)
  case (unbuilt e)
  have "rt_inv dt rt req w0 (min n 1) n None w'"
    unfolding rt_inv_def
  proof
    assume f: "fair dt rt req"
    then have "rt_inv dt rt req w0 (min n 1) n None w'"
      using rt_inv_keeps [OF assms(1) f build_keeps [OF _ unbuilt(1)]] by (simp add: fair_def)
    with f show "ledger w0 w' None \<and> outside w0 + min n 1 \<le> outside w' \<and> outside w' \<le> outside w0 + n"
      by (simp add: rt_inv_def)
  qed
  with unbuilt show ?thesis by (auto simp: held_def intro: rt_inv_mono)
next
  case (dropped q w1 r e w2 b w3)
  then have "rt_inv dt rt req w0 (Suc (min n 1)) (Suc n) (held r) w3"
    using rt_inv_send [OF assms(1)] by blast
  then have "rt_inv dt rt req w0 (Suc (min n 1)) (Suc n) None w'"
    using dropped rt_inv_drain by blast
  with dropped show ?thesis by (auto simp: held_def intro: rt_inv_mono)
next
  case (kept q w1 w2 b)
  then have "rt_inv dt rt req w0 (Suc (min n 1)) (Suc n) (held resp) w'"
    using rt_inv_send [OF assms(1)] by blast
  then show ?thesis by (auto intro: rt_inv_mono)
qed

lemma rt_pause_inv:
  assumes "rt_inv dt rt req w0 lo hi (held resp) w" and p: "rt_pause rt req n d ((resp, err), w) = (x, w')"
  shows "rt_inv dt rt req w0 lo hi None w' \<and> x = (resp, err)"
proof -
  obtain w1 where w1: "w' = drainResp resp w1" "x = (resp, err)"
    "fair dt rt req \<longrightarrow> keeps w w1"
    using p by (auto simp: rt_pause_def fair_def tame_def split: option.splits)
  have "rt_inv dt rt req w0 lo hi (held resp) w1"
    using rt_inv_keeps [OF assms(1)] w1(3) by (auto simp: rt_inv_def)
  with w1 rt_inv_drain show ?thesis by blast
qed

definition rt_verdict :: "round_tripper \<Rightarrow> retryRoundTripper \<Rightarrow> response option \<Rightarrow> err option \<Rightarrow> bool" where
  "rt_verdict dt rt resp err \<longleftrightarrow> answered dt rt resp err \<or> resp = None \<and> err \<noteq> None"

lemma rt_attempt_verdict:
  assumes "rt_attempt pt dt rt req n (x, w) = ((dn, wait), (resp, err), w')"
  shows "rt_verdict dt rt resp err \<and> (dn \<or> answered dt rt resp err)"
  using assms by (cases rule: rt_attempt_cases) (auto simp: rt_verdict_def answered_def)

interpretation sending: loop_contract "rt_schedule rt" start "rt_attempt pt dt rt req" "rt_pause rt req"
  "\<lambda>n (x, w). rt_inv dt rt req w0 (min n 1) n None w"
  "\<lambda>n d ((resp, err), w). rt_inv dt rt req w0 1 (Suc n) (held resp) w \<and> answered dt rt resp err"
  "\<lambda>n ((resp, err), w). rt_inv dt rt req w0 1 (Suc n) None w \<and> answered dt rt resp err"
  "\<lambda>n ((resp, err), w). rt_inv dt rt req w0 1 (Suc n) (held resp) w \<and> rt_verdict dt rt resp err"
  for rt start pt dt req w0
proof (unfold_locales, goal_cases)
  case (1 n st e st')
  then show ?case
    using rt_attempt_inv rt_attempt_verdict by (fastforce split: prod.splits)
next
  case (2 n st e st')
  then show ?case
    using rt_attempt_inv rt_attempt_verdict by (fastforce split: prod.splits)
next
  case (3 n e x w)
  then show ?case by (auto simp: world_simps intro: rt_inv_frame split: prod.splits)
next
  case (4 n e st d)
  then show ?case using rt_pause_inv by (fastforce split: prod.splits)
next
  case (5 n x w d w')
  then have "outside w' = outside w" "bodies w' = bodies w"
    using SleepCtx_frame [of d w] by simp_all
  with 5 show ?case by (auto intro: rt_inv_frame split: prod.splits)
qed

section \<open>How RoundTrip ends\<close>

lemma rt_schedule_fields [simp]:
  "attempts (rt_schedule rt) =
     (if rt_maxAttempts rt = 0 then DefaultMaxAttempts else if rt_maxAttempts rt < 0 then 1 else rt_maxAttempts rt)"
  "0 < attempts (rt_schedule rt)" "0 < sint (baseDelay (rt_schedule rt))"
  "maxElapsed (rt_schedule rt) = rt_maxElapsedTime rt"
  by (auto simp: rt_schedule_def Let_def dur_simps)

lemma ctx_err_plain: "ctx_err w = Some e \<Longrightarrow> e = Canceled \<or> e = DeadlineExceeded"
  by (cases "snd (the (c_end (caller w)))") (auto simp: ctx_err_def c_err_def split: option.splits if_splits)

lemma elapsed_is [simp]: "errors_is (Some ErrElapsed) ErrElapsed"
  by (rule errors_is_node) simp

lemma ctx_err_not_elapsed: "ctx_err w = Some e \<Longrightarrow> \<not> errors_is (Some e) ErrElapsed"
  using ctx_err_plain [of w e] by (auto simp: errors_is_iff nodes_leaf is_method_def)

lemma rt_inv_start: "rt_inv dt rt req w 0 0 None w"
  by (simp add: rt_inv_def)

lemma RoundTrip_cases:
  assumes r: "RoundTrip pt dt rt req w = ((resp, err), w')"
  obtains (once) "\<not> canRetry rt req" "roundTripOnce dt rt req w = ((resp, err), w')"
    | (ended) m where "canRetry rt req" "m < nat (attempts (rt_schedule rt))" "rt_inv dt rt req w 1 (Suc m) (held resp) w'"
      "rt_verdict dt rt resp err"
    | (elapsed) m r e where "canRetry rt req" "m < nat (attempts (rt_schedule rt)) - 1" "rt_inv dt rt req w 1 (Suc m) None w'"
      "answered dt rt r e" "resp = None" "err = Some (elapsed_err (rt_maxElapsedTime rt) e)" "0 < sint (rt_maxElapsedTime rt)"
    | (stopped) m x where "canRetry rt req" "m < nat (attempts (rt_schedule rt)) - 1" "rt_inv dt rt req w 1 (Suc m) None w'"
      "resp = None" "err = Some x" "ctx_err w' = Some x"
proof (cases "canRetry rt req")
  case False
  with r once show thesis by (simp add: RoundTrip_def)
next
  case True
  obtain ex se r1 e1 w1 where
    run: "run (rt_schedule rt) (rt_attempt pt dt rt req) (rt_pause rt req) ((None, None), w) = (ex, se, (r1, e1), w1)"
    by (metis prod.exhaust)
  let ?N = "nat (attempts (rt_schedule rt))"
  have N: "Suc (?N - 1) = ?N" "0 < ?N" using rt_schedule_fields(2) [of rt] by (simp_all del: rt_schedule_fields(1))
  note def = r [unfolded RoundTrip_def run Let_def prod.case if_not_P [OF notnotD] True not_True_eq_False if_False]
  consider "ex = True" | x where "ex = False" "se = Some x" | "ex = False" "se = None" by fastforce
  then show thesis
  proof cases
    case 1
    have "se = None \<and> rt_inv dt rt req w 1 (Suc (?N - 1)) (held r1) w1 \<and> answered dt rt r1 e1"
      using sending.run_exhausted [OF run [unfolded 1], where ?w0.0 = w] rt_inv_start
      by (simp del: rt_schedule_fields(1))
    with def N True show thesis
      by (intro ended [of "?N - 1"]) (auto simp: rt_verdict_def simp del: rt_schedule_fields(1))
  next
    case 2
    obtain m w2 d where m: "m < ?N - 1" "rt_inv dt rt req w 1 (Suc m) None w2" "answered dt rt r1 e1"
      and s: "x = ErrElapsed \<and> w1 = w2 \<and> 0 < sint (rt_maxElapsedTime rt) \<or> SleepCtx d w2 = (Some x, w1)"
      using sending.run_stopped [OF run [unfolded 2], where ?w0.0 = w, unfolded sending.stopped_def] rt_inv_start
      by (auto simp del: rt_schedule_fields(1))
    from s show thesis
    proof
      assume "x = ErrElapsed \<and> w1 = w2 \<and> 0 < sint (rt_maxElapsedTime rt)"
      with m 2 def True show thesis by (intro elapsed [of m r1 e1]) auto
    next
      assume sl: "SleepCtx d w2 = (Some x, w1)"
      then have c: "ctx_err w1 = Some x" using SleepCtx_stopped by blast
      have "rt_inv dt rt req w 1 (Suc m) None w1"
        using m(2) SleepCtx_frame [of d w2] sl by (auto intro: rt_inv_frame)
      with m 2 def True c ctx_err_not_elapsed [OF c] show thesis by (intro stopped [of m x]) auto
    qed
  next
    case 3
    obtain m where "m < ?N" "rt_inv dt rt req w 1 (Suc m) (held r1) w1" "rt_verdict dt rt r1 e1"
      using sending.run_done [OF run [unfolded 3], where ?w0.0 = w] rt_inv_start
      by (auto simp del: rt_schedule_fields(1))
    with 3 def True show thesis by (intro ended [of m]) auto
  qed
qed

section \<open>Properties\<close>

text \<open>
  C18: how often a request is sent. A request whose method is not safe (unless non-idempotent replay
  is on), or whose body cannot be rewound, is sent exactly once; any other at least once and at
  most as often as the budget says, where zero means three and a negative one means one.
\<close>

theorem round_trip_send_count:
  assumes "fair dt rt req"
  shows "let sends = outside (snd (RoundTrip pt dt rt req w)) - outside w; n = rt_maxAttempts rt
         in if (Method req \<in> {'''', ''GET'', ''HEAD'', ''OPTIONS'', ''TRACE''} \<or> rt_retryNonIdempotent rt) \<and>
               (ReqBody req \<in> {NilBody, NoBody} \<or> GetBody req \<noteq> None)
            then 1 \<le> sends \<and> sends \<le> (if n = 0 then 3 else if n < 0 then 1 else nat n)
            else sends = 1"
proof -
  obtain resp err w' where r: "RoundTrip pt dt rt req w = ((resp, err), w')" by (metis prod.exhaust)
  have can: "canRetry rt req \<longleftrightarrow>
      (Method req \<in> {'''', ''GET'', ''HEAD'', ''OPTIONS'', ''TRACE''} \<or> rt_retryNonIdempotent rt) \<and>
      (ReqBody req \<in> {NilBody, NoBody} \<or> GetBody req \<noteq> None)"
    by (auto simp: canRetry_def isSafeMethod_def)
  have n: "nat (attempts (rt_schedule rt)) =
      (if rt_maxAttempts rt = 0 then 3 else if rt_maxAttempts rt < 0 then 1 else nat (rt_maxAttempts rt))"
    by simp
  have num: "numbered (rt_transport dt rt)" using assms by (simp add: fair_def)
  note inv = rt_inv_def assms
  from r have "if canRetry rt req then 1 \<le> outside w' - outside w \<and> outside w' - outside w \<le> nat (attempts (rt_schedule rt))
      else outside w' - outside w = 1"
  proof (cases rule: RoundTrip_cases)
    case once
    with ledger_send(2) [OF num ledger_start once(2)] show ?thesis by simp
  qed (auto simp: inv simp del: rt_schedule_fields(1))
  then show ?thesis unfolding Let_def r snd_conv n can .
qed

text \<open>
  C13: no response is leaked and none is closed under the caller. When \<open>RoundTrip\<close> returns, every
  body the base transport answered with during the call has been closed exactly once, but for
  the body of the response it returns, which is still open; and no body from before has been closed.
\<close>

theorem round_trip_body_ledger:
  assumes "fair dt rt req"
  shows "case RoundTrip pt dt rt req w of
    ((resp, err), w') \<Rightarrow>
      (\<forall>a. outside w \<le> a \<and> a < outside w' \<longrightarrow>
        b_closed (bodies w' a) = (if held resp = Some a then 0 else 1)) \<and>
      (\<forall>a < outside w. b_closed (bodies w' a) = b_closed (bodies w a))"
proof -
  obtain resp err w' where r: "RoundTrip pt dt rt req w = ((resp, err), w')" by (metis prod.exhaust)
  have num: "numbered (rt_transport dt rt)" using assms by (simp add: fair_def)
  from r have "ledger w w' (held resp)"
  proof (cases rule: RoundTrip_cases)
    case once
    then show ?thesis using ledger_send(1) [OF num ledger_start once(2)] by simp
  qed (auto simp: rt_inv_def assms held_def)
  with r show ?thesis by (simp add: ledger_def)
qed

text \<open>
  What \<open>RoundTrip\<close> returns: an answer of the base transport, with its bare \<open>io.EOF\<close> named as a hang-up
  and nothing else changed, so an exhausted budget gives the last response and a nil error; or
  no response and an error. In particular it returns neither a response nor an error only if
  the base transport does.
\<close>

theorem round_trip_result:
  "case RoundTrip pt dt rt req w of
     ((resp, err), w') \<Rightarrow>
       (\<exists>q w0 e0 w1. rt_transport dt rt q w0 = ((resp, e0), w1) \<and>
          err = (if e0 = Some IoEOF then Some ErrServerClosed else e0)) \<or>
       resp = None \<and> err \<noteq> None"
proof -
  have answer: "\<exists>q w0 e0 w1. rt_transport dt rt q w0 = ((r, e0), w1) \<and> e = (if e0 = Some IoEOF then Some ErrServerClosed else e0)"
    if "roundTripOnce dt rt q0 w2 = ((r, e), w3)" for q0 w2 r e w3
    using that by (auto simp: roundTripOnce_def nameHangUp_def split: prod.splits if_splits)
  obtain resp err w' where r: "RoundTrip pt dt rt req w = ((resp, err), w')" by (metis prod.exhaust)
  from r show ?thesis
  proof (cases rule: RoundTrip_cases)
    case once
    with r answer show ?thesis by simp
  next
    case (ended m)
    then consider q w0 w1 where "roundTripOnce dt rt q w0 = ((resp, err), w1)" | "resp = None \<and> err \<noteq> None"
      by (auto simp: rt_verdict_def answered_def)
    then show ?thesis
    proof cases
      case 1
      from answer [OF this] show ?thesis unfolding r prod.case by (rule disjI1)
    qed (simp add: r)
  qed (use r in auto)
qed

definition status_tripper :: "int \<Rightarrow> round_tripper" where
  "status_tripper code req w =
     ((Some \<lparr>StatusCode = code, Header = Map.empty, Body = Some (outside w)\<rparr>, None),
      w\<lparr>outside := Suc (outside w), bodies := (bodies w)(outside w := open_body ''no'' None)\<rparr>)"

definition zeroTransport :: TransportConfig where
  "zeroTransport = \<lparr>CheckRetry = None, OnRetry = None, PrepareRetry = None, MaxAttempts = 0,
     BaseDelay = 0, MaxElapsedTime = 0, RetryNonIdempotent = False\<rparr>"

definition demo_rt :: "int \<Rightarrow> retryRoundTripper" where
  "demo_rt code = NewRetryRoundTripper (status_tripper code) None zeroTransport"

lemma demo_fair: "fair dt (demo_rt code) demo_request"
  by (auto simp: fair_def numbered_def tame_def demo_rt_def NewRetryRoundTripper_def rt_transport_def
      status_tripper_def zeroTransport_def getCheckRetry_def defaultCheckRetry_def demo_request_def
      open_body_def)

theorem round_trip_send_count_witness:
  "outside (snd (RoundTrip (\<lambda>_. None) (status_tripper 503) (demo_rt 503) demo_request world0)) = 3 \<and>
   (let n = outside (snd (RoundTrip (\<lambda>_. None) (status_tripper 503) (demo_rt 503) demo_request world0))
    in 1 \<le> n \<and> n \<le> 3)"
proof
  show "outside (snd (RoundTrip (\<lambda>_. None) (status_tripper 503) (demo_rt 503) demo_request world0)) = 3"
    by code_simp
  have "Method demo_request = ''GET''" "ReqBody demo_request = NoBody" "rt_maxAttempts (demo_rt 503) = 0"
    "outside world0 = 0"
    by (simp_all add: demo_request_def demo_rt_def NewRetryRoundTripper_def zeroTransport_def world0_def)
  then show "let n = outside (snd (RoundTrip (\<lambda>_. None) (status_tripper 503) (demo_rt 503) demo_request world0))
    in 1 \<le> n \<and> n \<le> 3"
    using round_trip_send_count [OF demo_fair [of "status_tripper 503" 503], where pt = "\<lambda>_. None" and w = world0] by simp
qed

theorem round_trip_body_ledger_witness:
  "let w' = snd (RoundTrip (\<lambda>_. None) (status_tripper 503) (demo_rt 503) demo_request world0)
   in b_closed (bodies w' 0) = 1 \<and> b_closed (bodies w' 1) = 1 \<and> b_closed (bodies w' 2) = 0"
proof -
  let ?r = "RoundTrip (\<lambda>_. None) (status_tripper 503) (demo_rt 503) demo_request world0"
  have "outside (snd ?r) = 3" "held (fst (fst ?r)) = Some 2" by code_simp+
  moreover have "outside world0 = 0" by (simp add: world0_def)
  ultimately show ?thesis
    using round_trip_body_ledger [OF demo_fair [of "status_tripper 503" 503], where pt = "\<lambda>_. None" and w = world0]
    by (auto simp: case_prod_beta Let_def)
qed

text \<open>
  The verdict on an answer comes before any retry. When the policy answers an error for the
  first answer, \<open>RoundTrip\<close> drains it and returns that error; when it says not to retry, the answer
  goes back untouched, the caller's context notwithstanding; when it says to retry and that
  context has ended, the answer is drained and \<open>ctx.Err()\<close> returned. In all three nothing is
  sent again.
\<close>

theorem round_trip_verdict_on_first_answer:
  assumes "canRetry rt req" and "roundTripOnce dt rt req w = ((resp, err), w1)"
    and "getCheckRetry rt resp err w1 = ((retry, checkErr), w2)"
  shows "if checkErr \<noteq> None then RoundTrip pt dt rt req w = ((None, checkErr), drainResp resp w2)
         else if \<not> retry then RoundTrip pt dt rt req w = ((resp, err), w2)
         else if ctx_err w2 \<noteq> None then RoundTrip pt dt rt req w = ((None, ctx_err w2), drainResp resp w2)
         else True"
proof -
  obtain k where k: "nat (attempts (rt_schedule rt)) = Suc k"
    using rt_schedule_fields(2) [of rt] by (metis gr0_implies_Suc zero_less_nat_eq)
  show ?thesis
    using assms
    by (auto simp: RoundTrip_def run_def k rt_attempt_def Let_def simp del: rt_schedule_fields(1))
qed

theorem round_trip_verdict_on_first_answer_witness:
  "fst (RoundTrip (\<lambda>_. None) (status_tripper 404) (demo_rt 404) demo_request world0) =
     (Some \<lparr>StatusCode = 404, Header = Map.empty, Body = Some 0\<rparr>, None)"
proof -
  let ?w1 = "snd (status_tripper 404 demo_request world0)"
  let ?r = "Some \<lparr>StatusCode = 404, Header = Map.empty, Body = Some 0\<rparr>"
  have "canRetry (demo_rt 404) demo_request"
    by (simp add: canRetry_def isSafeMethod_def demo_request_def)
  moreover have "roundTripOnce (status_tripper 404) (demo_rt 404) demo_request world0 = ((?r, None), ?w1)"
    by (simp add: roundTripOnce_def rt_transport_def demo_rt_def NewRetryRoundTripper_def status_tripper_def world0_def)
  moreover have "getCheckRetry (demo_rt 404) ?r None ?w1 = ((False, None), ?w1)"
    by (simp add: getCheckRetry_def demo_rt_def NewRetryRoundTripper_def zeroTransport_def defaultCheckRetry_def
        retryableRoundTrip_def IsRetryableStatus_def)
  ultimately show ?thesis
    using round_trip_verdict_on_first_answer [of "demo_rt 404" demo_request "status_tripper 404" world0 ?r None ?w1 False None ?w1]
    by simp
qed

text \<open>
  The request of a retry. The first attempt sends the caller's request as it is; every later
  one has its body rewound through \<open>GetBody\<close> when there is one, differs from the caller's request
  in nothing else unless \<open>PrepareRetry\<close> changes it, and is not sent at all when rewinding or
  preparing fails: the attempt then has that failure, wrapped, for its error.
\<close>

theorem retry_request_rewound:
  "case buildAttemptRequest rt req n w of
     (Inr q, w') \<Rightarrow>
       (n = 0 \<longrightarrow> q = req \<and> w' = w) \<and>
       (0 < n \<longrightarrow> (\<exists>b w1. (case GetBody req of None \<Rightarrow> b = ReqBody req \<and> w1 = w | Some g \<Rightarrow> g w = (Inr b, w1)) \<and>
          (case rt_prepareRetry rt of
             None \<Rightarrow> q = req\<lparr>ReqBody := b\<rparr> \<and> w' = w1
           | Some p \<Rightarrow> p (req\<lparr>ReqBody := b\<rparr>) w1 = ((q, None), w'))))
   | (Inl e, w') \<Rightarrow>
       0 < n \<and>
       ((\<exists>x g. GetBody req = Some g \<and> g w = (Inl x, w') \<and> e = WrapError ''rewind request body: '' x) \<or>
        (\<exists>x p q q' w1. rt_prepareRetry rt = Some p \<and> p q w1 = ((q', Some x), w') \<and> e = WrapError ''prepare retry: '' x))"
proof (cases n)
  case 0
  then show ?thesis by simp
next
  case (Suc m)
  have id: "req\<lparr>ReqBody := ReqBody req\<rparr> = req" by simp
  show ?thesis
    using Suc
    by (auto simp: buildAttemptRequest_def Let_def id split: option.splits sum.splits prod.splits; blast?)
qed

text \<open>
  A rewound body the \<open>PrepareRetry\<close> hook then refuses to send is not closed: the attempt ends with
  the hook's error and the body \<open>GetBody\<close> opened stays as it was.
\<close>

lemma refused_retry_leaves_body_open:
  assumes "GetBody req = Some g" and "g w = (Inr (BodyAt a), w1)" and "rt_prepareRetry rt = Some p"
    and "p (req\<lparr>ReqBody := BodyAt a\<rparr>) w1 = ((q, Some e), w2)"
  shows "rt_attempt pt dt rt req (Suc n) (x, w) =
    ((True, 0), (None, Some (WrapError ''prepare retry: '' e)), w2)"
  using assms by (simp add: rt_attempt_def buildAttemptRequest_def Let_def)

end
