(* ===== verification/Hosts.thy ===== *)
theory Hosts
  imports Redaction
begin

text \<open>
  Hosts and origins (\<open>httpx.go\<close>, lines 873 to 1041): what the redirect policies compare. The first
  sections model what the package calls of the standard library: \<open>netip.ParseAddr\<close>, \<open>Hostname\<close>
  and \<open>Port\<close> of \<open>url.URL\<close>, and \<open>url.URL.String\<close> on a value that has only a scheme and a host.
  The rest is the package's own: the byte-wise lowercasing, \<open>hostKey\<close> and \<open>originKey\<close>.
\<close>

section \<open>IP literals\<close>

text \<open>The bytes of an address, and the zone of an IPv6 one (empty for none).\<close>

datatype ip_addr = V4 "nat list" | V6 "nat list" string

text \<open>\<open>parseIPv4Fields\<close>: \<open>val\<close> and \<open>digs\<close> are the value and the number of digits of the current field.\<close>

fun v4_fields :: "string \<Rightarrow> nat \<Rightarrow> nat \<Rightarrow> nat list \<Rightarrow> nat list option" where
  "v4_fields [] val digs fs = (if length fs < 3 then None else Some (fs @ [val]))"
| "v4_fields (c # cs) val digs fs =
     (if is_digit c
      then (if digs = 1 \<and> val = 0 then None
            else (let val = val * 10 + digit_val c
                  in if val > 255 then None else v4_fields cs val (digs + 1) fs))
      else if c = CHR ''.''
      then (if digs = 0 \<or> cs = [] then None
            else if length fs = 3 then None
            else v4_fields cs 0 0 (fs @ [val]))
      else None)"

definition is_hex :: "char \<Rightarrow> bool" where
  "is_hex c \<longleftrightarrow> is_digit c \<or> 97 \<le> byte_of c \<and> byte_of c \<le> 102 \<or> 65 \<le> byte_of c \<and> byte_of c \<le> 70"

definition hex_val :: "char \<Rightarrow> nat" where
  "hex_val c = (if is_digit c then digit_val c else if 97 \<le> byte_of c then byte_of c - 87 else byte_of c - 55)"

text \<open>The two bytes of a group of one to four hexadecimal digits.\<close>

definition group_bytes :: "string \<Rightarrow> nat list" where
  "group_bytes ds =
     (case replicate (4 - length ds) 0 @ map hex_val ds of
        [a, b, c, d] \<Rightarrow> [16 * a + b, 16 * c + d]
      | _ \<Rightarrow> [])"

text \<open>
  The loop of \<open>parseIPv6\<close>: the bytes so far, where the ellipsis is, and the rest of the string; the
  first argument is the number of groups there is still room for.
\<close>

fun v6_groups :: "nat \<Rightarrow> string \<Rightarrow> nat list \<Rightarrow> nat option \<Rightarrow> (string \<times> nat list \<times> nat option) option" where
  "v6_groups 0 s ip ellipsis = Some (s, ip, ellipsis)"
| "v6_groups (Suc room) s ip ellipsis =
     (let ds = takeWhile is_hex s; rest = dropWhile is_hex s
      in if ds = [] \<or> length ds > 4 then None
         else if rest \<noteq> [] \<and> hd rest = CHR ''.''
         then (if ellipsis = None \<and> length ip \<noteq> 12 then None
               else if length ip + 4 > 16 then None
               else case v4_fields s 0 0 [] of None \<Rightarrow> None | Some fs \<Rightarrow> Some ([], ip @ fs, ellipsis))
         else
           (let ip = ip @ group_bytes ds
            in case rest of
                 [] \<Rightarrow> Some ([], ip, ellipsis)
               | c # s \<Rightarrow>
                   if c \<noteq> CHR '':'' then None
                   else if s = [] then None
                   else if hd s = CHR '':''
                   then (if ellipsis \<noteq> None then None
                         else if tl s = [] then Some ([], ip, Some (length ip))
                         else v6_groups room (tl s) ip (Some (length ip)))
                   else v6_groups room s ip ellipsis))"

definition parse_v6 :: "string \<Rightarrow> ip_addr option" where
  "parse_v6 input =
     (let s = takeWhile (\<lambda>c. c \<noteq> CHR ''%'') input; zoned = dropWhile (\<lambda>c. c \<noteq> CHR ''%'') input; zone = tl zoned
      in if zoned \<noteq> [] \<and> zone = [] then None
         else
           (let body = (if prefix ''::'' s then drop 2 s else s)
            in if prefix ''::'' s \<and> body = [] then Some (V6 (replicate 16 0) zone)
               else case v6_groups 8 body [] (if prefix ''::'' s then Some 0 else None) of
                      None \<Rightarrow> None
                    | Some (rest, ip, ellipsis) \<Rightarrow>
                        if rest \<noteq> [] then None
                        else if length ip < 16
                        then (case ellipsis of
                                None \<Rightarrow> None
                              | Some at \<Rightarrow>
                                  Some (V6 (take at ip @ replicate (16 - length ip) 0 @ drop at ip) zone))
                        else if ellipsis \<noteq> None then None
                        else Some (V6 ip zone)))"

definition parse_addr :: "string \<Rightarrow> ip_addr option" where
  "parse_addr s =
     (case List.find (\<lambda>c. c \<in> {CHR ''.'', CHR '':'', CHR ''%''}) s of
        None \<Rightarrow> None
      | Some c \<Rightarrow>
          if c = CHR ''.'' then map_option V4 (v4_fields s 0 0 [])
          else if c = CHR '':'' then parse_v6 s
          else None)"

section \<open>The host part of a URL\<close>

definition valid_optional_port :: "string \<Rightarrow> bool" where
  "valid_optional_port port = (port = [] \<or> hd port = CHR '':'' \<and> list_all is_digit (tl port))"

text \<open>\<open>splitHostPort\<close>: at the last colon, if a port or nothing follows it, then the brackets off.\<close>

definition split_host_port :: "string \<Rightarrow> string \<times> string" where
  "split_host_port hp =
     (let after = rev (takeWhile (\<lambda>c. c \<noteq> CHR '':'') (rev hp));
          n = length hp - length after - 1;
          (host, port) = (if CHR '':'' \<in> set hp \<and> valid_optional_port (CHR '':'' # after)
                          then (take n hp, after) else (hp, []))
      in (if host \<noteq> [] \<and> hd host = CHR ''['' \<and> last host = CHR '']'' then butlast (tl host) else host, port))"

definition Hostname :: "go_url \<Rightarrow> string" where "Hostname u = fst (split_host_port (u_host u))"
definition Port :: "go_url \<Rightarrow> string" where "Port u = snd (split_host_port (u_host u))"

definition hex_digit :: "nat \<Rightarrow> char" where
  "hex_digit n = ''0123456789ABCDEF'' ! n"

definition host_byte_plain :: "char \<Rightarrow> bool" where
  "host_byte_plain c \<longleftrightarrow>
     is_digit c \<or> is_upper c \<or> 97 \<le> byte_of c \<and> byte_of c \<le> 122 \<or>
     byte_of c = 34 \<or> byte_of c = 39 \<or> c \<in> set ''!$&()*+,;=:[]<>-_.~''"

definition escape_host :: "string \<Rightarrow> string" where
  "escape_host s =
     concat (map (\<lambda>c. if host_byte_plain c then [c]
                      else [CHR ''%'', hex_digit (byte_of c div 16), hex_digit (byte_of c mod 16)]) s)"

text \<open>\<open>String\<close> of \<open>url.URL{Scheme: scheme, Host: host}\<close>.\<close>

definition scheme_host_string :: "string \<Rightarrow> string \<Rightarrow> string" where
  "scheme_host_string scheme host =
     (if scheme = [] then [] else scheme @ '':'') @ (if host = [] then [] else ''//'' @ escape_host host)"

section \<open>Lowercasing\<close>

text \<open>The loop of \<open>asciiLower\<close> from byte \<open>i\<close> on: \<open>b\<close> is \<open>None\<close> until an uppercase letter made a copy.\<close>

function asciiLower_loop :: "string \<Rightarrow> nat \<Rightarrow> string option \<Rightarrow> string option" where
  "asciiLower_loop s i b =
     (if i < length s
      then asciiLower_loop s (i + 1)
             (if is_upper (s ! i)
              then (let b = (case b of None \<Rightarrow> s | Some b \<Rightarrow> b) in Some (b[i := char_of (byte_of (s ! i) + 32)]))
              else b)
      else b)"
  by pat_completeness auto
termination
  by (relation "measure (\<lambda>(s, i, b). length s - i)") auto

declare asciiLower_loop.simps [simp del]

definition asciiLower :: "string \<Rightarrow> string" where
  "asciiLower s = (case asciiLower_loop s 0 None of None \<Rightarrow> s | Some b \<Rightarrow> b)"

section \<open>Host and origin keys\<close>

definition defaultPort :: "string \<Rightarrow> string" where
  "defaultPort scheme = (if scheme = ''http'' then ''80'' else if scheme = ''https'' then ''443'' else [])"

definition originOf :: "go_url option \<Rightarrow> string" where
  "originOf u =
     (case u of
        None \<Rightarrow> []
      | Some u \<Rightarrow>
          (let scheme = asciiLower (u_scheme u);
               host = Hostname u;
               host = (if CHR '':'' \<in> set host then ''['' @ host @ '']'' else host);
               port = Port u;
               host = (if port \<noteq> [] \<and> port \<noteq> defaultPort scheme then host @ '':'' @ port else host)
           in scheme_host_string scheme host))"

record hostKey =
  hk_addr :: "ip_addr option"
  hk_name :: string

definition hostKeyOf :: "string \<Rightarrow> hostKey option" where
  "hostKeyOf hostname =
     (if hostname = [] then None
      else case parse_addr hostname of
             Some addr \<Rightarrow> Some \<lparr>hk_addr = Some addr, hk_name = []\<rparr>
           | None \<Rightarrow> Some \<lparr>hk_addr = None, hk_name = asciiLower hostname\<rparr>)"

definition matchesSuffix :: "hostKey \<Rightarrow> string \<Rightarrow> bool" where
  "matchesSuffix k suf \<longleftrightarrow> hk_name k \<noteq> [] \<and> (hk_name k = tl suf \<or> suffix suf (hk_name k))"

record originKey =
  ok_host :: hostKey
  ok_scheme :: string
  ok_port :: int

definition originKeyOf :: "go_url option \<Rightarrow> originKey option" where
  "originKeyOf u =
     (case u of
        None \<Rightarrow> None
      | Some u \<Rightarrow>
          (case hostKeyOf (Hostname u) of
             None \<Rightarrow> None
           | Some host \<Rightarrow>
               (let scheme = asciiLower (u_scheme u);
                    port = Port u;
                    port = (if port = [] then defaultPort scheme else port)
                in if port = [] then Some \<lparr>ok_host = host, ok_scheme = scheme, ok_port = 0\<rparr>
                   else if dec_int port > 65535 then None
                   else Some \<lparr>ok_host = host, ok_scheme = scheme, ok_port = dec_int port\<rparr>)))"


section \<open>Lemmas\<close>

lemma asciiLower_loop_spec:
  assumes "(case b of None \<Rightarrow> s | Some b \<Rightarrow> b) = map lower_byte (take i s) @ drop i s"
  shows "(case asciiLower_loop s i b of None \<Rightarrow> s | Some b \<Rightarrow> b) = map lower_byte s"
  using assms
proof (induction s i b rule: asciiLower_loop.induct)
  case (1 s i b)
  show ?case
  proof (cases "i < length s")
    case True
    let ?b = "if is_upper (s ! i)
      then (let b = (case b of None \<Rightarrow> s | Some b \<Rightarrow> b) in Some (b[i := char_of (byte_of (s ! i) + 32)])) else b"
    have "(map lower_byte (take i s) @ drop i s)[i := lower_byte (s ! i)] =
        map lower_byte (take (Suc i) s) @ drop (Suc i) s"
      using True by (simp add: list_update_append take_Suc_conv_app_nth Cons_nth_drop_Suc [symmetric])
    moreover have "map lower_byte (take i s) @ drop i s = map lower_byte (take (Suc i) s) @ drop (Suc i) s"
      if "\<not> is_upper (s ! i)"
      using True that
      by (simp add: take_Suc_conv_app_nth Cons_nth_drop_Suc [symmetric] lower_byte_def [of "s ! i"])
    ultimately have "(case ?b of None \<Rightarrow> s | Some b \<Rightarrow> b) = map lower_byte (take (i + 1) s) @ drop (i + 1) s"
      using "1.prems" by (auto simp: Let_def lower_byte_def [of "s ! i"] split: if_splits)
    with "1.IH" [OF True] True show ?thesis by (simp add: asciiLower_loop.simps [of s i b])
  next
    case False
    with "1.prems" show ?thesis by (simp add: asciiLower_loop.simps [of s i b])
  qed
qed

lemma asciiLower_map: "asciiLower s = map lower_byte s"
  unfolding asciiLower_def by (rule asciiLower_loop_spec) simp

lemma asciiLower_simps [simp]:
  "asciiLower [] = []" "length (asciiLower s) = length s" "asciiLower (s @ t) = asciiLower s @ asciiLower t"
  "asciiLower (c # s) = lower_byte c # asciiLower s" "asciiLower s = [] \<longleftrightarrow> s = []"
  by (simp_all add: asciiLower_map)

lemma asciiLower_idem [simp]: "asciiLower (asciiLower s) = asciiLower s"
  by (simp add: asciiLower_map comp_def)

lemma lower_byte_eq_iff:
  "lower_byte c = lower_byte d \<longleftrightarrow> c = d \<or> byte_of c < 128 \<and> byte_of d < 128 \<and> lower_byte c = lower_byte d"
proof -
  have "c = d" if "lower_byte c = lower_byte d" "\<not> (byte_of c < 128 \<and> byte_of d < 128)"
  proof -
    have "byte_of (lower_byte c) = byte_of (lower_byte d)" using that(1) by simp
    then have "byte_of c = byte_of d"
      using that(2) unfolding code_lower_byte is_upper_def by (auto split: if_splits)
    then show ?thesis by (simp only: byte_of_eq_iff)
  qed
  then show ?thesis by blast
qed

lemma parse_addr_empty [simp]: "parse_addr [] = None"
  by (simp add: parse_addr_def)

lemma hostKeyOf_cases:
  "hostKeyOf h = Some k \<Longrightarrow>
     h \<noteq> [] \<and> (case parse_addr h of
                 Some a \<Rightarrow> k = \<lparr>hk_addr = Some a, hk_name = []\<rparr>
               | None \<Rightarrow> k = \<lparr>hk_addr = None, hk_name = asciiLower h\<rparr>)"
  by (auto simp: hostKeyOf_def split: if_splits option.splits)

text \<open>A key is an address or a non-empty name, never both.\<close>

lemma hostKeyOf_shape: "hostKeyOf h = Some k \<Longrightarrow> (hk_addr k = None) = (hk_name k \<noteq> [])"
  by (drule hostKeyOf_cases) (auto split: option.splits)

section \<open>Properties\<close>

text \<open>
  The copy-on-write loop of \<open>asciiLower\<close> computes the byte-wise fold of A to Z and nothing more, so two
  names are equal after it exactly when they agree byte for byte up to the case of ASCII letters;
  bytes outside ASCII are never identified with one another, valid UTF-8 or not.
\<close>

theorem asciiLower_folds_ascii_only:
  "asciiLower s = map lower_byte s \<and>
   (asciiLower s = asciiLower t \<longleftrightarrow>
      list_all2 (\<lambda>c d. c = d \<or> byte_of c < 128 \<and> byte_of d < 128 \<and> lower_byte c = lower_byte d) s t)"
proof -
  have "map lower_byte s = map lower_byte t \<longleftrightarrow> list_all2 (\<lambda>c d. lower_byte c = lower_byte d) s t"
    by (auto simp: list_eq_iff_nth_eq list_all2_conv_all_nth)
  moreover have "(\<lambda>c d. lower_byte c = lower_byte d) =
      (\<lambda>c d. c = d \<or> byte_of c < 128 \<and> byte_of d < 128 \<and> lower_byte c = lower_byte d)"
    by (intro ext) (rule lower_byte_eq_iff)
  ultimately show ?thesis by (simp only: asciiLower_map)
qed

end
