(* ===== verification/Redirects.thy ===== *)
theory Redirects
  imports Hosts
begin

text \<open>
  The redirect policies (\<open>httpx.go\<close>, lines 793 to 870, 943 to 945 and 1043 to 1271): the options, the
  compiled policy and its check, and the policies the package ships; then the chains of requests
  a client makes under a policy, as a step relation.

  A request is what a policy reads of it, its method and URL; a nil URL is \<open>None\<close>. A policy answers
  \<open>None\<close> to follow the hop, or the error that refuses it.
\<close>

section \<open>Options\<close>

record hop_request =
  hop_Method :: string
  hop_URL :: "go_url option"

type_synonym redirect_policy = "hop_request \<Rightarrow> hop_request list \<Rightarrow> err option"

record redirectCfg =
  rc_allowedHosts :: "string list"
  rc_allowedSuffixes :: "string list"
  rc_maxHops :: int
  rc_sameHost :: bool
  rc_sameOrigin :: bool
  rc_allowSchemeDowngrade :: bool
  rc_preserveMethod :: bool

datatype redirect_option =
    WithAllowedHosts "string list"
  | WithAllowedSuffixes "string list"
  | WithMaxHops int
  | WithSameHost bool
  | WithSameOrigin bool
  | WithAllowSchemeDowngrade bool
  | WithPreserveMethod bool

fun apply_redirect_option :: "redirect_option \<Rightarrow> redirectCfg \<Rightarrow> redirectCfg" where
  "apply_redirect_option (WithAllowedHosts hosts) c = c\<lparr>rc_allowedHosts := hosts\<rparr>"
| "apply_redirect_option (WithAllowedSuffixes sufs) c = c\<lparr>rc_allowedSuffixes := sufs\<rparr>"
| "apply_redirect_option (WithMaxHops n) c = c\<lparr>rc_maxHops := n\<rparr>"
| "apply_redirect_option (WithSameHost same) c = c\<lparr>rc_sameHost := same\<rparr>"
| "apply_redirect_option (WithSameOrigin same) c = c\<lparr>rc_sameOrigin := same\<rparr>"
| "apply_redirect_option (WithAllowSchemeDowngrade allow) c = c\<lparr>rc_allowSchemeDowngrade := allow\<rparr>"
| "apply_redirect_option (WithPreserveMethod preserve) c = c\<lparr>rc_preserveMethod := preserve\<rparr>"

section \<open>The checks\<close>

abbreviation redirectCap :: int where "redirectCap \<equiv> 5"

definition refuseHop :: "go_url option \<Rightarrow> RedirectReason \<Rightarrow> err" where
  "refuseHop target reason = RedirectRefusedError (originOf target) reason"

definition effectiveMethod :: "string \<Rightarrow> string" where
  "effectiveMethod m = (if m = [] then ''GET'' else m)"

definition methodChanged :: "hop_request \<Rightarrow> hop_request list \<Rightarrow> bool" where
  "methodChanged req via =
     (case via of
        [] \<Rightarrow> True
      | orig # _ \<Rightarrow> effectiveMethod (hop_Method req) \<noteq> effectiveMethod (hop_Method orig))"

definition isSchemeDowngrade :: "string \<Rightarrow> string \<Rightarrow> bool" where
  "isSchemeDowngrade from to \<longleftrightarrow> equal_fold from ''https'' \<and> equal_fold to ''http''"

definition normalizeSuffix :: "string \<Rightarrow> string option" where
  "normalizeSuffix s =
     (let s = trim_space s;
          s = (if prefix ''.'' s then s else ''.'' @ s)
      in if length s \<le> 1 then None else Some (asciiLower s))"

definition normalizeSuffixes :: "string list \<Rightarrow> string list" where
  "normalizeSuffixes sufs = List.map_filter normalizeSuffix sufs"

definition hostKeysOf :: "string list \<Rightarrow> hostKey list" where
  "hostKeysOf hosts = List.map_filter hostKeyOf hosts"

definition redirectAllowed :: "hostKey \<Rightarrow> hostKey list \<Rightarrow> string list \<Rightarrow> bool" where
  "redirectAllowed host allowedHosts normalizedSuffixes \<longleftrightarrow>
     host \<in> set allowedHosts \<or> list_ex (matchesSuffix host) normalizedSuffixes"

record resolvedRedirect =
  rr_allowedHosts :: "hostKey list"
  rr_suffixes :: "string list"
  rr_maxHops :: int
  rr_sameHost :: bool
  rr_sameOrigin :: bool
  rr_allowDowngrade :: bool
  rr_preserveMethod :: bool

definition targetAllowed :: "resolvedRedirect \<Rightarrow> go_url option \<Rightarrow> go_url option \<Rightarrow> bool" where
  "targetAllowed rp target origURL =
     (case originKeyOf target of
        None \<Rightarrow> False
      | Some to \<Rightarrow>
          (let from = originKeyOf origURL;
               onOrigHost = (case from of None \<Rightarrow> False | Some from \<Rightarrow> ok_host to = ok_host from)
           in if rr_sameOrigin rp \<and> onOrigHost then Some to = from
              else if redirectAllowed (ok_host to) (rr_allowedHosts rp) (rr_suffixes rp) then True
              else rr_sameHost rp \<and> onOrigHost))"

definition check :: "resolvedRedirect \<Rightarrow> redirect_policy" where
  "check rp req via =
     (if int (length via) > rr_maxHops rp then Some (refuseHop (hop_URL req) RedirectTooMany)
      else
        (let origURL = (case via of [] \<Rightarrow> None | orig # _ \<Rightarrow> hop_URL orig)
         in if \<not> targetAllowed rp (hop_URL req) origURL then Some (refuseHop (hop_URL req) RedirectOtherOrigin)
            else if \<not> rr_allowDowngrade rp \<and> origURL \<noteq> None \<and>
                    isSchemeDowngrade (u_scheme (the origURL)) (u_scheme (the (hop_URL req)))
            then Some (refuseHop (hop_URL req) RedirectDowngrade)
            else if rr_preserveMethod rp \<and> methodChanged req via then Some ErrUseLastResponse
            else None))"

section \<open>The shipped policies\<close>

definition RedirectPolicyFunc :: "redirect_option option list \<Rightarrow> redirect_policy" where
  "RedirectPolicyFunc opts =
     (let cfg = fold (\<lambda>opt c. case opt of None \<Rightarrow> c | Some opt \<Rightarrow> apply_redirect_option opt c) opts
                  \<lparr>rc_allowedHosts = [], rc_allowedSuffixes = [], rc_maxHops = 0, rc_sameHost = False,
                   rc_sameOrigin = False, rc_allowSchemeDowngrade = False, rc_preserveMethod = False\<rparr>
      in if rc_allowedHosts cfg = [] \<and> rc_allowedSuffixes cfg = [] \<and> \<not> rc_sameHost cfg \<and> \<not> rc_sameOrigin cfg
         then (\<lambda>req via. Some (refuseHop (hop_URL req) RedirectNotAllowed))
         else
           (let maxHops = (if rc_maxHops cfg \<le> 0 then redirectCap else rc_maxHops cfg)
            in check \<lparr>rr_allowedHosts = hostKeysOf (rc_allowedHosts cfg),
                      rr_suffixes = normalizeSuffixes (rc_allowedSuffixes cfg), rr_maxHops = maxHops,
                      rr_sameHost = rc_sameHost cfg, rr_sameOrigin = rc_sameOrigin cfg,
                      rr_allowDowngrade = rc_allowSchemeDowngrade cfg,
                      rr_preserveMethod = rc_preserveMethod cfg\<rparr>))"

definition defaultRedirectPolicy :: redirect_policy where
  "defaultRedirectPolicy = RedirectPolicyFunc [Some (WithSameHost True)]"

definition DefaultRedirectPolicy :: redirect_policy where
  "DefaultRedirectPolicy req via = (if via = [] then None else defaultRedirectPolicy req via)"

definition isDockerGitHubHost :: "hostKey \<Rightarrow> bool" where
  "isDockerGitHubHost k \<longleftrightarrow>
     hk_name k = ''github.com'' \<or> suffix ''.docker.com'' (hk_name k) \<or>
     suffix ''.github.com'' (hk_name k) \<or> suffix ''.githubusercontent.com'' (hk_name k)"

definition DockerGitHubRedirectPolicy :: redirect_policy where
  "DockerGitHubRedirectPolicy req via =
     (if int (length via) > redirectCap then Some (refuseHop (hop_URL req) RedirectTooMany)
      else if (case originKeyOf (hop_URL req) of None \<Rightarrow> True | Some to \<Rightarrow> \<not> isDockerGitHubHost (ok_host to))
      then Some (refuseHop (hop_URL req) RedirectOtherOrigin)
      else if (case via of
                 orig # _ \<Rightarrow>
                   (case hop_URL orig of
                      Some o_url \<Rightarrow> isSchemeDowngrade (u_scheme o_url) (u_scheme (the (hop_URL req)))
                    | None \<Rightarrow> False)
               | [] \<Rightarrow> False)
      then Some (refuseHop (hop_URL req) RedirectDowngrade)
      else None)"

definition RefuseAllRedirects :: redirect_policy where
  "RefuseAllRedirects req via = Some ErrUseLastResponse"

section \<open>Chains of requests\<close>

text \<open>
  The requests one call of a client sends under a policy, oldest first: each further one is a hop
  the policy was asked about with all the requests so far, and followed.
\<close>

inductive hops :: "redirect_policy \<Rightarrow> hop_request \<Rightarrow> hop_request list \<Rightarrow> bool"
  for policy :: redirect_policy and orig :: hop_request
where
  hops_first: "hops policy orig [orig]"
| hops_follow: "hops policy orig via \<Longrightarrow> policy req via = None \<Longrightarrow> hops policy orig (via @ [req])"

inductive_cases hops_emptyE: "hops policy orig []"
inductive_cases hops_snocE: "hops policy orig (via @ [req])"

declare hops_first [simp, intro]

lemma hops_nil [simp]: "\<not> hops policy orig []"
  by (blast elim: hops_emptyE)

lemma hops_snoc [simp]: "hops policy orig (v # via @ [req]) \<longleftrightarrow> hops policy orig (v # via) \<and> policy req (v # via) = None"
proof
  assume "hops policy orig (v # via @ [req])"
  then have "hops policy orig ((v # via) @ [req])" by simp
  then show "hops policy orig (v # via) \<and> policy req (v # via) = None" by (cases rule: hops_snocE) auto
qed (use hops_follow [of policy orig "v # via" req] in simp)

lemma hops_hd: "hops policy orig via \<Longrightarrow> via \<noteq> [] \<and> hd via = orig"
  by (induction rule: hops.induct) auto

lemma hops_via: "hops policy orig via \<Longrightarrow> \<exists>rest. via = orig # rest"
  using hops_hd [of policy orig via] by (cases via) auto

text \<open>Every request but the first was followed with the requests before it.\<close>

lemma hops_followed:
  "hops policy orig via \<Longrightarrow> 0 < i \<Longrightarrow> i < length via \<Longrightarrow>
     policy (via ! i) (take i via) = None \<and> hops policy orig (take i via)"
proof (induction arbitrary: i rule: hops.induct)
  case (hops_follow via req)
  then show ?case by (cases "i = length via") (auto simp: nth_append)
qed simp

section \<open>The contract of a policy\<close>

definition downgrades :: "hop_request \<Rightarrow> hop_request \<Rightarrow> bool" where
  "downgrades orig req \<longleftrightarrow>
     (case (hop_URL orig, hop_URL req) of
        (Some f, Some t) \<Rightarrow> isSchemeDowngrade (u_scheme f) (u_scheme t)
      | _ \<Rightarrow> False)"

locale redirect_contract =
  fixes policy :: redirect_policy and cap :: int
  assumes capped: "policy req (orig # rest) = None \<Longrightarrow> int (length (orig # rest)) \<le> cap"
    and no_downgrade: "policy req (orig # rest) = None \<Longrightarrow> \<not> downgrades orig req"
begin

lemma chain_length: "hops policy orig via \<Longrightarrow> int (length via) \<le> max 1 (cap + 1)"
proof (induction rule: hops.induct)
  case (hops_follow via req)
  then obtain rest where "via = orig # rest" using hops_via by blast
  with capped [of req orig rest] hops_follow show ?case by simp
qed simp

lemma chain_cleartext: "hops policy orig via \<Longrightarrow> req \<in> set (tl via) \<Longrightarrow> \<not> downgrades orig req"
proof (induction rule: hops.induct)
  case (hops_follow via r)
  then obtain rest where "via = orig # rest" using hops_via by blast
  with no_downgrade [of r orig rest] hops_follow show ?case by auto
qed simp

lemma chain_ends: "wf {(via @ [req], via) | via req. hops policy orig (via @ [req])}"
  (is "wf ?r")
proof (rule wf_subset)
  show "wf (measure (\<lambda>via. nat (max 1 (cap + 1)) - length via))" by simp
  show "?r \<subseteq> measure (\<lambda>via. nat (max 1 (cap + 1)) - length via)"
    using chain_length by fastforce
qed

end


text \<open>A policy that ties every hop to the original request by a relation.\<close>

locale anchored_policy = redirect_contract +
  fixes rel :: "hop_request \<Rightarrow> hop_request \<Rightarrow> bool"
  assumes anchored: "policy req (orig # rest) = None \<Longrightarrow> rel orig req"
begin

lemma chain_anchored: "hops policy orig via \<Longrightarrow> req \<in> set (tl via) \<Longrightarrow> rel orig req"
proof (induction rule: hops.induct)
  case (hops_follow via r)
  then obtain rest where "via = orig # rest" using hops_via by blast
  with anchored [of r orig rest] hops_follow show ?case by auto
qed simp

end

section \<open>What a followed hop tells\<close>

definition same_host :: "hop_request \<Rightarrow> hop_request \<Rightarrow> bool" where
  "same_host orig req \<longleftrightarrow>
     (case (originKeyOf (hop_URL orig), originKeyOf (hop_URL req)) of
        (Some a, Some b) \<Rightarrow> ok_host a = ok_host b
      | _ \<Rightarrow> False)"

definition same_origin :: "hop_request \<Rightarrow> hop_request \<Rightarrow> bool" where
  "same_origin orig req \<longleftrightarrow> originKeyOf (hop_URL req) \<noteq> None \<and> originKeyOf (hop_URL req) = originKeyOf (hop_URL orig)"

lemma originKeyOf_None [simp]: "originKeyOf None = None"
  by (simp add: originKeyOf_def)

lemma check_follow:
  assumes "check rp req (orig # rest) = None"
  shows "int (length (orig # rest)) \<le> rr_maxHops rp" "targetAllowed rp (hop_URL req) (hop_URL orig)"
    "rr_allowDowngrade rp \<or> \<not> downgrades orig req"
    "rr_preserveMethod rp \<longrightarrow> effectiveMethod (hop_Method req) = effectiveMethod (hop_Method orig)"
  using assms
  by (auto simp: check_def Let_def downgrades_def methodChanged_def split: if_splits option.splits)

lemma targetAllowed_cases:
  assumes "targetAllowed rp (hop_URL req) (hop_URL orig)"
  obtains (origin) "rr_sameOrigin rp" "same_origin orig req"
    | (listed) to where "originKeyOf (hop_URL req) = Some to" "redirectAllowed (ok_host to) (rr_allowedHosts rp) (rr_suffixes rp)"
    | (host) "rr_sameHost rp" "same_host orig req"
  using assms
  by (auto simp: targetAllowed_def Let_def same_origin_def same_host_def split: option.splits if_splits)

lemma default_check:
  "DefaultRedirectPolicy req (orig # rest) =
     check \<lparr>rr_allowedHosts = [], rr_suffixes = [], rr_maxHops = 5, rr_sameHost = True, rr_sameOrigin = False,
            rr_allowDowngrade = False, rr_preserveMethod = False\<rparr> req (orig # rest)"
  by (simp add: DefaultRedirectPolicy_def defaultRedirectPolicy_def RedirectPolicyFunc_def hostKeysOf_def
      normalizeSuffixes_def map_filter_def)

definition same_origin_policy :: redirect_policy where
  "same_origin_policy = RedirectPolicyFunc [Some (WithSameOrigin True)]"

lemma same_origin_check:
  "same_origin_policy =
     check \<lparr>rr_allowedHosts = [], rr_suffixes = [], rr_maxHops = 5, rr_sameHost = False, rr_sameOrigin = True,
            rr_allowDowngrade = False, rr_preserveMethod = False\<rparr>"
  by (simp add: same_origin_policy_def RedirectPolicyFunc_def hostKeysOf_def normalizeSuffixes_def map_filter_def)

lemma nothing_allowed [simp]: "\<not> redirectAllowed h [] []"
  by (simp add: redirectAllowed_def)

interpretation default_chain: anchored_policy DefaultRedirectPolicy 5 same_host
proof (unfold_locales, goal_cases)
  case (1 req orig rest)
  from check_follow(1) [OF 1 [unfolded default_check]] show ?case by simp
next
  case (2 req orig rest)
  from check_follow(3) [OF 2 [unfolded default_check]] show ?case by simp
next
  case (3 req orig rest)
  then have "targetAllowed \<lparr>rr_allowedHosts = [], rr_suffixes = [], rr_maxHops = 5, rr_sameHost = True, rr_sameOrigin = False,
            rr_allowDowngrade = False, rr_preserveMethod = False\<rparr> (hop_URL req) (hop_URL orig)"
    unfolding default_check by (rule check_follow(2))
  then show ?case by (cases rule: targetAllowed_cases) simp_all
qed

interpretation origin_chain: anchored_policy same_origin_policy 5 same_origin
proof (unfold_locales, goal_cases)
  case (1 req orig rest)
  from check_follow(1) [OF 1 [unfolded same_origin_check]] show ?case by simp
next
  case (2 req orig rest)
  from check_follow(3) [OF 2 [unfolded same_origin_check]] show ?case by simp
next
  case (3 req orig rest)
  then have "targetAllowed \<lparr>rr_allowedHosts = [], rr_suffixes = [], rr_maxHops = 5, rr_sameHost = False, rr_sameOrigin = True,
            rr_allowDowngrade = False, rr_preserveMethod = False\<rparr> (hop_URL req) (hop_URL orig)"
    unfolding same_origin_check by (rule check_follow(2))
  then show ?case by (cases rule: targetAllowed_cases) simp_all
qed

text \<open>Any compiled policy that does not allow downgrades, and any that preserves the method.\<close>

interpretation secure_chain: redirect_contract "check (rp\<lparr>rr_allowDowngrade := False\<rparr>)" "rr_maxHops rp" for rp
proof (unfold_locales, goal_cases)
  case (1 req orig rest)
  from check_follow(1) [OF 1] show ?case by simp
next
  case (2 req orig rest)
  from check_follow(3) [OF 2] show ?case by simp
qed

interpretation method_chain: anchored_policy "check (rp\<lparr>rr_allowDowngrade := False, rr_preserveMethod := True\<rparr>)" "rr_maxHops rp"
  "\<lambda>orig req. effectiveMethod (hop_Method req) = effectiveMethod (hop_Method orig)" for rp
proof (unfold_locales, goal_cases)
  case (1 req orig rest)
  from check_follow(1) [OF 1] show ?case by simp
next
  case (2 req orig rest)
  from check_follow(3) [OF 2] show ?case by simp
next
  case (3 req orig rest)
  from check_follow(4) [OF 3] show ?case by simp
qed

interpretation docker_chain: anchored_policy DockerGitHubRedirectPolicy 5
  "\<lambda>orig req. \<exists>to. originKeyOf (hop_URL req) = Some to \<and> isDockerGitHubHost (ok_host to)"
proof (unfold_locales, goal_cases)
  case (1 req orig rest)
  then show ?case by (auto simp: DockerGitHubRedirectPolicy_def split: if_splits)
next
  case (2 req orig rest)
  then show ?case
    by (auto simp: DockerGitHubRedirectPolicy_def downgrades_def split: if_splits option.splits)
next
  case (3 req orig rest)
  then show ?case by (auto simp: DockerGitHubRedirectPolicy_def split: if_splits option.splits)
qed

interpretation refusing_chain: redirect_contract RefuseAllRedirects 0
  by unfold_locales (simp_all add: RefuseAllRedirects_def)

section \<open>Suffixes\<close>

lemma lower_dot [simp]: "lower_byte c = CHR ''.'' \<longleftrightarrow> c = CHR ''.''"
  by (subst (1 2) byte_of_eq_iff [symmetric], simp only: code_lower_byte) (auto simp: is_upper_def)

text \<open>A name is in a domain when it is the domain or ends with it at a label boundary.\<close>

definition in_domain :: "string \<Rightarrow> string \<Rightarrow> bool" where
  "in_domain d name \<longleftrightarrow> d \<noteq> [] \<and> (name = d \<or> (\<exists>p. name = p @ ''.'' @ d))"

text \<open>The domain an entry of the suffix list stands for: trimmed, one leading dot off, lowercased.\<close>

definition suffix_domain :: "string \<Rightarrow> string" where
  "suffix_domain x =
     (let s = trim_space x in asciiLower (if prefix ''.'' s then tl s else s))"

lemma normalizeSuffix_domain: "normalizeSuffix x = Some s \<Longrightarrow> s = CHR ''.'' # suffix_domain x \<and> suffix_domain x \<noteq> []"
  by (auto simp: normalizeSuffix_def suffix_domain_def Let_def prefix_def split: if_splits)

lemma matchesSuffix_domain:
  "normalizeSuffix x = Some s \<Longrightarrow> matchesSuffix k s \<Longrightarrow> in_domain (suffix_domain x) (hk_name k)"
  by (drule normalizeSuffix_domain) (auto simp: matchesSuffix_def in_domain_def suffix_def)

lemma redirectAllowed_cases:
  "redirectAllowed k (hostKeysOf hs) (normalizeSuffixes ss) \<Longrightarrow>
     (\<exists>h \<in> set hs. hostKeyOf h = Some k) \<or> (\<exists>x \<in> set ss. in_domain (suffix_domain x) (hk_name k))"
  by (auto simp: redirectAllowed_def hostKeysOf_def normalizeSuffixes_def map_filter_def list_ex_iff
)
     (metis matchesSuffix_domain)

lemma originKeyOf_host: "originKeyOf (Some u) = Some k \<Longrightarrow> hostKeyOf (Hostname u) = Some (ok_host k)"
  by (auto simp: originKeyOf_def Let_def split: option.splits if_splits)

lemma hops_two: "policy req [orig] = None \<Longrightarrow> hops policy orig [orig, req]"
  using hops_snoc [of policy orig orig "[]" req] by simp

text \<open>Of the target's URL a policy reads the origin and the scheme.\<close>

lemma check_reads_origin:
  assumes "originOf (Some v) = originOf (Some u)" and "originKeyOf (Some v) = originKeyOf (Some u)"
    and "u_scheme v = u_scheme u"
  shows "check rp \<lparr>hop_Method = m, hop_URL = Some u\<rparr> via = check rp \<lparr>hop_Method = m, hop_URL = Some v\<rparr> via"
  using assms by (auto simp: check_def refuseHop_def targetAllowed_def methodChanged_def Let_def split: list.splits)

lemma policy_reads_origin:
  assumes "originOf (Some v) = originOf (Some u)" and "originKeyOf (Some v) = originKeyOf (Some u)"
    and "u_scheme v = u_scheme u"
  shows "RedirectPolicyFunc opts \<lparr>hop_Method = m, hop_URL = Some u\<rparr> via =
    RedirectPolicyFunc opts \<lparr>hop_Method = m, hop_URL = Some v\<rparr> via"
  using assms(1) check_reads_origin [OF assms]
  by (auto simp: RedirectPolicyFunc_def refuseHop_def Let_def)

section \<open>Properties\<close>

definition hop_to :: "string \<Rightarrow> string \<Rightarrow> hop_request" where
  "hop_to scheme host = \<lparr>hop_Method = ''GET'',
     hop_URL = Some \<lparr>u_scheme = scheme, u_opaque = [], u_user = None, u_host = host, u_path = ''/p'', u_raw_path = [],
       u_force_query = False, u_raw_query = [], u_fragment = [], u_raw_fragment = []\<rparr>\<rparr>"

text \<open>
  Under \<open>DefaultRedirectPolicy\<close> a client never leaves the host it was sent to. However the
  servers answer, each request of the chain has the original's host (a name up to ASCII case, an IP
  literal by address and zone), none is in the clear when the original was over TLS, and there are
  at most six requests.
\<close>

theorem default_chain_stays_on_host:
  assumes "hops DefaultRedirectPolicy orig via"
  shows "length via \<le> 6 \<and> (\<forall>req \<in> set (tl via). same_host orig req \<and> \<not> downgrades orig req)"
  using default_chain.chain_length [OF assms] default_chain.chain_anchored [OF assms]
    default_chain.chain_cleartext [OF assms]
  by simp

theorem default_chain_stays_on_host_witness:
  "hops DefaultRedirectPolicy (hop_to ''http'' ''Example.com'') [hop_to ''http'' ''Example.com'', hop_to ''https'' ''example.COM:8443''] \<and>
   same_host (hop_to ''http'' ''Example.com'') (hop_to ''https'' ''example.COM:8443'')"
proof -
  have f: "DefaultRedirectPolicy (hop_to ''https'' ''example.COM:8443'') [hop_to ''http'' ''Example.com''] = None"
    by code_simp
  have h: "hops DefaultRedirectPolicy (hop_to ''http'' ''Example.com'')
      [hop_to ''http'' ''Example.com'', hop_to ''https'' ''example.COM:8443'']"
    by (rule hops_two) (rule f)
  with default_chain_stays_on_host [OF h] show ?thesis by simp
qed

text \<open>
  Under \<open>WithSameOrigin\<close> alone every request of a chain has the original's scheme, host and
  effective port, so a custom credential header never reaches another service on the host.
\<close>

theorem same_origin_chain_stays_on_origin:
  assumes "hops same_origin_policy orig via" and "req \<in> set (tl via)"
  shows "same_origin orig req \<and> length via \<le> 6"
  using origin_chain.chain_anchored [OF assms] origin_chain.chain_length [OF assms(1)] by simp

theorem same_origin_chain_stays_on_origin_witness:
  "same_origin (hop_to ''https'' ''h'') (hop_to ''HTTPS'' ''H:443'') \<and>
   same_origin_policy (hop_to ''https'' ''h:8443'') [hop_to ''https'' ''h''] =
     Some (RedirectRefusedError ''https://h:8443'' RedirectOtherOrigin)"
proof
  have f: "same_origin_policy (hop_to ''HTTPS'' ''H:443'') [hop_to ''https'' ''h''] = None" by code_simp
  have "hops same_origin_policy (hop_to ''https'' ''h'') [hop_to ''https'' ''h'', hop_to ''HTTPS'' ''H:443'']"
    by (rule hops_two) (rule f)
  from same_origin_chain_stays_on_origin [OF this] show "same_origin (hop_to ''https'' ''h'') (hop_to ''HTTPS'' ''H:443'')"
    by simp
  show "same_origin_policy (hop_to ''https'' ''h:8443'') [hop_to ''https'' ''h''] =
     Some (RedirectRefusedError ''https://h:8443'' RedirectOtherOrigin)" by code_simp
qed

text \<open>
  No redirect loop. Under each shipped policy, and under any compiled one that refuses downgrades,
  extending a chain by a followed hop is a well-founded relation: every chain ends.
\<close>

theorem redirect_chains_end:
  "wf {(via @ [req], via) | via req. hops DefaultRedirectPolicy orig (via @ [req])} \<and>
   wf {(via @ [req], via) | via req. hops DockerGitHubRedirectPolicy orig (via @ [req])} \<and>
   wf {(via @ [req], via) | via req. hops RefuseAllRedirects orig (via @ [req])} \<and>
   wf {(via @ [req], via) | via req. hops (check (rp\<lparr>rr_allowDowngrade := False\<rparr>)) orig (via @ [req])}"
  by (intro conjI default_chain.chain_ends docker_chain.chain_ends refusing_chain.chain_ends secure_chain.chain_ends)

text \<open>
  An allowlist grants its entries and nothing near them. A hop a policy of allowed hosts and
  suffixes follows goes to a host with the key of a listed one, or to a name in the domain of a
  listed suffix: the domain itself or a name that ends with it at a label boundary, whether the
  suffix was written with its dot or without. An IP literal matches no suffix.
\<close>

theorem allowlist_grants_only_its_entries:
  assumes "RedirectPolicyFunc [Some (WithAllowedHosts hs), Some (WithAllowedSuffixes ss)] req via = None"
  shows "\<exists>u k. hop_URL req = Some u \<and> hostKeyOf (Hostname u) = Some k \<and>
      ((\<exists>h \<in> set hs. hostKeyOf h = Some k) \<or>
       (\<exists>x \<in> set ss. hk_addr k = None \<and> in_domain (suffix_domain x) (hk_name k)))"
proof (rule ccontr)
  let ?rp = "\<lparr>rr_allowedHosts = hostKeysOf hs, rr_suffixes = normalizeSuffixes ss, rr_maxHops = 5, rr_sameHost = False,
    rr_sameOrigin = False, rr_allowDowngrade = False, rr_preserveMethod = False\<rparr>"
  assume no: "\<not> ?thesis"
  have "\<not> redirectAllowed (ok_host to) (hostKeysOf hs) (normalizeSuffixes ss)"
    if "originKeyOf (hop_URL req) = Some to" for to
    using no that redirectAllowed_cases [of "ok_host to" hs ss] hostKeyOf_shape
    by (cases "hop_URL req") (fastforce simp: in_domain_def dest: originKeyOf_host)+
  then have "\<not> targetAllowed ?rp (hop_URL req) from" for "from"
    by (auto simp: targetAllowed_def Let_def split: option.splits)
  then have "check ?rp req via \<noteq> None" by (simp add: check_def Let_def)
  with assms show False by (simp add: RedirectPolicyFunc_def Let_def split: if_splits)
qed

theorem allowlist_grants_only_its_entries_witness:
  "\<exists>u k. hop_URL (hop_to ''https'' ''api.Example.com'') = Some u \<and> hostKeyOf (Hostname u) = Some k \<and>
     in_domain ''example.com'' (hk_name k)"
proof -
  have f: "RedirectPolicyFunc [Some (WithAllowedHosts [''h'']), Some (WithAllowedSuffixes [''Example.com''])]
      (hop_to ''https'' ''api.Example.com'') [hop_to ''https'' ''h''] = None" by code_simp
  have d: "suffix_domain ''Example.com'' = ''example.com''" by code_simp
  have n: "hostKeyOf (Hostname (the (hop_URL (hop_to ''https'' ''api.Example.com'')))) \<noteq> hostKeyOf ''h''" by code_simp
  show ?thesis
    using allowlist_grants_only_its_entries [OF f] d n by auto
qed

text \<open>
  A policy neither acts on nor reveals what a redirect target carries beside its origin. For any options the
  verdict on a hop, refusal text included, is the same whatever the target's userinfo, path,
  query and fragment are.
\<close>

theorem verdict_ignores_credentials:
  "RedirectPolicyFunc opts \<lparr>hop_Method = m, hop_URL = Some u\<rparr> via =
   RedirectPolicyFunc opts
     \<lparr>hop_Method = m,
      hop_URL = Some (u\<lparr>u_user := user, u_opaque := opaque, u_path := path, u_raw_path := raw, u_force_query := b,
                        u_raw_query := query, u_fragment := frag, u_raw_fragment := rawfrag\<rparr>)\<rparr> via"
proof -
  let ?v = "u\<lparr>u_user := user, u_opaque := opaque, u_path := path, u_raw_path := raw, u_force_query := b,
              u_raw_query := query, u_fragment := frag, u_raw_fragment := rawfrag\<rparr>"
  have "originOf (Some ?v) = originOf (Some u)" "originKeyOf (Some ?v) = originKeyOf (Some u)"
    by (simp_all add: originOf_def originKeyOf_def Hostname_def Port_def Let_def split: option.split)
  then show ?thesis by (rule policy_reads_origin) simp
qed

section \<open>Where the comments and the code part\<close>

text \<open>The comment on \<open>isSchemeDowngrade\<close> says ASCII case-insensitive; the code folds Unicode, so a scheme with
  a long s counts as \<open>https\<close>.\<close>

lemma unicode_scheme_counts_as_https:
  "isSchemeDowngrade (''http'' @ [CHR 0xC5, CHR 0xBF]) ''http'' \<and>
   asciiLower (''http'' @ [CHR 0xC5, CHR 0xBF]) \<noteq> ''https''"
  by code_simp

text \<open>\<open>DockerGitHubRedirectPolicy\<close> follows to the name \<open>github.com\<close> but not to the name \<open>docker.com\<close>.\<close>

lemma docker_apex_refused:
  "DockerGitHubRedirectPolicy (hop_to ''https'' ''github.com'') [hop_to ''https'' ''h''] = None \<and>
   DockerGitHubRedirectPolicy (hop_to ''https'' ''docker.com'') [hop_to ''https'' ''h''] =
     Some (RedirectRefusedError ''https://docker.com'' RedirectOtherOrigin)"
  by code_simp

end
