(* ===== verification/Clients.thy ===== *)
theory Clients
  imports Transport Redirects
begin

text \<open>
  The client constructors, \<open>NewClient\<close> (\<open>httpx.go\<close>, 1285 to 1290) and \<open>NewRetryClient\<close>
  (\<open>roundtripper.go\<close>, 269 to 277), and how the retry doors and the redirect policies meet in the
  client they build: \<open>net/http\<close>'s client calls its transport once for each request of a
  redirect chain and reports a refused hop as a \<open>url.Error\<close> around the policy's error.
\<close>

section \<open>The constructors\<close>

record http_client =
  cl_Timeout :: duration
  cl_Transport :: "round_tripper option"
  cl_CheckRedirect :: "redirect_policy option"

definition NewClient :: "duration \<Rightarrow> http_client" where
  "NewClient timeout =
     \<lparr>cl_Timeout = timeout, cl_Transport = None, cl_CheckRedirect = Some DefaultRedirectPolicy\<rparr>"

text \<open>\<open>None\<close> is the panic on a nil policy. The first two arguments are \<open>http.ParseTime\<close> and
  \<open>http.DefaultTransport\<close>.\<close>

definition NewRetryClient ::
  "(string \<Rightarrow> int option) \<Rightarrow> round_tripper \<Rightarrow> round_tripper option \<Rightarrow> redirect_policy option \<Rightarrow> TransportConfig
     \<Rightarrow> http_client option" where
  "NewRetryClient pt dt base policy cfg =
     (if policy = None then None
      else Some \<lparr>cl_Timeout = 0, cl_Transport = Some (RoundTrip pt dt (NewRetryRoundTripper dt base cfg)),
                 cl_CheckRedirect = policy\<rparr>)"

section \<open>One call of a client\<close>

text \<open>What a policy sees of a request.\<close>

definition hop_of :: "request \<Rightarrow> hop_request" where
  "hop_of req = \<lparr>hop_Method = Method req, hop_URL = Some (URL req)\<rparr>"

text \<open>The transport is called once for each request of the chain, in order.\<close>

fun send_all :: "round_tripper \<Rightarrow> request list \<Rightarrow> world \<Rightarrow> world" where
  "send_all tr [] w = w"
| "send_all tr (req # reqs) w = send_all tr reqs (snd (tr req w))"

definition send_budget :: "TransportConfig \<Rightarrow> nat" where
  "send_budget cfg = (if MaxAttempts cfg = 0 then 3 else if MaxAttempts cfg < 0 then 1 else nat (MaxAttempts cfg))"

lemma one_request_budget:
  assumes "fair dt (NewRetryRoundTripper dt base cfg) req"
  shows "outside (snd (RoundTrip pt dt (NewRetryRoundTripper dt base cfg) req w)) \<le> outside w + send_budget cfg"
proof -
  obtain resp err w' where r: "RoundTrip pt dt (NewRetryRoundTripper dt base cfg) req w = ((resp, err), w')"
    by (metis prod.exhaust)
  let ?rt = "NewRetryRoundTripper dt base cfg"
  have num: "numbered (rt_transport dt ?rt)" using assms by (simp add: fair_def)
  have b: "nat (attempts (rt_schedule ?rt)) = send_budget cfg"
    by (simp add: send_budget_def NewRetryRoundTripper_def)
  have one: "1 \<le> send_budget cfg" by (auto simp: send_budget_def)
  from r have "outside w' \<le> outside w + send_budget cfg"
  proof (cases rule: RoundTrip_cases)
    case once
    with ledger_send(2) [OF num ledger_start once(2)] one show ?thesis by simp
  qed (use assms b in \<open>auto simp: rt_inv_def simp del: rt_schedule_fields(1)\<close>)
  with r show ?thesis by simp
qed

lemma chain_budget:
  "\<forall>req \<in> set reqs. fair dt (NewRetryRoundTripper dt base cfg) req \<Longrightarrow>
     outside (send_all (RoundTrip pt dt (NewRetryRoundTripper dt base cfg)) reqs w) \<le> outside w + length reqs * send_budget cfg"
proof (induction reqs arbitrary: w)
  case (Cons req reqs)
  let ?w = "snd (RoundTrip pt dt (NewRetryRoundTripper dt base cfg) req w)"
  have "outside ?w \<le> outside w + send_budget cfg" using Cons.prems by (simp add: one_request_budget)
  moreover have "outside (send_all (RoundTrip pt dt (NewRetryRoundTripper dt base cfg)) reqs ?w)
      \<le> outside ?w + length reqs * send_budget cfg"
    using Cons.prems by (intro Cons.IH) simp
  ultimately show ?case by simp
qed simp

section \<open>Refusals\<close>

definition is_refusal :: "err \<Rightarrow> bool" where
  "is_refusal e \<longleftrightarrow> (\<exists>o' why. e = RedirectRefusedError o' why)"

lemma check_refusal: "check rp req via = Some e \<Longrightarrow> e = ErrUseLastResponse \<or> is_refusal e"
  by (auto simp: check_def refuseHop_def is_refusal_def Let_def split: if_splits)

lemma policy_refusal: "RedirectPolicyFunc opts req via = Some e \<Longrightarrow> e = ErrUseLastResponse \<or> is_refusal e"
  by (auto simp: RedirectPolicyFunc_def Let_def refuseHop_def is_refusal_def split: if_splits dest: check_refusal)

lemma docker_refusal: "DockerGitHubRedirectPolicy req via = Some e \<Longrightarrow> is_refusal e"
  by (auto simp: DockerGitHubRedirectPolicy_def refuseHop_def is_refusal_def split: if_splits)

lemma refusal_casts:
  "errors_as as_url_error (Some (RedirectRefusedError o' why)) = None"
  "\<not> IsTransient (Some (RedirectRefusedError o' why))"
  "\<not> IsTransient (Some (UrlError op v (Some (RedirectRefusedError o' why))))"
  by (simp_all add: IsTransient_def IsPermanent_def IsAttemptTimeout_def isCallerContextError_def
        CauseOf_def isTooLarge_def isTLSFailure_def isDNSFailure_def isReset_def isTimeout_def
        errors_as_def errors_is_def nodes.simps unwrapsTo_iff nameHangUp_def err_casts)

lemma refusal_reduced: "reduceURLErrors (UrlError op v (Some (RedirectRefusedError o' why))) = RedirectRefusedError o' why"
  by (simp add: reduceURLErrors_def maxURLErrorDepth_def numeral_eq_Suc errors_as_def nodes.simps urlErrorCause_def
        nameHangUp_def errors_is_def err_casts)

section \<open>Properties\<close>

text \<open>
  The retry client never builds on a nil policy, which would follow anywhere: the constructor
  panics exactly then. Otherwise the client checks every redirect with the policy given, sends
  through the retrying transport over the base given, or over \<open>http.DefaultTransport\<close> when it is nil,
  and sets no \<open>Client.Timeout\<close>; \<open>NewClient\<close> sets the one it is given and the same-host policy.
\<close>

theorem clients_check_redirects:
  "(NewRetryClient pt dt base policy cfg = None \<longleftrightarrow> policy = None) \<and>
   NewRetryClient pt dt base (Some p) cfg =
     Some \<lparr>cl_Timeout = 0,
           cl_Transport = Some (RoundTrip pt dt (NewRetryRoundTripper dt (Some (case base of None \<Rightarrow> dt | Some tr \<Rightarrow> tr)) cfg)),
           cl_CheckRedirect = Some p\<rparr> \<and>
   cl_CheckRedirect (NewClient timeout) = Some DefaultRedirectPolicy \<and> cl_Timeout (NewClient timeout) = timeout"
  by (cases base) (simp_all add: NewRetryClient_def NewClient_def NewRetryRoundTripper_def)

text \<open>
  One call of a retry client with the default policy is bounded: redirects and retries together
  send at most six times the attempt budget, since the chain has at most six requests and each is
  sent at most as often as the budget says.
\<close>

theorem retry_client_sends_bounded:
  assumes "hops DefaultRedirectPolicy (hop_of first) (map hop_of (first # rest))"
    and "\<forall>req \<in> set (first # rest). fair dt (NewRetryRoundTripper dt base cfg) req"
    and "NewRetryClient pt dt base (Some DefaultRedirectPolicy) cfg = Some cl"
  shows "outside (send_all (the (cl_Transport cl)) (first # rest) w) \<le> outside w + 6 * send_budget cfg"
proof -
  have "length (first # rest) \<le> 6" using default_chain.chain_length [OF assms(1)] by simp
  then have "length (first # rest) * send_budget cfg \<le> 6 * send_budget cfg" by (rule mult_le_mono1)
  moreover have "the (cl_Transport cl) = RoundTrip pt dt (NewRetryRoundTripper dt base cfg)"
    using assms(3) by (auto simp: NewRetryClient_def)
  ultimately show ?thesis using chain_budget [OF assms(2), of pt w] by (metis add_left_mono order_trans)
qed

theorem retry_client_sends_bounded_witness:
  "\<exists>cl. NewRetryClient (\<lambda>_. None) (status_tripper 503) None (Some DefaultRedirectPolicy) zeroTransport = Some cl \<and>
     outside (send_all (the (cl_Transport cl)) [demo_request, demo_request] world0) \<le> 18"
proof -
  obtain cl where cl: "NewRetryClient (\<lambda>_. None) (status_tripper 503) None (Some DefaultRedirectPolicy) zeroTransport = Some cl"
    by (simp add: NewRetryClient_def)
  have f: "DefaultRedirectPolicy (hop_of demo_request) [hop_of demo_request] = None" by code_simp
  have h: "hops DefaultRedirectPolicy (hop_of demo_request) (map hop_of [demo_request, demo_request])"
    using hops_two [of DefaultRedirectPolicy "hop_of demo_request" "hop_of demo_request", OF f] by simp
  have fair: "\<forall>req \<in> set [demo_request, demo_request]. fair (status_tripper 503) (NewRetryRoundTripper (status_tripper 503) None zeroTransport) req"
    using demo_fair [of "status_tripper 503" 503] by (simp add: demo_rt_def)
  have "send_budget zeroTransport = 3" "outside world0 = 0" by (simp_all add: send_budget_def zeroTransport_def world0_def)
  with retry_client_sends_bounded [OF h fair cl, where w = world0] cl show ?thesis by simp
qed

text \<open>
  A refused redirect ends \<open>GetBytes\<close>. Whatever the policy's options, when the client's call ends in the
  refusal of a hop, wrapped in the \<open>url.Error\<close> that holds the target's raw URL, \<open>GetBytes\<close> returns that
  refusal bare, has not asked again, waited or logged, and the refusal is not transient for an enclosing loop.
\<close>

theorem refused_redirect_ends_get_bytes:
  assumes "RedirectPolicyFunc opts hop via = Some e" and "e \<noteq> ErrUseLastResponse"
    and "ge_new_request env u = Inr req"
    and "get_answer env (newGetConfig gopts) req w = (Inl (UrlError op v (Some e)), w')"
  shows "GetBytes env u gopts w = (([], Some e), w') \<and> \<not> IsTransient (Some e)"
proof -
  obtain o' why where e: "e = RedirectRefusedError o' why"
    using policy_refusal [OF assms(1)] assms(2) by (auto simp: is_refusal_def)
  obtain k where k: "nat (cfg_maxAttempts (newGetConfig gopts)) = Suc k"
    using newGetConfig_fields(1) [of gopts] by (metis gr0_implies_Suc zero_less_nat_eq)
  show ?thesis
    using getAttempt_error_answer [OF assms(3,4)]
    by (simp add: GetBytes_def run_def k get_attempt_fn_def Let_def e refusal_reduced refusal_casts)
qed

definition refusing_env :: get_env where
  "refusing_env = (demo_env 302)\<lparr>ge_client := (\<lambda>req w.
     (Inl (UrlError ''Get'' ''https://other/?key=s'' (Some (RedirectRefusedError ''https://other'' RedirectOtherOrigin))),
      w\<lparr>outside := Suc (outside w)\<rparr>))\<rparr>"

theorem refused_redirect_ends_get_bytes_witness:
  "GetBytes refusing_env ''u'' [] world0 =
     (([], Some (RedirectRefusedError ''https://other'' RedirectOtherOrigin)), world0\<lparr>outside := 1\<rparr>)"
proof -
  have r: "RedirectPolicyFunc [Some (WithSameHost True)] (hop_to ''https'' ''other'') [hop_to ''https'' ''h''] =
      Some (RedirectRefusedError ''https://other'' RedirectOtherOrigin)" by code_simp
  have q: "ge_new_request refusing_env ''u'' = Inr demo_request" by (simp add: refusing_env_def demo_env_def)
  have a: "get_answer refusing_env (newGetConfig []) demo_request world0 =
      (Inl (UrlError ''Get'' ''https://other/?key=s'' (Some (RedirectRefusedError ''https://other'' RedirectOtherOrigin))),
       world0\<lparr>outside := 1\<rparr>)"
    by (simp add: get_answer_def refusing_env_def demo_env_def newGetConfig_def Let_def loopConfig.defs getConfig.defs
        normalize_def zeroConfig_def world0_def)
  show ?thesis using refused_redirect_ends_get_bytes [OF r _ q a] by simp
qed

end
