(* ===== verification/Recovery.thy ===== *)
theory Recovery
  imports Transport
begin

text \<open>
  What the retry doors compute, against a reference: under a caller whose context never ends, and with
  the outcome of each call written down in advance, a door is the pure function that takes the first final
  outcome within the budget, else the last one. The locale \<open>scripted_door\<close> says when a door is
  driven by such a script; \<open>Do\<close> (\<open>loop.go\<close>, 473 to 508), \<open>GetBytes\<close> (518 to 557) and \<open>RoundTrip\<close>
  (\<open>roundtripper.go\<close>, 179 to 223) provide it.
\<close>

section \<open>The reference\<close>

text \<open>The number of the call a budget of \<open>n\<close> calls from number \<open>i\<close> on ends with.\<close>

fun last_call :: "(nat \<Rightarrow> bool) \<Rightarrow> nat \<Rightarrow> nat \<Rightarrow> nat" where
  "last_call final 0 i = i"
| "last_call final (Suc n) i = (if n = 0 \<or> final i then i else last_call final n (Suc i))"

text \<open>It is the first final one, or the last of the budget.\<close>

lemma last_call_bounds: "0 < n \<Longrightarrow> i \<le> last_call final n i \<and> last_call final n i < i + n"
  by (induction final n i rule: last_call.induct) fastforce+

lemma last_call_before: "i \<le> k \<Longrightarrow> k < last_call final n i \<Longrightarrow> \<not> final k"
proof (induction final n i rule: last_call.induct)
  case (2 final n i)
  then show ?case by (cases "i = k") (auto split: if_splits)
qed simp

lemma last_call_unless: "0 < n \<Longrightarrow> final (last_call final n i) \<or> last_call final n i = i + n - 1"
  by (induction final n i rule: last_call.induct) fastforce+

lemma last_call_eqI:
  assumes "k < n" and "\<And>j. j < k \<Longrightarrow> \<not> final (i + j)" and "final (i + k)"
  shows "last_call final n i = i + k"
  using assms
proof (induction k arbitrary: i n)
  case 0
  then show ?case by (cases n) simp_all
next
  case (Suc k)
  obtain m where n: "n = Suc m" "k < m" using Suc.prems(1) by (cases n) auto
  have "last_call final m (Suc i) = Suc i + k"
  proof (rule Suc.IH)
    show "\<not> final (Suc i + j)" if "j < k" for j using Suc.prems(2) [of "Suc j"] that by simp
  qed (use Suc.prems n in simp_all)
  with n Suc.prems(2) [of 0] show ?case by simp
qed

section \<open>Doors driven by a script\<close>

locale scripted_door =
  fixes s :: schedule and att :: "'s attempt_fn" and pau :: "'s pause_fn"
    and outcome :: "nat \<Rightarrow> 's" and final :: "nat \<Rightarrow> bool"
  assumes no_ceiling: "sint (maxElapsed s) \<le> 0"
    and attempt_plays: "c_end (caller w) = None \<Longrightarrow>
      \<exists>d w'. att n (x, w) = ((final (outside w), d), outcome (outside w), w') \<and>
        outside w' = Suc (outside w) \<and> caller w' = caller w"
    and pause_keeps: "pau n d (x, w) = (y, w') \<Longrightarrow> outside w' = outside w \<and> caller w' = caller w"
begin

lemma never_exceeded: "\<not> elapsedExceeded s d t now"
  using no_ceiling by (simp add: elapsedExceeded_def dur_simps)

lemma sleeps: "c_end (caller w) = None \<Longrightarrow> \<exists>w'. SleepCtx d w = (None, w') \<and> outside w' = outside w \<and> caller w' = caller w"
  by (simp add: SleepCtx_def dur_simps Let_def)

lemma round:
  assumes "c_end (caller w) = None" and "\<not> final (outside w)"
  shows "\<exists>x' w'. run_loop s att pau start (Suc (Suc l)) n b (x, w) =
      run_loop s att pau start (Suc l) (Suc n) (SafeDouble b) (x', w') \<and>
    outside w' = Suc (outside w) \<and> caller w' = caller w"
proof -
  obtain e w1 where a: "att n (x, w) = ((False, e), outcome (outside w), w1)"
    and w1: "outside w1 = Suc (outside w)" "caller w1 = caller w"
    using attempt_plays [OF assms(1), of n x] assms(2) by auto
  obtain d w2 where r: "resolveWait e b w1 = (d, w2)" by fastforce
  have w2: "outside w2 = Suc (outside w)" "caller w2 = caller w"
    using resolveWait_world [of e b w1] r w1 by (auto simp: world_simps)
  obtain y w3 where p: "pau (n + 1) d (outcome (outside w), w2) = (y, w3)" by fastforce
  have w3: "outside w3 = Suc (outside w)" "caller w3 = caller w" using pause_keeps [OF p] w2 by simp_all
  obtain w4 where sl: "SleepCtx d w3 = (None, w4)" and w4: "outside w4 = Suc (outside w)" "caller w4 = caller w"
    using sleeps [of w3 d] w3 assms(1) by auto
  have "run_loop s att pau start (Suc (Suc l)) n b (x, w) = run_loop s att pau start (Suc l) (n + 1) (SafeDouble b) (y, w4)"
    by (subst run_loop.simps(2))
       (simp only: a r p sl never_exceeded Let_def case_prod_conv simp_thms if_False nat.distinct option.case)
  with w4 show ?thesis unfolding Suc_eq_plus1 by (intro exI [of _ y] exI [of _ w4]) simp
qed

lemma loop_plays:
  assumes "c_end (caller w) = None" and "0 < left"
  shows "let k = last_call final left (outside w)
    in \<exists>w'. run_loop s att pau start left n b (x, w) = (\<not> final k, None, outcome k, w') \<and> outside w' = Suc k"
  using assms
proof (induction left arbitrary: n b x w)
  case (Suc l)
  show ?case
  proof (cases "l = 0 \<or> final (outside w)")
    case True
    then show ?thesis
      using attempt_plays [OF Suc.prems(1), of n x] by (auto simp: Let_def)
  next
    case False
    then obtain m where l: "l = Suc m" by (cases l) auto
    obtain x' w' where "run_loop s att pau start (Suc (Suc m)) n b (x, w) =
        run_loop s att pau start (Suc m) (Suc n) (SafeDouble b) (x', w')"
      and w': "outside w' = Suc (outside w)" "caller w' = caller w"
      using round [OF Suc.prems(1)] False by meson
    with Suc.IH [of w' "Suc n" "SafeDouble b" x'] Suc.prems(1) False l show ?thesis
      by (simp del: run_loop.simps)
  qed
qed simp

lemma run_plays:
  assumes "c_end (caller w) = None" and "0 < attempts s"
  shows "let k = last_call final (nat (attempts s)) (outside w)
    in \<exists>w'. run s att pau (x, w) = (\<not> final k, None, outcome k, w') \<and> outside w' = Suc k"
  using loop_plays [OF assms(1)] assms(2) by (simp add: run_def)

end

section \<open>Do\<close>

text \<open>A callback that plays a script: its call number \<open>i\<close>, counted by \<open>outside\<close>, has the outcome \<open>f i\<close>.\<close>

definition scripted :: "(nat \<Rightarrow> 'a \<times> err option) \<Rightarrow> 'a callback" where
  "scripted f c w = (f (outside w), w\<lparr>outside := Suc (outside w)\<rparr>)"

lemma runAttempt_scripted:
  assumes "c_end (caller w) = None"
  shows "runAttempt c (scripted f) w = (f (outside w), w\<lparr>outside := Suc (outside w)\<rparr>)"
  using assms
  by (cases "f (outside w)")
     (auto simp: runAttempt_def scripted_def Let_def dur_simps markAttemptTimeout_def c_err_with_deadline)

lemma endless_live: "c_end (caller w) = None \<Longrightarrow> ctx_err w = None"
  by (simp add: ctx_err_def c_err_def)

definition do_final :: "'z loopConfig_scheme \<Rightarrow> 'a \<times> err option \<Rightarrow> bool" where
  "do_final c r \<longleftrightarrow> (case snd r of None \<Rightarrow> True | Some e \<Rightarrow> \<not> fst (classify c (Some e)))"

interpretation playing: scripted_door "loop_schedule c" "do_attempt c (scripted f)" "do_pause c" f "\<lambda>i. do_final c (f i)"
  for c f
proof (unfold_locales, goal_cases)
  case (2 w n x)
  then show ?case
    by (cases "f (outside w)")
       (auto simp: do_attempt_def runAttempt_scripted Let_def endless_live do_final_def world_simps split: option.splits prod.splits)
next
  case (3 n d x w y w')
  then show ?case by (auto simp: do_pause_def world_simps split: prod.splits)
qed simp

section \<open>RoundTrip\<close>







section \<open>GetBytes\<close>

text \<open>
  A client that plays a script: an error, or a status, a header, and a body's bytes with the fault
  that ends its reading. The body of answer \<open>i\<close> is body \<open>i\<close> of the store. No text is an HTTP date to it, as what a
  date asks for depends on the clock.
\<close>

type_synonym answer = "err + int \<times> header \<times> string \<times> err option"

definition playing_env :: "request \<Rightarrow> url_lib \<Rightarrow> (nat \<Rightarrow> answer) \<Rightarrow> get_env" where
  "playing_env req lib g =
     \<lparr>ge_parse_time = (\<lambda>_. None), ge_new_request = (\<lambda>_. Inr req),
      ge_client = (\<lambda>_ w. case g (outside w) of
         Inl e \<Rightarrow> (Inl e, w\<lparr>outside := Suc (outside w)\<rparr>)
       | Inr (code, h, data, fault) \<Rightarrow>
           (Inr \<lparr>StatusCode = code, Header = h, Body = Some (outside w)\<rparr>,
            w\<lparr>outside := Suc (outside w), bodies := (bodies w)(outside w := open_body data fault)\<rparr>)),
      ge_urls = lib\<rparr>"

text \<open>What an answer comes to: bytes, error and hint, and whether it is worth another attempt.\<close>

definition get_outcome :: "string \<Rightarrow> int64 \<Rightarrow> answer \<Rightarrow> get_vars \<times> bool" where
  "get_outcome u limit a =
     (case a of
        Inl e \<Rightarrow> (([], Some e, 0), IsTransient (Some e))
      | Inr (code, h, data, fault) \<Rightarrow>
          if IsRetryableStatus code
          then (([], Some (StatusError u code), ParseRetryAfter (\<lambda>_. None) 0 (header_get h ''Retry-After'')), True)
          else if code < 200 \<or> 300 \<le> code then (([], Some (StatusError u code), 0), False)
          else if sint limit < int (length data) then (([], Some (ResponseTooLargeError limit), 0), False)
          else (case fault of
                  None \<Rightarrow> ((data, None, 0), False)
                | Some x \<Rightarrow>
                    (([], Some (if errors_as as_too_large (Some x) \<noteq> None then x else WrapError ''read response: '' x), 0), False)))"

lemma no_dates: "ParseRetryAfter (\<lambda>_. None) now h = ParseRetryAfter (\<lambda>_. None) 0 h"
  by (simp add: ParseRetryAfter_def parseRetryAfterValue_def Let_def)

lemma plain_answer:
  assumes "cfg_setHeaders cfg = None"
  shows "get_answer (playing_env req lib g) cfg q w =
    (case g (outside w) of
       Inl e \<Rightarrow> (Inl e, w\<lparr>outside := Suc (outside w)\<rparr>)
     | Inr (code, h, data, fault) \<Rightarrow>
         (Inr \<lparr>StatusCode = code, Header = h, Body = Some (outside w)\<rparr>,
          w\<lparr>outside := Suc (outside w), bodies := (bodies w)(outside w := open_body data fault)\<rparr>))"
  using assms by (simp add: get_answer_def playing_env_def)

lemma read_open_body:
  assumes "sint limit < 2 ^ 63 - 1" and "0 \<le> sint limit" and "bodies w a = open_body data fault"
  shows "fst (ReadLimitedBody a limit w) =
    (if sint limit < int (length data) then Inl (ResponseTooLargeError limit)
     else case fault of Some x \<Rightarrow> Inl x | None \<Rightarrow> Inr data)"
  using assms by (auto simp: fst_ReadLimitedBody read_limited_def open_body_def Let_def split: option.splits)

lemma too_large_cast: "errors_as as_too_large (Some (ResponseTooLargeError n)) = Some n"
  by (simp add: errors_as_self as_too_large_def)

lemma getAttempt_plays:
  assumes "cfg_setHeaders cfg = None" and "sint (cfg_maxBodyBytes cfg) < 2 ^ 63 - 1" and "0 < sint (cfg_maxBodyBytes cfg)"
  shows "\<exists>w'. getAttempt (playing_env req lib g) u cfg w =
      (case get_outcome u (cfg_maxBodyBytes cfg) (g (outside w)) of ((b, e, ra), retry) \<Rightarrow> (b, retry, ra, e), w') \<and>
    outside w' = Suc (outside w) \<and> caller w' = caller w"
proof (cases "g (outside w)")
  case (Inl e)
  have "ge_new_request (playing_env req lib g) u = Inr req" by (simp add: playing_env_def)
  from getAttempt_error_answer [OF this, of cfg w e] Inl show ?thesis
    by (simp add: plain_answer [OF assms(1)] get_outcome_def)
next
  case (Inr ans)
  obtain code h data fault where ans: "ans = (code, h, data, fault)" by (cases ans) auto
  let ?w = "w\<lparr>outside := Suc (outside w), bodies := (bodies w)(outside w := open_body data fault)\<rparr>"
  let ?r = "\<lparr>StatusCode = code, Header = h, Body = Some (outside w)\<rparr>"
  have q: "ge_new_request (playing_env req lib g) u = Inr req" "ge_parse_time (playing_env req lib g) = (\<lambda>_. None)"
    by (simp_all add: playing_env_def)
  have a: "get_answer (playing_env req lib g) cfg req w = (Inr ?r, ?w)"
    by (simp add: plain_answer [OF assms(1)] Inr ans)
  consider "IsRetryableStatus code" | "\<not> IsRetryableStatus code" "code < 200 \<or> 300 \<le> code"
    | "\<not> IsRetryableStatus code" "200 \<le> code" "code < 300" by linarith
  then show ?thesis
  proof cases
    case 1
    then have "getAttempt (playing_env req lib g) u cfg w =
       (([], True, retryAfterOf (\<lambda>_. None) (clock ?w) (Some ?r), Some (StatusError u code)), DrainClose (outside w) ?w)"
      using getAttempt_retry_status [OF q(1) a] by (simp add: q)
    with 1 show ?thesis
      by (simp add: get_outcome_def Inr ans retryAfterOf_def no_dates [of "clock w"] world_simps)
  next
    case 2
    with getAttempt_bad_status [OF q(1) a] show ?thesis
      by (auto simp: get_outcome_def Inr ans world_simps)
  next
    case 3
    obtain d w2 where rl: "ReadLimitedBody (outside w) (cfg_maxBodyBytes cfg) ?w = (d, w2)" by fastforce
    have d: "d = (if sint (cfg_maxBodyBytes cfg) < int (length data) then Inl (ResponseTooLargeError (cfg_maxBodyBytes cfg))
        else case fault of Some x \<Rightarrow> Inl x | None \<Rightarrow> Inr data)"
      using read_open_body [OF assms(2), of ?w "outside w" data fault] assms(3) rl by simp
    have w2: "outside w2 = Suc (outside w)" "caller w2 = caller w"
      using ReadLimitedBody_fields(2,5) [of "outside w" "cfg_maxBodyBytes cfg" ?w] rl by simp_all
    from 3 getAttempt_ok_status [OF q(1) a] rl w2 show ?thesis
      by (auto simp: get_outcome_def Inr ans d too_large_cast split: option.splits)
  qed
qed

lemma get_door:
  assumes "cfg_setHeaders cfg = None" and "sint (cfg_maxBodyBytes cfg) < 2 ^ 63 - 1" and "0 < sint (cfg_maxBodyBytes cfg)"
  shows "scripted_door (loop_schedule cfg) (get_attempt_fn (playing_env req lib g) u cfg) (get_pause (playing_env req lib g) u cfg)
    (\<lambda>i. fst (get_outcome u (cfg_maxBodyBytes cfg) (g i))) (\<lambda>i. \<not> snd (get_outcome u (cfg_maxBodyBytes cfg) (g i)))"
proof (unfold_locales, goal_cases)
  case (2 w n x)
  obtain b e ra retry where o: "get_outcome u (cfg_maxBodyBytes cfg) (g (outside w)) = ((b, e, ra), retry)"
    by (metis prod.exhaust)
  obtain w' where "getAttempt (playing_env req lib g) u cfg w = ((b, retry, ra, e), w')"
    "outside w' = Suc (outside w)" "caller w' = caller w"
    using getAttempt_plays [OF assms, of req lib g u w] by (auto simp: o)
  then show ?case by (simp add: get_attempt_fn_def o Let_def world_simps)
next
  case (3 n d x w y w')
  then show ?case by (auto simp: get_pause_def world_simps split: prod.splits)
qed simp

lemma get_outcome_shape:
  assumes "get_outcome u limit a = ((b, e, ra), retry)"
  shows "(retry \<longrightarrow> e \<noteq> None) \<and> (e \<noteq> None \<longrightarrow> b = [])"
  using assms by (auto simp: get_outcome_def split: sum.splits if_splits option.splits)

lemma GetBytes_plays:
  assumes "cfg_setHeaders (newGetConfig opts) = None" and "sint (cfg_maxBodyBytes (newGetConfig opts)) < 2 ^ 63 - 1"
    and "c_end (caller w) = None"
    and k: "k = last_call (\<lambda>i. \<not> snd (get_outcome u (cfg_maxBodyBytes (newGetConfig opts)) (g i)))
          (nat (cfg_maxAttempts (newGetConfig opts))) (outside w)"
    and o: "get_outcome u (cfg_maxBodyBytes (newGetConfig opts)) (g k) = ((b, e, ra), retry)"
  shows "\<exists>w' d. GetBytes (playing_env req lib g) u opts w =
      ((b, case e of None \<Rightarrow> None | Some x \<Rightarrow> Some (if retry then exhausted_err d (Some x) ra else reduceURLErrors x)), w') \<and>
    outside w' = Suc k"
proof -
  let ?c = "newGetConfig opts" and ?env = "playing_env req lib g"
  obtain w' where r: "run (loop_schedule ?c) (get_attempt_fn ?env u ?c) (get_pause ?env u ?c) (([], None, 0), w) =
      (retry, None, (b, e, ra), w')" and w': "outside w' = Suc k"
    using scripted_door.run_plays [OF get_door [OF assms(1,2)], where w = w and x = "([], None, 0)" and g1 = g and u1 = u and req1 = req and lib1 = lib] assms(3) o
    by (auto simp: Let_def k [symmetric])
  show ?thesis
  proof (cases e)
    case None
    with get_outcome_shape [OF o] r w' show ?thesis by (simp add: GetBytes_def Let_def)
  next
    case (Some x)
    show ?thesis
    proof (cases retry)
      case False
      with Some get_outcome_shape [OF o] r w' show ?thesis by (simp add: GetBytes_def Let_def)
    next
      case True
      with Some get_outcome_shape [OF o] r w' show ?thesis
        by (simp add: GetBytes_def Let_def world_simps) blast
    qed
  qed
qed

section \<open>Properties\<close>

text \<open>
  C1: \<open>Do\<close> computes its reference. Under a caller whose context never ends, and whatever the function's
  outcomes are, \<open>Do\<close> calls it up to the first outcome that is a success or an error its
  options do not retry, or up to the budget, and returns the outcome of that last call, with the zero
  value when it is an error. Delays, jitter, hints, attempt bounds and logging change nothing of it.
\<close>

theorem do_computes_reference:
  assumes "\<not> cfg_rlConflict (newLoopConfig opts)" and "c_end (caller w) = None"
  shows "let c = newLoopConfig opts;
             k = last_call (\<lambda>i. do_final c (f i)) (nat (cfg_maxAttempts c)) (outside w)
         in \<exists>w'. Do zero (scripted f) opts w = (if snd (f k) = None then f k else (zero, snd (f k)), w') \<and>
              outside w' = Suc k"
proof -
  let ?c = "newLoopConfig opts"
  let ?k = "last_call (\<lambda>i. do_final ?c (f i)) (nat (cfg_maxAttempts ?c)) (outside w)"
  obtain w' where r: "run (loop_schedule ?c) (do_attempt ?c (scripted f)) (do_pause ?c) ((zero, None), w) =
      (\<not> do_final ?c (f ?k), None, f ?k, w')" "outside w' = Suc ?k"
    using playing.run_plays [OF assms(2), of ?c f "(zero, None)"] by (auto simp: Let_def)
  then show ?thesis
    using assms(1) by (cases "f ?k") (auto simp: Do_def Let_def world_simps)
qed

theorem do_computes_reference_witness:
  "\<exists>w'. Do 0 (scripted (\<lambda>i. if i = 0 then (5, Some (TransientError IoEOF)) else (7 :: int, Some (PermanentError IoEOF)))) [] world0 =
     ((0, Some (PermanentError IoEOF)), w') \<and> outside w' = 2"
proof -
  let ?f = "\<lambda>i :: nat. if i = 0 then (5, Some (TransientError IoEOF)) else (7 :: int, Some (PermanentError IoEOF))"
  have c: "\<not> cfg_rlConflict (newLoopConfig [])" by code_simp
  have k: "last_call (\<lambda>i. do_final (newLoopConfig []) (?f i)) (nat (cfg_maxAttempts (newLoopConfig []))) 0 = 1" by code_simp
  have w: "c_end (caller world0) = None" "outside world0 = 0" by (simp_all add: world0_def)
  show ?thesis
    using do_computes_reference [of "[]" world0 ?f 0] c k w by (simp add: Let_def numeral_2_eq_2)
qed

text \<open>
  \<open>Do\<close> recovers. If the caller's context never ends and the function fails with retryable errors
  fewer times than the budget has attempts before it succeeds, \<open>Do\<close> returns that success,
  after exactly as many calls.
\<close>

theorem do_recovers:
  assumes "\<not> cfg_rlConflict (newLoopConfig opts)" and "c_end (caller w) = None"
    and "int k < cfg_maxAttempts (newLoopConfig opts)"
    and "\<And>i. i < k \<Longrightarrow> \<exists>e. snd (f (outside w + i)) = Some e \<and> fst (classify (newLoopConfig opts) (Some e))"
    and "f (outside w + k) = (v, None)"
  shows "\<exists>w'. Do zero (scripted f) opts w = ((v, None), w') \<and> outside w' = outside w + Suc k"
proof -
  let ?c = "newLoopConfig opts"
  have "last_call (\<lambda>i. do_final ?c (f i)) (nat (cfg_maxAttempts ?c)) (outside w) = outside w + k"
  proof (rule last_call_eqI)
    show "\<not> do_final ?c (f (outside w + i))" if "i < k" for i using assms(4) [OF that] by (auto simp: do_final_def)
  qed (use assms in \<open>simp_all add: do_final_def\<close>)
  then obtain w' where "run (loop_schedule ?c) (do_attempt ?c (scripted f)) (do_pause ?c) ((zero, None), w) =
      (False, None, (v, None), w')" "outside w' = Suc (outside w + k)"
    using playing.run_plays [OF assms(2), of ?c f "(zero, None)"] assms(5) by (auto simp: do_final_def Let_def)
  then show ?thesis using assms(1) by (auto simp: Do_def Let_def)
qed

theorem do_recovers_witness:
  "\<exists>w'. Do 0 (scripted (\<lambda>i. if i < 2 then (0, Some (TransientError IoEOF)) else (7 :: int, None))) [] world0 =
     ((7, None), w') \<and> outside w' = 3"
proof -
  let ?f = "\<lambda>i :: nat. if i < 2 then (0, Some (TransientError IoEOF)) else (7 :: int, None)"
  have c: "\<not> cfg_rlConflict (newLoopConfig [])" "int 2 < cfg_maxAttempts (newLoopConfig [])"
    "fst (classify (newLoopConfig []) (Some (TransientError IoEOF)))" by code_simp+
  have w: "c_end (caller world0) = None" "outside world0 = 0" by (simp_all add: world0_def)
  show ?thesis
    using do_recovers [of "[]" world0 2 ?f 7 0] c w by simp
qed



text \<open>
  C3: \<open>GetBytes\<close> computes its reference. Whatever the client answers, under a caller whose context never
  ends, it asks up to the first answer that is not worth another attempt, or up to the budget, and
  returns what that last answer comes to: the bytes of a 2xx read whole within the cap, or the error, reduced
  when it is final and wrapped with the elapsed time and the response's hint when the budget is spent.
\<close>

theorem get_bytes_computes_reference:
  assumes "cfg_setHeaders (newGetConfig opts) = None" and "sint (cfg_maxBodyBytes (newGetConfig opts)) < 2 ^ 63 - 1"
    and "c_end (caller w) = None"
  shows "let c = newGetConfig opts;
             judge = (\<lambda>i. get_outcome u (cfg_maxBodyBytes c) (g i));
             k = last_call (\<lambda>i. \<not> snd (judge i)) (nat (cfg_maxAttempts c)) (outside w);
             ((b, e, ra), retry) = judge k
         in \<exists>w' d. GetBytes (playing_env req lib g) u opts w =
              ((b, case e of None \<Rightarrow> None | Some x \<Rightarrow> Some (if retry then exhausted_err d (Some x) ra else reduceURLErrors x)), w') \<and>
              outside w' = Suc k"
proof -
  let ?judge = "\<lambda>i. get_outcome u (cfg_maxBodyBytes (newGetConfig opts)) (g i)"
  let ?k = "last_call (\<lambda>i. \<not> snd (?judge i)) (nat (cfg_maxAttempts (newGetConfig opts))) (outside w)"
  obtain b e ra retry where o: "?judge ?k = ((b, e, ra), retry)" by (metis prod.exhaust)
  from GetBytes_plays [where opts = opts and w = w and k = ?k and u = u and g = g and b = b and e = e and ra = ra
      and retry = retry and req = req and lib = lib, OF assms refl o] show ?thesis unfolding Let_def o by simp
qed

theorem get_bytes_computes_reference_witness:
  "\<exists>w'. GetBytes (playing_env demo_request demo_lib
        (\<lambda>i. if i = 0 then Inr (503, [''Retry-After'' \<mapsto> [''2'']], ''busy'', None) else Inr (200, Map.empty, ''hi'', None)))
      ''u'' [] world0 = ((''hi'', None), w') \<and> outside w' = 2"
proof -
  let ?g = "\<lambda>i :: nat. if i = 0 then Inr (503, [''Retry-After'' \<mapsto> [''2'']], ''busy'', None) else Inr (200, Map.empty, ''hi'', None)"
  let ?c = "newGetConfig []"
  have c: "cfg_setHeaders ?c = None" "sint (cfg_maxBodyBytes ?c) < 2 ^ 63 - 1" "c_end (caller world0) = None"
    "outside world0 = 0" "nat (cfg_maxAttempts ?c) = 3" "sint (cfg_maxBodyBytes ?c) = 10485760"
    by (simp_all add: newGetConfig_def Let_def loopConfig.defs getConfig.defs normalize_def zeroConfig_def world0_def dur_simps)
  have j: "snd (get_outcome ''u'' (cfg_maxBodyBytes ?c) (?g 0))"
    "get_outcome ''u'' (cfg_maxBodyBytes ?c) (?g 1) = ((''hi'', None, 0), False)"
    using c(6) by (simp_all add: get_outcome_def IsRetryableStatus_def)
  then have k: "last_call (\<lambda>i. \<not> snd (get_outcome ''u'' (cfg_maxBodyBytes ?c) (?g i))) 3 0 = 1"
    by (simp add: numeral_3_eq_3)
  show ?thesis
    using get_bytes_computes_reference [OF c(1-3), of "''u''" ?g demo_request demo_lib] j(2)
    unfolding c(4,5) k Let_def by (simp add: numeral_2_eq_2)
qed

end
