(* ===== verification/Composition.thy ===== *)
theory Composition
  imports Clients Recovery
begin

text \<open>
  Properties of \<open>GetBytes\<close> as a whole that rest on its parts together: the responses it consumes
  (\<open>loop.go\<close>, 518 to 628, with \<open>DrainClose\<close> and \<open>ReadLimitedBody\<close>), and what an enclosing \<open>Do\<close>
  makes of its errors.
\<close>

section \<open>Accounting for the responses of GetBytes\<close>

text \<open>A client that hands out its responses in numbered slots, as \<open>numbered\<close> says of a transport.\<close>

definition numbered_env :: "get_env \<Rightarrow> getConfig \<Rightarrow> bool" where
  "numbered_env env cfg \<longleftrightarrow>
     (\<forall>req w. case get_answer env cfg req w of
        (r, w') \<Rightarrow>
          outside w' = Suc (outside w) \<and>
          (\<forall>a. a \<noteq> outside w \<longrightarrow> b_closed (bodies w' a) = b_closed (bodies w a)) \<and>
          (case r of
             Inl e \<Rightarrow> b_closed (bodies w' (outside w)) = 1
           | Inr x \<Rightarrow> Body x = Some (outside w) \<and> b_closed (bodies w' (outside w)) = 0))"

lemma ledger_closed:
  assumes "ledger w0 w (Some a)" and "outside w' = outside w" and "\<And>c. c \<noteq> a \<Longrightarrow> bodies w' c = bodies w c"
    and "b_closed (bodies w' a) = Suc (b_closed (bodies w a))"
  shows "ledger w0 w' None"
  unfolding ledger_def
proof (intro conjI allI impI)
  fix c assume c: "outside w0 \<le> c \<and> c < outside w'"
  show "b_closed (bodies w' c) = (if None = Some c then 0 else 1)"
    using assms c by (cases "c = a") (auto simp: ledger_def)
qed (use assms in \<open>auto simp: ledger_def\<close>)

lemma ledger_answer:
  assumes "numbered_env env cfg" and "ledger w0 w None" and "get_answer env cfg req w = (r, w')"
  shows "ledger w0 w' (case r of Inl e \<Rightarrow> None | Inr x \<Rightarrow> Body x)"
proof -
  have "outside w' = Suc (outside w) \<and>
      (\<forall>a. a \<noteq> outside w \<longrightarrow> b_closed (bodies w' a) = b_closed (bodies w a)) \<and>
      (case r of
         Inl e \<Rightarrow> b_closed (bodies w' (outside w)) = 1
       | Inr x \<Rightarrow> Body x = Some (outside w) \<and> b_closed (bodies w' (outside w)) = 0)"
    using spec [OF spec [OF assms(1) [unfolded numbered_env_def], of req], of w] by (simp add: assms(3))
  with assms(2) show ?thesis by (cases r) (auto simp: ledger_def less_Suc_eq)
qed

text \<open>Whatever an attempt makes of the answer, a body it was given is closed and nothing else is sent.\<close>

lemma judged_ledger:
  assumes "ge_new_request env u = Inr req" and a: "get_answer env cfg req w = (got, w1)"
    and l: "ledger w0 w1 (case got of Inl e \<Rightarrow> None | Inr x \<Rightarrow> Body x)" and b: "\<And>r. got = Inr r \<Longrightarrow> Body r \<noteq> None"
  shows "ledger w0 (snd (getAttempt env u cfg w)) None \<and> outside (snd (getAttempt env u cfg w)) = outside w1"
proof (cases got)
  case (Inl e)
  with l getAttempt_error_answer [OF assms(1) a [unfolded Inl]] show ?thesis by simp
next
  case got: (Inr r)
  obtain c where c: "Body r = Some c" "ledger w0 w1 (Some c)" using l b [OF got] by (auto simp: got)
  have drained: "ledger w0 (DrainClose c w1) None"
    by (rule ledger_closed [OF c(2)]) (simp_all add: world_simps)
  have read: "ledger w0 (snd (ReadLimitedBody c m w1)) None" "outside (snd (ReadLimitedBody c m w1)) = outside w1" for m
    by (rule ledger_closed [OF c(2)]) (simp_all add: world_simps)
  consider "IsRetryableStatus (StatusCode r)"
    | "\<not> IsRetryableStatus (StatusCode r)" "StatusCode r < 200 \<or> 300 \<le> StatusCode r"
    | "200 \<le> StatusCode r" "StatusCode r < 300" by linarith
  then show ?thesis
  proof cases
    case 1
    with getAttempt_retry_status [OF assms(1) a [unfolded got]] drained c show ?thesis by (simp add: world_simps)
  next
    case 2
    with getAttempt_bad_status [OF assms(1) a [unfolded got]] drained c show ?thesis by (simp add: world_simps)
  next
    case 3
    with getAttempt_ok_status [OF assms(1) a [unfolded got]] read [of "cfg_maxBodyBytes cfg"] c show ?thesis
      by (auto split: prod.splits sum.splits)
  qed
qed

lemma getAttempt_ledger:
  assumes "numbered_env env cfg" and "ledger w0 w None"
  shows "ledger w0 (snd (getAttempt env u cfg w)) None"
proof (cases "ge_new_request env u")
  case (Inl e)
  with assms(2) show ?thesis by (simp add: getAttempt_def)
next
  case (Inr req)
  obtain got w1 where a: "get_answer env cfg req w = (got, w1)" by fastforce
  have "Body r \<noteq> None" if "got = Inr r" for r
    using spec [OF spec [OF assms(1) [unfolded numbered_env_def], of req], of w] by (simp add: a that)
  from judged_ledger [OF Inr a ledger_answer [OF assms a] this] show ?thesis by blast
qed

lemma ledger_same: "ledger w0 w h \<Longrightarrow> outside w' = outside w \<Longrightarrow> bodies w' = bodies w \<Longrightarrow> ledger w0 w' h"
  by (simp add: ledger_def)

interpretation accounting: loop_invariant "loop_schedule cfg" "get_attempt_fn env u cfg" "get_pause env u cfg"
  "\<lambda>w. numbered_env env cfg \<longrightarrow> ledger w0 w None"
  for env u cfg w0
proof (unfold_locales, goal_cases)
  case (1 w n x v x' w')
  obtain v1 w1 where g: "getAttempt env u cfg w = (v1, w1)" by fastforce
  then have "outside w' = outside w1" "bodies w' = bodies w1"
    using 1(2) by (auto simp: get_attempt_fn_def Let_def world_simps split: prod.splits if_splits)
  with 1(1) getAttempt_ledger [of env cfg w0 w u] g show ?case by (auto intro: ledger_same)
next
  case (2 w n d x x' w')
  then have "outside w' = outside w" "bodies w' = bodies w" by (auto simp: get_pause_def world_simps split: prod.splits)
  with 2(1) show ?case by (auto intro: ledger_same)
next
  case (3 w)
  then show ?case by (auto simp: world_simps intro: ledger_same)
next
  case (4 w d)
  then show ?case using SleepCtx_frame [of d w] by (auto intro: ledger_same)
qed

lemma GetBytes_ledger:
  assumes "numbered_env env (newGetConfig opts)"
  shows "ledger w (snd (GetBytes env u opts w)) None"
proof -
  let ?c = "newGetConfig opts"
  obtain ex se b e ra w1 where r: "run (loop_schedule ?c) (get_attempt_fn env u ?c) (get_pause env u ?c) (([], None, 0), w) =
      (ex, se, (b, e, ra), w1)" by (metis prod.exhaust)
  have "ledger w w1 None" using accounting.run_keeps [OF r, of w] assms by simp
  then show ?thesis by (auto simp: GetBytes_def r Let_def world_simps intro: ledger_same)
qed

lemma playing_numbered:
  assumes "cfg_setHeaders cfg = None"
  shows "numbered_env (playing_env req lib (\<lambda>i. Inr (g i))) cfg"
  unfolding numbered_env_def plain_answer [OF assms]
  by (auto simp: open_body_def split: prod.splits)

section \<open>Statuses on the error of an exhausted budget\<close>

lemma status_error_judged:
  "\<not> IsTransient (Some (StatusError u c))" "errors_as as_rate_limit (Some (StatusError u c)) = None"
  "errors_as as_url_error (Some (StatusError u c)) = None" "errors_as hint_method (Some (StatusError u c)) = None"
  "\<not> isCallerContextError (Some (StatusError u c))"
  "errors_is (Some (StatusError u c)) ErrRateLimited \<longleftrightarrow> c = 429" "errors_is (Some (StatusError u c)) ErrServerError \<longleftrightarrow> 500 \<le> c"
  by (simp_all add: IsTransient_def IsPermanent_def IsAttemptTimeout_def isCallerContextError_def
        CauseOf_def isTooLarge_def isTLSFailure_def isDNSFailure_def isReset_def isTimeout_def
        errors_as_def errors_is_def nodes.simps unwrapsTo_iff nameHangUp_def StatusError_Is_def err_casts)

section \<open>Properties\<close>

text \<open>
  \<open>GetBytes\<close> leaks no response. When it returns, on whatever path, every body the client answered
  with during the call has been closed exactly once.
\<close>

theorem get_bytes_closes_every_body:
  assumes "numbered_env env (newGetConfig opts)"
  shows "case GetBytes env u opts w of
    (r, w') \<Rightarrow> \<forall>a. outside w \<le> a \<and> a < outside w' \<longrightarrow> b_closed (bodies w' a) = 1"
  using GetBytes_ledger [OF assms, of w u] by (auto simp: ledger_def split: prod.splits)

theorem get_bytes_closes_every_body_witness:
  "let w' = snd (GetBytes (playing_env demo_request demo_lib (\<lambda>i. Inr (503, Map.empty, ''busy'', None))) ''u'' [] world0)
   in outside w' = 3 \<and> b_closed (bodies w' 0) = 1 \<and> b_closed (bodies w' 1) = 1 \<and> b_closed (bodies w' 2) = 1"
proof -
  let ?env = "playing_env demo_request demo_lib (\<lambda>i. Inr (503, Map.empty, ''busy'', None))"
  let ?c = "newGetConfig []"
  have c: "cfg_setHeaders ?c = None" "sint (cfg_maxBodyBytes ?c) < 2 ^ 63 - 1" "c_end (caller world0) = None"
    "outside world0 = 0" "nat (cfg_maxAttempts ?c) = 3"
    by (simp_all add: newGetConfig_def Let_def loopConfig.defs getConfig.defs normalize_def zeroConfig_def world0_def dur_simps)
  note n = playing_numbered [OF c(1), of demo_request demo_lib "\<lambda>i. (503, Map.empty, ''busy'', None)"]
  let ?o = "get_outcome ''u'' (cfg_maxBodyBytes ?c) (Inr (503, Map.empty, ''busy'', None))"
  have o: "snd ?o" by (simp add: get_outcome_def IsRetryableStatus_def)
  have "last_call (\<lambda>i. \<not> True) 3 0 = 2" by (simp add: numeral_3_eq_3 numeral_2_eq_2)
  with o have k: "2 = last_call (\<lambda>i. \<not> snd ?o) (nat (cfg_maxAttempts ?c)) (outside world0)"
    unfolding c(4,5) by (simp only: eqTrueI [OF o])
  obtain b e ra where f: "fst ?o = (b, e, ra)" by (metis prod.exhaust)
  have "?o = ((b, e, ra), True)" by (subst prod.collapse [of ?o, symmetric]) (simp only: f eqTrueI [OF o])
  from GetBytes_plays [OF c(1-3) k this] obtain r w' where
    g: "GetBytes ?env ''u'' [] world0 = (r, w')" "outside w' = Suc 2" by blast
  then have "outside (snd (GetBytes ?env ''u'' [] world0)) = 3" by (simp only: snd_conv)
  then show ?thesis
    using get_bytes_closes_every_body [OF n, where u = "''u''" and w = world0] c(4) by (simp add: case_prod_beta Let_def)
qed

text \<open>
  C28: attempt budgets do not multiply over a status. The error of a \<open>GetBytes\<close> that spent its budget on
  retryable statuses is final for an enclosing \<open>Do\<close> in every mode, whatever the status and the hint; a
  caller that marks it transient gets it retried, except in the rate-limit-only mode, after
  exactly the positive \<open>Retry-After\<close> of the last response. It still matches the sentinel of its status.
\<close>

theorem nested_budgets_do_not_multiply:
  "let e = exhausted_err d (Some (StatusError u c)) ra
   in classify cfg (Some e) = (False, 0) \<and>
      classify cfg (MarkTransient (Some e)) =
        (if cfg_rlMode cfg = RlOnly then (False, 0) else (True, if 0 < sint ra then ra else 0)) \<and>
      (errors_is (Some e) ErrRateLimited \<longleftrightarrow> c = 429) \<and> (errors_is (Some e) ErrServerError \<longleftrightarrow> 500 \<le> c)"
proof -
  let ?s = "StatusError u c"
  define x where "x = WrapError (''retries exhausted after '' @ duration_string d @ '': '') ?s"
  define e where "e = (if 0 < sint ra then RetryAfterError x ra else x)"
  have e: "exhausted_err d (Some ?s) ra = e"
    by (simp add: exhausted_err_def e_def x_def Let_def dur_simps reduceURLErrors_id status_error_judged)
  have judged: "\<not> IsTransient (Some e)" "errors_as as_rate_limit (Some e) = None"
    by (simp_all add: e_def x_def silent_wrapf.transient_through silent_retry_after.transient_through
        wrapf.as_through retry_after.as_through status_error_judged as_rate_limit_def)
  have sentinels: "errors_is (Some e) ErrRateLimited \<longleftrightarrow> c = 429" "errors_is (Some e) ErrServerError \<longleftrightarrow> 500 \<le> c"
    by (simp_all add: e_def x_def wrapf.is_through retry_after.is_through status_error_judged)
  have "\<not> refused e" by (simp add: e_def x_def refused_one refused_leaf)
  moreover have "\<not> isCallerContextError (Some e)"
    by (simp add: e_def x_def silent_wrapf.caller_context_through silent_retry_after.caller_context_through status_error_judged)
  ultimately have marked: "IsTransient (MarkTransient (Some e))" by (simp add: mark_transient_iff)
  have hinted: "errors_as hint_method (MarkTransient (Some e)) = (if 0 < sint ra then Some ra else None)"
    by (simp add: MarkTransient_def transient.as_through hint_method_def e_def x_def wrapf.as_through errors_as_self status_error_judged)
  have "errors_as as_rate_limit (MarkTransient (Some e)) = None"
    using judged(2) by (simp add: MarkTransient_def transient.as_through as_rate_limit_def)
  with judged sentinels marked hinted show ?thesis
    unfolding e by (simp add: classify_def Let_def retryAfterHintWait_def)
qed

end
