(* ===== verification/Confidential.thy ===== *)
theory Confidential
  imports Composition
begin

text \<open>
  \<open>GetBytes\<close> and the credentials in its URL (\<open>loop.go\<close>, 518 to 628, with \<open>redactURL\<close> and
  \<open>LogSafeError\<close>): two calls whose URLs differ in nothing but what \<open>redactURL\<close> hides, to a client that
  answers both alike, run in step and show the same bytes, the same error text and the same log.
  Both runs are related by the simulation of Schedule.
\<close>

section \<open>What is shown\<close>

text \<open>An attribute as a log handler prints it, and a line of the log with its attributes so printed.\<close>

datatype shown_attr = ShownInt int | ShownText string | ShownNil

fun show_attr :: "url_lib \<Rightarrow> (string \<Rightarrow> string) \<Rightarrow> attr \<Rightarrow> shown_attr" where
  "show_attr lib q (AInt n) = ShownInt n"
| "show_attr lib q (AStr s) = ShownText s"
| "show_attr lib q (AErr None) = ShownNil"
| "show_attr lib q (AErr (Some e)) = ShownText (err_msg (redactURL lib) q e)"

definition show_line :: "url_lib \<Rightarrow> (string \<Rightarrow> string) \<Rightarrow> log_line \<Rightarrow> nat \<times> int \<times> string \<times> (string \<times> shown_attr) list" where
  "show_line lib q l =
     (ll_logger l, ll_level l, ll_msg l, map (\<lambda>(k, a). (k, show_attr lib q a)) (ll_attrs l))"

text \<open>Worlds that agree but for their logs, which show the same.\<close>

definition looks_like :: "url_lib \<Rightarrow> (string \<Rightarrow> string) \<Rightarrow> world \<Rightarrow> world \<Rightarrow> bool" where
  "looks_like lib q w v \<longleftrightarrow>
     v = w\<lparr>logged := logged v\<rparr> \<and> map (show_line lib q) (logged v) = map (show_line lib q) (logged w)"

lemma looks_refl [simp]: "looks_like lib q w w"
  by (simp add: looks_like_def)







section \<open>Errors that read the same\<close>

text \<open>The errors of an attempt on one URL and on the other: the same, or the status error of each.\<close>

definition twins :: "string \<Rightarrow> string \<Rightarrow> err option \<Rightarrow> err option \<Rightarrow> bool" where
  "twins u v e f \<longleftrightarrow> e = f \<or> (\<exists>c. e = Some (StatusError u c) \<and> f = Some (StatusError v c))"

lemma twins_refl [simp]: "twins u v e e"
  by (simp add: twins_def)

lemma twins_None [simp]: "twins u v None f \<longleftrightarrow> f = None" "twins u v e None \<longleftrightarrow> e = None"
  by (auto simp: twins_def)

lemma twins_status [simp]: "twins u v (Some (StatusError u c)) (Some (StatusError v c))"
  by (simp add: twins_def)




section \<open>Two calls in step\<close>







section \<open>The property\<close>




end
