(* ===== verification/Interleaving.thy ===== *)
theory Interleaving
  imports Transport
begin

text \<open>
  Goroutines that share the process (\<open>schedule.run\<close> and \<open>RoundTrip\<close> again, as a state machine). A
  goroutine is where its loop stands, the variables its closures capture, its caller's context and
  what it has done so far; everything else is the one world it shares. A step is one goroutine's
  next action, or anything the rest of the process does; which comes next is open, so between two
  actions of a goroutine any number of others may act and any time may pass. What one attempt, one
  pause hook does to the world happens at one instant of its own.
\<close>

section \<open>One goroutine\<close>

datatype stage =
    Starting
  | Trying nat duration
  | Failed nat duration duration
  | Asleep nat duration duration int
  | Returned bool "err option"

record 's goroutine =
  g_stage :: stage
  g_vars :: 's
  g_ctx :: go_context
  g_start :: int
  g_tries :: "int list"
  g_pauses :: "(nat \<times> duration \<times> duration \<times> int) list"

text \<open>
  What a goroutine runs: \<open>schedule.run\<close> with a door's closures, or a single call. \<open>g_tries\<close> is
  the clock reading each attempt began at; \<open>g_pauses\<close> holds, for each call of the pause hook, its
  retry number, the wait the attempt asked for, the wait chosen and the reading when the hook was done.
\<close>

datatype 's program =
    Loop schedule "'s attempt_fn" "'s pause_fn"
  | Once "'s \<times> world \<Rightarrow> 's \<times> world"

definition seen_by :: "'s goroutine \<Rightarrow> world \<Rightarrow> world" where
  "seen_by g w = w\<lparr>caller := g_ctx g\<rparr>"

inductive moves :: "'s program \<Rightarrow> 's goroutine \<Rightarrow> world \<Rightarrow> 's goroutine \<Rightarrow> world \<Rightarrow> bool" where
  once: "g_stage g = Starting \<Longrightarrow> f (g_vars g, seen_by g w) = (x, w') \<Longrightarrow>
     moves (Once f) g w
       (g\<lparr>g_stage := Returned False None, g_vars := x, g_ctx := caller w', g_tries := [clock w]\<rparr>) w'"
| no_budget: "g_stage g = Starting \<Longrightarrow> attempts s \<le> 0 \<Longrightarrow>
     moves (Loop s att pau) g w (g\<lparr>g_stage := Returned True None\<rparr>) w"
| start: "g_stage g = Starting \<Longrightarrow> 0 < attempts s \<Longrightarrow>
     moves (Loop s att pau) g w
       (g\<lparr>g_stage := Trying 0 (baseDelay s), g_start := clock w, g_tries := [clock w]\<rparr>) w"
| judged: "g_stage g = Trying n b \<Longrightarrow> att n (g_vars g, seen_by g w) = ((True, e), x, w') \<Longrightarrow>
     moves (Loop s att pau) g w
       (g\<lparr>g_stage := Returned False None, g_vars := x, g_ctx := caller w'\<rparr>) w'"
| spent: "g_stage g = Trying n b \<Longrightarrow> att n (g_vars g, seen_by g w) = ((False, e), x, w') \<Longrightarrow>
     int n = attempts s - 1 \<Longrightarrow>
     moves (Loop s att pau) g w
       (g\<lparr>g_stage := Returned True None, g_vars := x, g_ctx := caller w'\<rparr>) w'"
| failed: "g_stage g = Trying n b \<Longrightarrow> att n (g_vars g, seen_by g w) = ((False, e), x, w') \<Longrightarrow>
     int n \<noteq> attempts s - 1 \<Longrightarrow>
     moves (Loop s att pau) g w
       (g\<lparr>g_stage := Failed n b e, g_vars := x, g_ctx := caller w'\<rparr>) w'"
| late: "g_stage g = Failed n b e \<Longrightarrow> resolveWait e b (seen_by g w) = (d, w1) \<Longrightarrow>
     pau (Suc n) d (g_vars g, w1) = (x, w') \<Longrightarrow> elapsedExceeded s d (g_start g) (clock w') \<Longrightarrow>
     moves (Loop s att pau) g w
       (g\<lparr>g_stage := Returned False (Some ErrElapsed), g_vars := x, g_ctx := caller w',
          g_pauses := g_pauses g @ [(Suc n, e, d, clock w')]\<rparr>) w'"
| sleep: "g_stage g = Failed n b e \<Longrightarrow> resolveWait e b (seen_by g w) = (d, w1) \<Longrightarrow>
     pau (Suc n) d (g_vars g, w1) = (x, w') \<Longrightarrow> \<not> elapsedExceeded s d (g_start g) (clock w') \<Longrightarrow>
     moves (Loop s att pau) g w
       (g\<lparr>g_stage := Asleep n b d (clock w' + max 0 (sint d)), g_vars := x, g_ctx := caller w',
          g_pauses := g_pauses g @ [(Suc n, e, d, clock w')]\<rparr>) w'"
| woken: "g_stage g = Asleep n b d t \<Longrightarrow> t \<le> clock w \<Longrightarrow>
     moves (Loop s att pau) g w
       (g\<lparr>g_stage := Trying (Suc n) (SafeDouble b), g_tries := g_tries g @ [clock w]\<rparr>) w"
| cancelled: "g_stage g = Asleep n b d t \<Longrightarrow> 0 < sint d \<Longrightarrow> c_err (g_ctx g) (clock w) = Some e \<Longrightarrow>
     moves (Loop s att pau) g w (g\<lparr>g_stage := Returned False (Some e)\<rparr>) w"

definition fresh :: "'s goroutine \<Rightarrow> bool" where
  "fresh g \<longleftrightarrow> g_stage g = Starting \<and> g_tries g = [] \<and> g_pauses g = []"

section \<open>The process\<close>

record 's pool =
  p_world :: world
  p_routines :: "nat \<Rightarrow> 's goroutine"

text \<open>The first \<open>k\<close> goroutines run; \<open>env\<close> is what the rest of the process may do to the world between
  their steps, and any context that has not ended may get another end, a cancellation among them.\<close>

inductive pool_step :: "(nat \<Rightarrow> 's program) \<Rightarrow> nat \<Rightarrow> (world \<Rightarrow> world \<Rightarrow> bool) \<Rightarrow> 's pool \<Rightarrow> 's pool \<Rightarrow> bool"
  for prog k env where
  act: "i < k \<Longrightarrow> moves (prog i) (p_routines p i) (p_world p) g w \<Longrightarrow>
     pool_step prog k env p \<lparr>p_world = w, p_routines = (p_routines p)(i := g)\<rparr>"
| pass: "env (p_world p) w \<Longrightarrow> pool_step prog k env p (p\<lparr>p_world := w\<rparr>)"
| cancel: "c_err (g_ctx (p_routines p i)) (clock (p_world p)) = None \<Longrightarrow>
     pool_step prog k env p (p\<lparr>p_routines := (p_routines p)(i := (p_routines p i)\<lparr>g_ctx := c\<rparr>)\<rparr>)"

abbreviation pool_steps :: "(nat \<Rightarrow> 's program) \<Rightarrow> nat \<Rightarrow> (world \<Rightarrow> world \<Rightarrow> bool) \<Rightarrow> 's pool \<Rightarrow> 's pool \<Rightarrow> bool" where
  "pool_steps prog k env \<equiv> (pool_step prog k env)\<^sup>*\<^sup>*"

inductive_cases loop_moves [consumes 1, case_names no_budget start judged spent failed late sleep woken cancelled]:
  "moves (Loop s att pau) g w g' w'"
inductive_cases once_moves [consumes 1, case_names once]: "moves (Once f) g w g' w'"
inductive_cases pool_stepE [consumes 1, case_names act pass cancel]: "pool_step prog k env p p'"

text \<open>
  The contract of a predicate on one goroutine that its own steps keep: no other goroutine, and
  nothing else in the process, can break it, because they cannot reach the goroutine's variables.
\<close>

locale private_invariant =
  fixes q :: "'s program"
    and I :: "'s goroutine \<Rightarrow> bool"
  assumes at_start: "fresh g \<Longrightarrow> I g"
    and own_step: "I g \<Longrightarrow> moves q g w g' w' \<Longrightarrow> I g'"
    and any_context: "I g \<Longrightarrow> I (g\<lparr>g_ctx := c\<rparr>)"
begin

lemma interleaved:
  assumes "pool_steps prog k env p p'" and "prog i = q" and "fresh (p_routines p i)"
  shows "I (p_routines p' i)"
  using assms(1)
proof (induction rule: rtranclp_induct)
  case base
  show ?case using assms(3) by (rule at_start)
next
  case (step p1 p2)
  from step(2) show ?case
  proof (cases rule: pool_stepE)
    case (act j g w)
    with step.IH own_step [of "p_routines p1 i" "p_world p1" g w] assms(2) show ?thesis by auto
  qed (use step.IH any_context in auto)
qed

end

section \<open>Each goroutine keeps its own schedule\<close>

definition paused_ok :: "schedule \<Rightarrow> 's goroutine \<Rightarrow> bool" where
  "paused_ok s g \<longleftrightarrow>
     (\<forall>i < length (g_pauses g). case g_pauses g ! i of (r, e, d, t) \<Rightarrow>
        r = Suc i \<and> wait_ok (baseDelay s) i e d \<and>
        (Suc i < length (g_tries g) \<longrightarrow>
           t + max 0 (sint d) \<le> g_tries g ! Suc i \<and> \<not> elapsedExceeded s d (g_start g) t))"

definition staged :: "schedule \<Rightarrow> 's goroutine \<Rightarrow> bool" where
  "staged s g \<longleftrightarrow>
     (let N = attempts s; tried = length (g_tries g); paused = length (g_pauses g)
      in case g_stage g of
           Starting \<Rightarrow> tried = 0 \<and> paused = 0
         | Trying n b \<Rightarrow> b = (SafeDouble ^^ n) (baseDelay s) \<and> tried = Suc n \<and> paused = n \<and> int n < N
         | Failed n b e \<Rightarrow> b = (SafeDouble ^^ n) (baseDelay s) \<and> tried = Suc n \<and> paused = n \<and> int n < N - 1
         | Asleep n b d t \<Rightarrow> b = (SafeDouble ^^ n) (baseDelay s) \<and> tried = Suc n \<and> paused = Suc n \<and> int n < N - 1 \<and>
             (case last (g_pauses g) of (r, e, d', t') \<Rightarrow>
                d' = d \<and> t = t' + max 0 (sint d) \<and> \<not> elapsedExceeded s d (g_start g) t')
         | Returned ex None \<Rightarrow> paused = tried - 1 \<and> tried \<le> nat N \<and> (ex \<longrightarrow> tried = nat N)
         | Returned ex (Some r) \<Rightarrow> \<not> ex \<and> paused = tried \<and> tried < nat N \<and>
             (r = ErrElapsed \<and> 0 < sint (maxElapsed s) \<or> r = Canceled \<or> r = DeadlineExceeded))"

lemma c_err_plain: "c_err c t = Some e \<Longrightarrow> e = Canceled \<or> e = DeadlineExceeded"
  by (cases "snd (the (c_end c))") (auto simp: c_err_def split: option.splits if_splits)

lemma paused_ok_frame [simp]:
  "paused_ok s (g\<lparr>g_stage := st\<rparr>) = paused_ok s g" "paused_ok s (g\<lparr>g_vars := x\<rparr>) = paused_ok s g"
  "paused_ok s (g\<lparr>g_ctx := c\<rparr>) = paused_ok s g"
  by (simp_all add: paused_ok_def)

lemma paused_ok_Nil: "g_pauses g = [] \<Longrightarrow> paused_ok s g"
  by (simp add: paused_ok_def)

lemma paused_ok_snoc:
  assumes "paused_ok s g" and "length (g_pauses g) = n" and "length (g_tries g) = Suc n" and "wait_ok (baseDelay s) n e d"
    and "g_pauses g' = g_pauses g @ [(Suc n, e, d, t)]" and "g_tries g' = g_tries g" and "g_start g' = g_start g"
  shows "paused_ok s g'"
  using assms by (auto simp: paused_ok_def nth_append less_Suc_eq split: prod.splits)

lemma paused_ok_try:
  assumes "paused_ok s g" and "length (g_pauses g) = Suc n" and "length (g_tries g) = Suc n"
    and "case last (g_pauses g) of (r, e, d, t) \<Rightarrow> t + max 0 (sint d) \<le> now \<and> \<not> elapsedExceeded s d (g_start g) t"
    and "g_tries g' = g_tries g @ [now]" and "g_pauses g' = g_pauses g" and "g_start g' = g_start g"
  shows "paused_ok s g'"
proof -
  have "last (g_pauses g) = g_pauses g ! n"
    using assms(2) by (metis diff_Suc_1 last_conv_nth length_0_conv nat.distinct(1))
  with assms show ?thesis by (auto simp: paused_ok_def nth_append less_Suc_eq split: prod.splits)
qed

interpretation scheduled: private_invariant "Loop s att pau" "\<lambda>g. paused_ok s g \<and> staged s g" for s att pau
proof (unfold_locales, goal_cases)
  case (1 g)
  then show ?case by (simp add: fresh_def paused_ok_def staged_def)
next
  case (2 g w g' w')
  from 2(2) show ?case
  proof (cases rule: loop_moves)
    case (late n b e d w1 x)
    have "paused_ok s g'"
      by (rule paused_ok_snoc [of s g n e d])
        (use 2(1) late resolveWait_ok [of "baseDelay s" n e "seen_by g w"] in \<open>auto simp: staged_def Let_def\<close>)
    with 2(1) late show ?thesis by (auto simp: staged_def Let_def elapsedExceeded_def dur_simps)
  next
    case (sleep n b e d w1 x)
    have "paused_ok s g'"
      by (rule paused_ok_snoc [of s g n e d])
        (use 2(1) sleep resolveWait_ok [of "baseDelay s" n e "seen_by g w"] in \<open>auto simp: staged_def Let_def\<close>)
    with 2(1) sleep show ?thesis by (auto simp: staged_def Let_def)
  next
    case (woken n b d t)
    have "paused_ok s g'"
      by (rule paused_ok_try [of s g n "clock w"]) (use 2(1) woken in \<open>auto simp: staged_def Let_def split: prod.splits\<close>)
    with 2(1) woken show ?thesis by (auto simp: staged_def Let_def)
  qed (use 2(1) c_err_plain in \<open>auto simp: staged_def Let_def intro: paused_ok_Nil\<close>)
next
  case (3 g c)
  then show ?case by (cases "g_stage g") (simp_all add: staged_def Let_def)
qed

section \<open>One call alone is an execution\<close>

text \<open>Between the steps of one call the rest of the process only lets time pass and draws random numbers.\<close>

definition idle :: "world \<Rightarrow> world \<Rightarrow> bool" where
  "idle w w' \<longleftrightarrow> (\<exists>t n. clock w \<le> t \<and> w' = w\<lparr>clock := t, drawn := n\<rparr>)"

lemma SleepCtx_idle: "SleepCtx d w = (r, w') \<Longrightarrow> idle w w'"
  unfolding idle_def
  by (rule exI [of _ "clock w'"], rule exI [of _ "drawn w'"])
     (use SleepCtx_clock(1) [of w d] in \<open>auto simp: SleepCtx_def draw_def Let_def split: option.splits if_splits\<close>)

lemma seen_by_caller [simp]: "g_ctx g = caller w \<Longrightarrow> seen_by g w = w"
  by (simp add: seen_by_def)

definition alone :: "nat \<Rightarrow> 's goroutine \<Rightarrow> world \<Rightarrow> (nat \<Rightarrow> 's goroutine) \<Rightarrow> 's pool" where
  "alone i g w rs = \<lparr>p_world = w, p_routines = rs(i := g)\<rparr>"

lemma alone_act:
  "i < k \<Longrightarrow> moves (prog i) g w g' w' \<Longrightarrow> pool_step prog k env (alone i g w rs) (alone i g' w' rs)"
  using pool_step.act [where p = "alone i g w rs" and prog = prog and k = k and g = g' and w = w' and i = i and env = env]
  by (simp add: alone_def)

lemma alone_pass: "idle w w' \<Longrightarrow> pool_step prog k idle (alone i g w rs) (alone i g w' rs)"
  using pool_step.pass [where p = "alone i g w rs" and env = idle and w = w'] by (simp add: alone_def)

lemma loop_executes:
  assumes "i < k" and "prog i = Loop s att pau" and "run_loop s att pau start left n b (x, w) = (ex, e, x', w')"
    and "g_stage g = Trying n b" and "g_vars g = x" and "g_ctx g = caller w" and "g_start g = start"
    and "int n + int left = attempts s" and "0 < left"
  shows "\<exists>g'. pool_steps prog k idle (alone i g w rs) (alone i g' w' rs) \<and> g_stage g' = Returned ex e \<and> g_vars g' = x'"
  using assms(3-)
proof (induction left arbitrary: n b x w g)
  case (Suc left)
  note go = alone_act [where prog = prog and env = idle and rs = rs, OF assms(1), unfolded assms(2)]
  let ?f = "\<lambda>e0 x1 w1. g\<lparr>g_stage := Failed n b e0, g_vars := x1, g_ctx := caller w1\<rparr>"
  let ?a = "\<lambda>e0 x1 w1 d x3 w3. (?f e0 x1 w1)\<lparr>g_stage := Asleep n b d (clock w3 + max 0 (sint d)), g_vars := x3,
    g_ctx := caller w3, g_pauses := g_pauses (?f e0 x1 w1) @ [(Suc n, e0, d, clock w3)]\<rparr>"
  have to_failed: "pool_step prog k idle (alone i g w rs) (alone i (?f e0 x1 w1) w1 rs)"
    if "att n (x, w) = ((False, e0), x1, w1)" "0 < left" for e0 x1 w1
    by (rule go, rule moves.failed) (use that Suc.prems in auto)
  have to_asleep: "pool_steps prog k idle (alone i g w rs) (alone i (?a e0 x1 w1 d x3 w3) w4 rs)"
    if "att n (x, w) = ((False, e0), x1, w1)" "0 < left" "resolveWait e0 b w1 = (d, w2)" "pau (Suc n) d (x1, w2) = (x3, w3)"
      "\<not> elapsedExceeded s d start (clock w3)" "SleepCtx d w3 = (r, w4)" for e0 x1 w1 d w2 x3 w3 w4 r
  proof -
    have "moves (Loop s att pau) (?f e0 x1 w1) w1 (?a e0 x1 w1 d x3 w3) w3"
      by (rule moves.sleep) (use that Suc.prems in auto)
    from to_failed [OF that(1,2)] go [OF this] alone_pass [OF SleepCtx_idle [OF that(6)]]
    show ?thesis by (meson r_into_rtranclp rtranclp.rtrancl_into_rtrancl)
  qed
  show ?case
  proof (cases rule: run_loop_cases [of att n x w s pau start left b])
    case (judged e0 x1 w1)
    let ?g = "g\<lparr>g_stage := Returned False None, g_vars := x1, g_ctx := caller w1\<rparr>"
    have "moves (Loop s att pau) g w ?g w1"
      by (rule moves.judged) (use judged Suc.prems in auto)
    with go judged(2) Suc.prems(1) show ?thesis by (intro exI [of _ ?g]) auto
  next
    case (spent e0 x1 w1)
    let ?g = "g\<lparr>g_stage := Returned True None, g_vars := x1, g_ctx := caller w1\<rparr>"
    have "moves (Loop s att pau) g w ?g w1"
      by (rule moves.spent) (use spent Suc.prems in auto)
    with go spent(3) Suc.prems(1) show ?thesis by (intro exI [of _ ?g]) auto
  next
    case (stopped e0 x1 w1 d w2 x3 w3 r w4)
    from stopped(5) show ?thesis
    proof
      assume l: "elapsedExceeded s d start (clock w3) \<and> r = ErrElapsed \<and> w4 = w3"
      let ?g = "(?f e0 x1 w1)\<lparr>g_stage := Returned False (Some ErrElapsed), g_vars := x3, g_ctx := caller w3,
        g_pauses := g_pauses (?f e0 x1 w1) @ [(Suc n, e0, d, clock w3)]\<rparr>"
      have "moves (Loop s att pau) (?f e0 x1 w1) w1 ?g w3"
        by (rule moves.late) (use stopped l Suc.prems in auto)
      with to_failed [OF stopped(1,2)] go stopped(6) l Suc.prems(1) show ?thesis
        by (intro exI [of _ ?g]) (auto intro: rtranclp.rtrancl_into_rtrancl)
    next
      assume l: "\<not> elapsedExceeded s d start (clock w3) \<and> SleepCtx d w3 = (Some r, w4)"
      let ?g = "(?a e0 x1 w1 d x3 w3)\<lparr>g_stage := Returned False (Some r)\<rparr>"
      have "moves (Loop s att pau) (?a e0 x1 w1 d x3 w3) w4 ?g w4"
        by (rule moves.cancelled)
          (use l SleepCtx_stopped [of d w3 r w4] SleepCtx_nonpos [of d w3] SleepCtx_frame(1) [of d w3] in
            \<open>auto simp: ctx_err_def not_le [symmetric]\<close>)
      with to_asleep [OF stopped(1-4), of "Some r" w4] l go stopped(6) Suc.prems(1) show ?thesis
        by (intro exI [of _ ?g]) (auto intro: rtranclp.rtrancl_into_rtrancl)
    qed
  next
    case (again e0 x1 w1 d w2 x3 w3 w4)
    let ?t = "(?a e0 x1 w1 d x3 w3)\<lparr>g_stage := Trying (Suc n) (SafeDouble b),
      g_tries := g_tries (?a e0 x1 w1 d x3 w3) @ [clock w4]\<rparr>"
    have "clock w3 + max 0 (sint d) \<le> clock w4"
      using again(6) SleepCtx_slept [of d w3 w4] SleepCtx_nonpos [of d w3] by (cases "0 < sint d") auto
    then have "moves (Loop s att pau) (?a e0 x1 w1 d x3 w3) w4 ?t w4"
      by (intro moves.woken) auto
    with to_asleep [OF again(1-5) again(6)] go
    have "pool_steps prog k idle (alone i g w rs) (alone i ?t w4 rs)" by (auto intro: rtranclp.rtrancl_into_rtrancl)
    moreover have "\<exists>g'. pool_steps prog k idle (alone i ?t w4 rs) (alone i g' w' rs) \<and> g_stage g' = Returned ex e \<and> g_vars g' = x'"
      by (rule Suc.IH [of "Suc n" "SafeDouble b" x3 w4])
        (use again Suc.prems SleepCtx_frame(1) [of d w3] in auto)
    ultimately show ?thesis by (auto intro: rtranclp_trans)
  qed
qed simp

section \<open>A goroutine can always go on\<close>

definition todo :: "schedule \<Rightarrow> 's goroutine \<Rightarrow> nat" where
  "todo s g =
     (case g_stage g of
        Starting \<Rightarrow> 3 * nat (attempts s) + 1
      | Trying n b \<Rightarrow> 3 * (nat (attempts s) - n)
      | Failed n b e \<Rightarrow> 3 * (nat (attempts s) - n) - 1
      | Asleep n b d t \<Rightarrow> 3 * (nat (attempts s) - n) - 2
      | Returned ex e \<Rightarrow> 0)"

lemma moves_todo: "staged s g \<Longrightarrow> moves (Loop s att pau) g w g' w' \<Longrightarrow> todo s g' < todo s g"
  by (erule loop_moves) (auto simp: staged_def todo_def Let_def)

lemma next_move:
  assumes "\<And>ex e. g_stage g \<noteq> Returned ex e"
  shows "\<exists>w1 g' w'. idle w w1 \<and> moves (Loop s att pau) g w1 g' w'"
proof -
  have still: "idle w w" unfolding idle_def by (rule exI [of _ "clock w"], rule exI [of _ "drawn w"]) simp
  show ?thesis
  proof (cases "g_stage g")
    case Starting
    with still show ?thesis by (cases "attempts s \<le> 0") (meson moves.intros not_le)+
  next
    case (Trying n b)
    obtain dn e x w' where a: "att n (g_vars g, seen_by g w) = ((dn, e), x, w')" by (metis prod.exhaust)
    then consider "att n (g_vars g, seen_by g w) = ((True, e), x, w')"
      | "att n (g_vars g, seen_by g w) = ((False, e), x, w')" "int n = attempts s - 1"
      | "att n (g_vars g, seen_by g w) = ((False, e), x, w')" "int n \<noteq> attempts s - 1" by (cases dn) auto
    with Trying still show ?thesis by cases (meson moves.judged moves.spent moves.failed)+
  next
    case (Failed n b e)
    obtain d w1 where r: "resolveWait e b (seen_by g w) = (d, w1)" by fastforce
    obtain x w' where "pau (Suc n) d (g_vars g, w1) = (x, w')" by fastforce
    with r Failed still show ?thesis
      by (cases "elapsedExceeded s d (g_start g) (clock w')") (meson moves.intros)+
  next
    case (Asleep n b d t)
    let ?w = "w\<lparr>clock := max t (clock w)\<rparr>"
    have "idle w ?w" unfolding idle_def by (rule exI [of _ "max t (clock w)"], rule exI [of _ "drawn w"]) simp
    moreover have "t \<le> clock ?w" by simp
    ultimately show ?thesis using Asleep by (meson moves.woken)
  qed (use assms in auto)
qed

lemma finishes:
  assumes "staged s g" and "paused_ok s g" and "i < k" and "prog i = Loop s att pau"
  shows "\<exists>g' w' ex e. pool_steps prog k idle (alone i g w rs) (alone i g' w' rs) \<and> g_stage g' = Returned ex e"
  using assms(1,2)
proof (induction "todo s g" arbitrary: g w rule: less_induct)
  case less
  show ?case
  proof (cases "\<exists>ex e. g_stage g = Returned ex e")
    case False
    then obtain w1 g' w' where m: "idle w w1" "moves (Loop s att pau) g w1 g' w'" using next_move [of g w s att pau] by blast
    then have "pool_steps prog k idle (alone i g w rs) (alone i g' w' rs)"
      using alone_pass [OF m(1), of prog k i g rs] alone_act [of i k prog g w1 g' w' idle rs] assms(3,4)
      by (auto intro: rtranclp.rtrancl_into_rtrancl)
    moreover have "staged s g'" "paused_ok s g'" using scheduled.own_step [OF conjI m(2)] less.prems by simp_all
    ultimately show ?thesis
      using less.hyps [OF moves_todo [OF less.prems(1) m(2)], of w'] by (meson rtranclp_trans)
  qed blast
qed

section \<open>Properties\<close>

text \<open>
  C15: Each \<open>schedule.run\<close> keeps a backoff and a budget of its own, whatever runs beside it. In a
  process with any number of goroutines, whose steps and the steps of everything else come in any order,
  a goroutine that runs the loop never begins more attempts than its schedule has; it calls its
  pause hook with 1, 2, ... and waits what the attempt before asked for, or half to all of its own base
  delay doubled once for each earlier wait, no matter how many retries the others have had; it begins no
  attempt before that wait, counted from the end of the hook, is over, and none after a wait that
  would have met its \<open>maxElapsed\<close>. When it reports exhaustion it has made all its attempts, and an error it
  stops with is \<open>errElapsed\<close> under a ceiling or the end of its caller's context.
\<close>

theorem interleaved_schedules_stay_apart:
  assumes "pool_steps prog k env p p'" and "prog i = Loop s att pau" and "fresh (p_routines p i)"
  shows "let g = p_routines p' i; ts = g_tries g; ps = g_pauses g
    in length ts \<le> nat (attempts s) \<and> length ts - 1 \<le> length ps \<and> length ps \<le> length ts \<and>
       (\<forall>j < length ps. case ps ! j of (r, e, d, t) \<Rightarrow>
          r = Suc j \<and> wait_ok (baseDelay s) j e d \<and>
          (Suc j < length ts \<longrightarrow>
             t + max 0 (sint d) \<le> ts ! Suc j \<and> \<not> elapsedExceeded s d (g_start g) t)) \<and>
       (case g_stage g of
          Returned ex None \<Rightarrow> length ps = length ts - 1 \<and> (ex \<longrightarrow> length ts = nat (attempts s))
        | Returned ex (Some r) \<Rightarrow> \<not> ex \<and> length ps = length ts \<and> length ts < nat (attempts s) \<and>
            (r = ErrElapsed \<and> 0 < sint (maxElapsed s) \<or> r = Canceled \<or> r = DeadlineExceeded)
        | _ \<Rightarrow> True)"
proof -
  let ?g = "p_routines p' i"
  have P: "paused_ok s ?g" and S: "staged s ?g" using scheduled.interleaved [OF assms] by simp_all
  from S have "length (g_tries ?g) \<le> nat (attempts s)" "length (g_tries ?g) - 1 \<le> length (g_pauses ?g)"
    "length (g_pauses ?g) \<le> length (g_tries ?g)"
    by (cases "g_stage ?g"; auto simp: staged_def Let_def split: option.splits)+
  moreover from S have "case g_stage ?g of
      Returned ex None \<Rightarrow> length (g_pauses ?g) = length (g_tries ?g) - 1 \<and> (ex \<longrightarrow> length (g_tries ?g) = nat (attempts s))
    | Returned ex (Some r) \<Rightarrow> \<not> ex \<and> length (g_pauses ?g) = length (g_tries ?g) \<and> length (g_tries ?g) < nat (attempts s) \<and>
        (r = ErrElapsed \<and> 0 < sint (maxElapsed s) \<or> r = Canceled \<or> r = DeadlineExceeded)
    | _ \<Rightarrow> True"
    by (cases "g_stage ?g") (auto simp: staged_def Let_def split: option.splits)
  moreover note P [unfolded paused_ok_def]
  ultimately show ?thesis unfolding Let_def by blast
qed

text \<open>
  C17: No goroutine waits for another. From every state a process can reach, a goroutine that runs the
  loop can go on to its end while all others stand still, with nothing happening in between but time
  passing: the loop takes no lock and leaves nothing behind that another run could block on.
\<close>

theorem interleaved_loop_can_finish:
  assumes "pool_steps prog k env p p'" and "prog i = Loop s att pau" and "fresh (p_routines p i)" and "i < k"
  shows "\<exists>g w ex e. pool_steps prog k idle p' \<lparr>p_world = w, p_routines = (p_routines p')(i := g)\<rparr> \<and>
    g_stage g = Returned ex e"
proof -
  have "alone i (p_routines p' i) (p_world p') (p_routines p') = p'" by (simp add: alone_def)
  moreover have "staged s (p_routines p' i)" "paused_ok s (p_routines p' i)"
    using scheduled.interleaved [OF assms(1-3)] by simp_all
  from finishes [where prog = prog and i = i and k = k, OF this assms(4,2), of "p_world p'" "p_routines p'"]
  obtain g w ex e where
    "pool_steps prog k idle (alone i (p_routines p' i) (p_world p') (p_routines p')) (alone i g w (p_routines p'))"
    "g_stage g = Returned ex e"
    by blast
  ultimately show ?thesis unfolding alone_def by metis
qed

text \<open>Two goroutines on one schedule: the second begins while the first sleeps.\<close>

definition two_loops :: "nat \<Rightarrow> unit program" where
  "two_loops i = Loop \<lparr>attempts = 3, baseDelay = 100, maxElapsed = 0\<rparr> slow_attempt idle_pause"

definition newborn :: "unit goroutine" where
  "newborn = \<lparr>g_stage = Starting, g_vars = (), g_ctx = \<lparr>c_deadline = None, c_end = None\<rparr>, g_start = 0, g_tries = [], g_pauses = []\<rparr>"

definition both_tried :: "unit pool" where
  "both_tried = \<lparr>p_world = world0, p_routines = (\<lambda>_. newborn)
     (0 := newborn\<lparr>g_stage := Trying 0 100, g_tries := [0]\<rparr>, 1 := newborn\<lparr>g_stage := Trying 0 100, g_tries := [0]\<rparr>)\<rparr>"

lemma both_tried_reached:
  "pool_steps two_loops 2 idle \<lparr>p_world = world0, p_routines = \<lambda>_. newborn\<rparr> both_tried"
proof -
  let ?g = "newborn\<lparr>g_stage := Trying 0 100, g_tries := [0]\<rparr>"
  have m: "moves (two_loops i) newborn world0 ?g world0" for i
    using moves.start [of newborn "\<lparr>attempts = 3, baseDelay = 100, maxElapsed = 0\<rparr>" slow_attempt idle_pause world0]
    by (simp add: two_loops_def newborn_def world0_def)
  have "pool_step two_loops 2 idle \<lparr>p_world = world0, p_routines = \<lambda>_. newborn\<rparr>
      \<lparr>p_world = world0, p_routines = (\<lambda>_. newborn)(0 := ?g)\<rparr>"
    using pool_step.act [of 0 2 two_loops "\<lparr>p_world = world0, p_routines = \<lambda>_. newborn\<rparr>" ?g world0 idle] m by simp
  moreover have "pool_step two_loops 2 idle \<lparr>p_world = world0, p_routines = (\<lambda>_. newborn)(0 := ?g)\<rparr> both_tried"
    using pool_step.act [of 1 2 two_loops "\<lparr>p_world = world0, p_routines = (\<lambda>_. newborn)(0 := ?g)\<rparr>" ?g world0 idle] m
    by (simp add: both_tried_def)
  ultimately show ?thesis by (auto intro: rtranclp.rtrancl_into_rtrancl)
qed

theorem interleaved_schedules_stay_apart_witness:
  "length (g_tries (p_routines both_tried 1)) \<le> 3 \<and> g_tries (p_routines both_tried 1) = [0] \<and>
   g_stage (p_routines both_tried 0) = Trying 0 100"
  using interleaved_schedules_stay_apart [OF both_tried_reached, of 1 "\<lparr>attempts = 3, baseDelay = 100, maxElapsed = 0\<rparr>"
      slow_attempt idle_pause]
  by (simp add: two_loops_def fresh_def newborn_def both_tried_def Let_def)

theorem interleaved_loop_can_finish_witness:
  "\<exists>g w ex e. pool_steps two_loops 2 idle both_tried \<lparr>p_world = w, p_routines = (p_routines both_tried)(1 := g)\<rparr> \<and>
    g_stage g = Returned ex e"
  using interleaved_loop_can_finish [OF both_tried_reached, of 1 "\<lparr>attempts = 3, baseDelay = 100, maxElapsed = 0\<rparr>"
      slow_attempt idle_pause]
  by (simp add: two_loops_def fresh_def newborn_def)

end
