(* ===== verification/Sharing.thy ===== *)
theory Sharing
  imports Interleaving
begin

text \<open>
  Goroutines that share one \<open>RetryRoundTripper\<close> (\<open>roundtripper.go\<close>, as the state machine of theory
  Interleaving): each runs \<open>RoundTrip\<close> on a request of its own. The invariant says which goroutine is
  responsible for which response body.
\<close>

section \<open>Goroutines that share one round tripper\<close>



text \<open>The body a goroutine is responsible for: of a response its last attempt got and the pause
  has not drained yet, or of the response it returns.\<close>

definition holds :: "rt_vars goroutine \<Rightarrow> nat option" where
  "holds g =
     (case g_stage g of
        Failed n b e \<Rightarrow> held (fst (g_vars g))
      | Returned ex None \<Rightarrow> held (fst (g_vars g))
      | _ \<Rightarrow> None)"

definition sent :: "'s goroutine \<Rightarrow> nat" where
  "sent g = (case g_stage g of Starting \<Rightarrow> 0 | Trying n b \<Rightarrow> length (g_tries g) - 1 | _ \<Rightarrow> length (g_tries g))"

lemma holds_ctx [simp]: "holds (g\<lparr>g_ctx := c\<rparr>) = holds g"
  by (cases "g_stage g") (simp_all add: holds_def)

lemma sent_ctx [simp]: "sent (g\<lparr>g_ctx := c\<rparr>) = sent g"
  by (cases "g_stage g") (simp_all add: sent_def)


definition tidy :: "world \<Rightarrow> nat option \<Rightarrow> world \<Rightarrow> nat option \<Rightarrow> bool" where
  "tidy w h w' h' \<longleftrightarrow>
     outside w \<le> outside w' \<and>
     (\<forall>a < outside w. b_closed (bodies w' a) = b_closed (bodies w a) + (if h = Some a then 1 else 0)) \<and>
     (\<forall>a. outside w \<le> a \<and> a < outside w' \<longrightarrow> b_closed (bodies w' a) = (if h' = Some a then 0 else 1)) \<and>
     (\<forall>a. h' = Some a \<longrightarrow> outside w \<le> a \<and> a < outside w')"




lemma tidy_seen_by [simp]: "tidy (seen_by g w) h w' h' = tidy w h w' h'" "outside (seen_by g w) = outside w"
  by (simp_all add: tidy_def seen_by_def)















definition called :: "go_context \<Rightarrow> rt_vars goroutine" where
  "called c = \<lparr>g_stage = Starting, g_vars = (None, None), g_ctx = c, g_start = 0, g_tries = [], g_pauses = []\<rparr>"

lemma called_simps [simp]:
  "g_stage (called c) = Starting" "g_vars (called c) = (None, None)" "g_ctx (called c) = c"
  "g_tries (called c) = []" "g_pauses (called c) = []" "fresh (called c)"
  by (simp_all add: called_def fresh_def)



section \<open>Properties\<close>







end
