(* ===== verification/Configured.thy ===== *)
theory Configured
  imports Redirects
begin

text \<open>
  \<open>RedirectPolicyFunc\<close> under any list of options (\<open>httpx.go\<close>, 804 to 870 and 1051 to 1169): what a chain of
  followed hops keeps, said with the last value given for each option.
\<close>

section \<open>The last value of an option\<close>

definition latest :: "(redirect_option \<Rightarrow> 'a option) \<Rightarrow> redirect_option option list \<Rightarrow> 'a \<Rightarrow> 'a" where
  "latest get opts d =
     (case List.map_filter (\<lambda>opt. case opt of None \<Rightarrow> None | Some opt \<Rightarrow> get opt) opts of
        [] \<Rightarrow> d
      | xs \<Rightarrow> last xs)"

fun hosts_of :: "redirect_option \<Rightarrow> string list option" where
  "hosts_of (WithAllowedHosts hs) = Some hs" | "hosts_of _ = None"

fun suffixes_of :: "redirect_option \<Rightarrow> string list option" where
  "suffixes_of (WithAllowedSuffixes ss) = Some ss" | "suffixes_of _ = None"

fun hops_of :: "redirect_option \<Rightarrow> int option" where
  "hops_of (WithMaxHops n) = Some n" | "hops_of _ = None"

fun same_host_of :: "redirect_option \<Rightarrow> bool option" where
  "same_host_of (WithSameHost b) = Some b" | "same_host_of _ = None"

fun same_origin_of :: "redirect_option \<Rightarrow> bool option" where
  "same_origin_of (WithSameOrigin b) = Some b" | "same_origin_of _ = None"

fun downgrade_of :: "redirect_option \<Rightarrow> bool option" where
  "downgrade_of (WithAllowSchemeDowngrade b) = Some b" | "downgrade_of _ = None"

fun method_of :: "redirect_option \<Rightarrow> bool option" where
  "method_of (WithPreserveMethod b) = Some b" | "method_of _ = None"

lemma latest_Nil [simp]: "latest get [] d = d"
  by (simp add: latest_def List.map_filter_def)

lemma latest_Cons [simp]:
  "latest get (opt # opts) d =
     latest get opts (case opt of None \<Rightarrow> d | Some opt \<Rightarrow> (case get opt of None \<Rightarrow> d | Some x \<Rightarrow> x))"
  by (auto simp: latest_def List.map_filter_def split: option.splits list.splits)

definition compiled :: "redirect_option option list \<Rightarrow> resolvedRedirect" where
  "compiled opts =
     (let n = latest hops_of opts 0
      in \<lparr>rr_allowedHosts = hostKeysOf (latest hosts_of opts []), rr_suffixes = normalizeSuffixes (latest suffixes_of opts []),
          rr_maxHops = (if n \<le> 0 then redirectCap else n),
          rr_sameHost = latest same_host_of opts False, rr_sameOrigin = latest same_origin_of opts False,
          rr_allowDowngrade = latest downgrade_of opts False, rr_preserveMethod = latest method_of opts False\<rparr>)"

lemma options_folded:
  "fold (\<lambda>opt c. case opt of None \<Rightarrow> c | Some opt \<Rightarrow> apply_redirect_option opt c) opts
     \<lparr>rc_allowedHosts = a, rc_allowedSuffixes = b, rc_maxHops = n, rc_sameHost = h, rc_sameOrigin = g,
      rc_allowSchemeDowngrade = d, rc_preserveMethod = m\<rparr> =
   \<lparr>rc_allowedHosts = latest hosts_of opts a, rc_allowedSuffixes = latest suffixes_of opts b,
    rc_maxHops = latest hops_of opts n, rc_sameHost = latest same_host_of opts h, rc_sameOrigin = latest same_origin_of opts g,
    rc_allowSchemeDowngrade = latest downgrade_of opts d, rc_preserveMethod = latest method_of opts m\<rparr>"
proof (induction opts arbitrary: a b n h g d m)
  case (Cons opt opts)
  show ?case
  proof (cases opt)
    case (Some x)
    then show ?thesis by (cases x) (simp_all add: Cons.IH)
  qed (simp add: Cons.IH)
qed simp

lemma policy_compiled: "RedirectPolicyFunc opts req via = None \<Longrightarrow> check (compiled opts) req via = None"
  unfolding RedirectPolicyFunc_def options_folded by (auto simp: compiled_def Let_def split: if_splits)

lemma listed_host:
  assumes "originKeyOf (hop_URL req) = Some to" and "redirectAllowed (ok_host to) (hostKeysOf hs) (normalizeSuffixes ss)"
  shows "\<exists>u k. hop_URL req = Some u \<and> hostKeyOf (Hostname u) = Some k \<and>
      ((\<exists>h \<in> set hs. hostKeyOf h = Some k) \<or>
       (\<exists>x \<in> set ss. hk_addr k = None \<and> in_domain (suffix_domain x) (hk_name k)))"
  using assms redirectAllowed_cases [OF assms(2)] hostKeyOf_shape
  by (cases "hop_URL req") (fastforce simp: in_domain_def dest: originKeyOf_host)+

text \<open>Each request of a chain but the first was followed with the original at the head of the requests before it.\<close>

lemma hop_checked:
  assumes "hops (RedirectPolicyFunc opts) orig via" and "req \<in> set (tl via)"
  obtains rest where "check (compiled opts) req (orig # rest) = None"
proof -
  obtain i where "i < length (tl via)" "tl via ! i = req" using assms(2) by (auto simp: in_set_conv_nth)
  then have i: "0 < Suc i" "Suc i < length via" "via ! Suc i = req" by (simp_all add: nth_tl)
  from hops_followed [OF assms(1) i(1,2)] i(3)
  have f: "RedirectPolicyFunc opts req (take (Suc i) via) = None" "hops (RedirectPolicyFunc opts) orig (take (Suc i) via)" by simp_all
  from hops_via [OF f(2)] obtain rest where "take (Suc i) via = orig # rest" by blast
  with that policy_compiled [OF f(1)] show thesis by simp
qed

lemma chain_within_cap:
  assumes "hops (RedirectPolicyFunc opts) orig via"
  shows "int (length via) \<le> 1 + rr_maxHops (compiled opts)"
  using assms
proof (induction rule: hops.induct)
  case hops_first
  then show ?case by (simp add: compiled_def Let_def)
next
  case (hops_follow via req)
  obtain rest where "via = orig # rest" using hops_via [OF hops_follow(1)] by blast
  with check_follow(1) [of "compiled opts" req orig rest] policy_compiled [OF hops_follow(2)] show ?case by simp
qed

section \<open>Properties\<close>

text \<open>
  C19: A chain of redirects stays within the options, whatever they are, in whatever order and however often
  each is given: the last value of each counts. There are at most as many hops as \<open>WithMaxHops\<close> says, or
  five. Each hop goes to the original host, under \<open>WithSameHost\<close> or \<open>WithSameOrigin\<close>, or to a listed host, or to a name in
  the domain of a listed suffix, at a label boundary and never an address; under \<open>WithSameOrigin\<close> a hop to the
  original host keeps its scheme and port too, whatever else lists the host. None goes from TLS to the
  clear without \<open>WithAllowSchemeDowngrade\<close>, and under \<open>WithPreserveMethod\<close> none changes the method.
\<close>

theorem configured_chain_stays_within_options:
  assumes "hops (RedirectPolicyFunc opts) orig via" and "req \<in> set (tl via)"
  shows "let n = latest hops_of opts 0; hs = latest hosts_of opts []; ss = latest suffixes_of opts []
    in int (length via) \<le> 1 + (if n \<le> 0 then 5 else n) \<and>
       (if latest same_origin_of opts False \<and> same_host orig req then same_origin orig req
        else latest same_host_of opts False \<and> same_host orig req \<or>
          (\<exists>u k. hop_URL req = Some u \<and> hostKeyOf (Hostname u) = Some k \<and>
             ((\<exists>h \<in> set hs. hostKeyOf h = Some k) \<or>
              (\<exists>x \<in> set ss. hk_addr k = None \<and> in_domain (suffix_domain x) (hk_name k))))) \<and>
       (latest downgrade_of opts False \<or> \<not> downgrades orig req) \<and>
       (\<not> latest method_of opts False \<or> effectiveMethod (hop_Method req) = effectiveMethod (hop_Method orig))"
proof -
  obtain rest where c: "check (compiled opts) req (orig # rest) = None" using hop_checked [OF assms] .
  note f = check_follow [OF c]
  have "if latest same_origin_of opts False \<and> same_host orig req then same_origin orig req
        else latest same_host_of opts False \<and> same_host orig req \<or>
          (\<exists>u k. hop_URL req = Some u \<and> hostKeyOf (Hostname u) = Some k \<and>
             ((\<exists>h \<in> set (latest hosts_of opts []). hostKeyOf h = Some k) \<or>
              (\<exists>x \<in> set (latest suffixes_of opts []). hk_addr k = None \<and> in_domain (suffix_domain x) (hk_name k))))"
  proof (cases "latest same_origin_of opts False \<and> same_host orig req")
    case True
    with f(2) show ?thesis
      by (auto simp: targetAllowed_def compiled_def same_host_def same_origin_def Let_def split: option.splits)
  next
    case False
    from f(2) show ?thesis
    proof (cases rule: targetAllowed_cases)
      case origin
      then have "same_host orig req"
        by (cases "originKeyOf (hop_URL orig)") (auto simp: same_origin_def same_host_def)
      with False origin show ?thesis by (simp add: compiled_def Let_def)
    next
      case (listed to)
      from listed_host [OF listed(1)] listed(2) show ?thesis unfolding if_not_P [OF False] by (simp add: compiled_def Let_def)
    next
      case host
      then show ?thesis unfolding if_not_P [OF False] by (simp add: compiled_def Let_def)
    qed
  qed
  then show ?thesis
    using chain_within_cap [OF assms(1)] f(3,4) by (auto simp: compiled_def Let_def)
qed

text \<open>A host that is listed, on its own origin only because \<open>WithSameOrigin\<close> is given too, last among its kind.\<close>

definition mixed_options :: "redirect_option option list" where
  "mixed_options = [Some (WithSameOrigin False), Some (WithAllowedHosts [''h'']), None, Some (WithAllowedSuffixes [''Example.com'']),
     Some (WithSameOrigin True), Some (WithMaxHops 2)]"

theorem configured_chain_stays_within_options_witness:
  "length [hop_to ''https'' ''h'', hop_to ''https'' ''a.example.COM'', hop_to ''https'' ''H:443''] \<le> 3 \<and>
   same_origin (hop_to ''https'' ''h'') (hop_to ''https'' ''H:443'') \<and>
   RedirectPolicyFunc mixed_options (hop_to ''https'' ''h:8443'') [hop_to ''https'' ''h''] =
     Some (RedirectRefusedError ''https://h:8443'' RedirectOtherOrigin)"
proof -
  let ?via = "[hop_to ''https'' ''h'', hop_to ''https'' ''a.example.COM'', hop_to ''https'' ''H:443'']"
  have "RedirectPolicyFunc mixed_options (hop_to ''https'' ''a.example.COM'') [hop_to ''https'' ''h''] = None"
    "RedirectPolicyFunc mixed_options (hop_to ''https'' ''H:443'') [hop_to ''https'' ''h'', hop_to ''https'' ''a.example.COM''] = None"
    by code_simp+
  then have "hops (RedirectPolicyFunc mixed_options) (hop_to ''https'' ''h'') ?via"
    using hops_snoc [of "RedirectPolicyFunc mixed_options" _ _ "[hop_to ''https'' ''a.example.COM'']"] hops_two by simp
  note c = configured_chain_stays_within_options [OF this, of "hop_to ''https'' ''H:443''"]
  have "latest hops_of mixed_options 0 = 2" "latest same_origin_of mixed_options False" by (simp_all add: mixed_options_def)
  moreover have "same_host (hop_to ''https'' ''h'') (hop_to ''https'' ''H:443'')" by code_simp
  moreover have "RedirectPolicyFunc mixed_options (hop_to ''https'' ''h:8443'') [hop_to ''https'' ''h''] =
     Some (RedirectRefusedError ''https://h:8443'' RedirectOtherOrigin)" by code_simp
  ultimately show ?thesis using c by (simp add: Let_def)
qed

end
