(* ===== verification/Following.thy ===== *)
theory Following
  imports Clients Configured Conditional
begin

text \<open>
  A call of a client that \<open>NewClient\<close> (\<open>httpx.go\<close>) or \<open>NewRetryClient\<close> (\<open>roundtripper.go\<close>) built: \<open>net/http\<close>'s loop,
  which asks the transport for each request of a chain and the redirect policy before each further one. The
  loop has no bound of its own, so \<open>None\<close> is a call that never returns.
\<close>

section \<open>The client of net/http\<close>

text \<open>
  What the loop takes from the rest of \<open>net/http\<close>, all of it free here. \<open>nh_next\<close> reads the last response to
  the requests so far: \<open>None\<close> when it is no redirect to follow, an error when it has a \<open>Location\<close> that
  cannot be followed, else the next request. \<open>nh_place\<close> is the operation and the URL of a
  \<open>url.Error\<close>. A client's \<open>Timeout\<close> ends a send from outside, and so belongs to the transport.
\<close>

record net_http =
  nh_next :: "request list \<Rightarrow> response \<Rightarrow> world \<Rightarrow> (err + request) option \<times> world"
  nh_place :: "request list \<Rightarrow> response option \<Rightarrow> string \<times> string"

definition url_error :: "net_http \<Rightarrow> request list \<Rightarrow> response option \<Rightarrow> err \<Rightarrow> err" where
  "url_error nh reqs resp e = (let (op, u) = nh_place nh reqs resp in UrlError op u (Some e))"

definition nil_response :: err where
  "nil_response = NewError ''http: RoundTripper implementation returned a nil *Response with a nil error''"

definition client_send :: "round_tripper \<Rightarrow> request \<Rightarrow> world \<Rightarrow> (err + response) \<times> world" where
  "client_send tr req w =
     (let ((resp, err), w) = tr req w
      in (case err of
            Some e \<Rightarrow> Inl e
          | None \<Rightarrow> (case resp of None \<Rightarrow> Inl nil_response | Some r \<Rightarrow> Inr r), w))"

text \<open>
  One round: the last of the requests is sent, and either the call ends or there is a next one. A response
  that is left behind is closed; what the client reads of it first cannot be seen after that.
\<close>

definition client_step ::
  "net_http \<Rightarrow> round_tripper \<Rightarrow> redirect_policy \<Rightarrow> request list \<Rightarrow> world
     \<Rightarrow> ((err + response) \<times> world) + (request \<times> world)" where
  "client_step nh tr policy reqs w =
     (case client_send tr (last reqs) w of
        (Inl e, w) \<Rightarrow> Inl (Inl (url_error nh reqs None e), w)
      | (Inr resp, w) \<Rightarrow>
          (case nh_next nh reqs resp w of
             (None, w) \<Rightarrow> Inl (Inr resp, w)
           | (Some (Inl e), w) \<Rightarrow> Inl (Inl (url_error nh reqs (Some resp) e), close_body (the (Body resp)) w)
           | (Some (Inr q), w) \<Rightarrow>
               (case policy (hop_of q) (map hop_of reqs) of
                  None \<Rightarrow> Inr (q, close_body (the (Body resp)) w)
                | Some e \<Rightarrow>
                    if e = ErrUseLastResponse then Inl (Inr resp, w)
                    else Inl (Inl (url_error nh reqs (Some resp) e), close_body (the (Body resp)) w))))"

partial_function (option) client_loop ::
  "net_http \<Rightarrow> round_tripper \<Rightarrow> redirect_policy \<Rightarrow> request list \<Rightarrow> world \<Rightarrow> ((err + response) \<times> world) option" where
  "client_loop nh tr policy reqs w =
     (case client_step nh tr policy reqs w of
        Inl r \<Rightarrow> Some r
      | Inr (q, w) \<Rightarrow> client_loop nh tr policy (reqs @ [q]) w)"

declare client_loop.simps [code]

text \<open>A nil transport is \<open>http.DefaultTransport\<close>; a nil \<open>CheckRedirect\<close> follows nine redirects.\<close>

definition client_transport :: "round_tripper \<Rightarrow> http_client \<Rightarrow> round_tripper" where
  "client_transport dt cl = (case cl_Transport cl of Some tr \<Rightarrow> tr | None \<Rightarrow> dt)"

definition nil_policy :: redirect_policy where
  "nil_policy req via = (if length via \<ge> 10 then Some (NewError ''stopped after 10 redirects'') else None)"

definition client_policy :: "http_client \<Rightarrow> redirect_policy" where
  "client_policy cl = (case cl_CheckRedirect cl of Some policy \<Rightarrow> policy | None \<Rightarrow> nil_policy)"

definition client_do ::
  "net_http \<Rightarrow> round_tripper \<Rightarrow> http_client \<Rightarrow> request \<Rightarrow> world \<Rightarrow> ((err + response) \<times> world) option" where
  "client_do nh dt cl req w = client_loop nh (client_transport dt cl) (client_policy cl) [req] w"

text \<open>The client as a door calls it, for the clients whose calls are shown to return.\<close>

definition client_call :: "net_http \<Rightarrow> round_tripper \<Rightarrow> http_client \<Rightarrow> http_do" where
  "client_call nh dt cl req w = the (client_do nh dt cl req w)"

section \<open>One round\<close>

lemma client_step_cases:
  obtains (failed) e w1 where "client_send tr (last reqs) w = (Inl e, w1)"
      "client_step nh tr policy reqs w = Inl (Inl (url_error nh reqs None e), w1)"
    | (returned) r w1 w2 where "client_send tr (last reqs) w = (Inr r, w1)"
      "nh_next nh reqs r w1 = (None, w2) \<or> (\<exists>q. nh_next nh reqs r w1 = (Some (Inr q), w2) \<and> policy (hop_of q) (map hop_of reqs) = Some ErrUseLastResponse)"
      "client_step nh tr policy reqs w = Inl (Inr r, w2)"
    | (broken) r w1 w2 e where "client_send tr (last reqs) w = (Inr r, w1)"
      "nh_next nh reqs r w1 = (Some (Inl e), w2) \<or> (\<exists>q. nh_next nh reqs r w1 = (Some (Inr q), w2) \<and> policy (hop_of q) (map hop_of reqs) = Some e)"
      "client_step nh tr policy reqs w = Inl (Inl (url_error nh reqs (Some r) e), close_body (the (Body r)) w2)"
    | (followed) r w1 w2 q where "client_send tr (last reqs) w = (Inr r, w1)" "nh_next nh reqs r w1 = (Some (Inr q), w2)"
      "policy (hop_of q) (map hop_of reqs) = None" "client_step nh tr policy reqs w = Inr (q, close_body (the (Body r)) w2)"
proof -
  obtain a w1 where s: "client_send tr (last reqs) w = (a, w1)" by fastforce
  show thesis
  proof (cases a)
    case (Inl e)
    with s show thesis by (intro failed) (simp_all add: client_step_def)
  next
    case a: (Inr r)
    obtain n w2 where n: "nh_next nh reqs r w1 = (n, w2)" by fastforce
    note s = s [unfolded a]
    show thesis
    proof (cases n)
      case None
      from s n [unfolded None] show thesis by (intro returned [OF s disjI1 [OF n [unfolded None]]]) (simp add: client_step_def)
    next
      case (Some x)
      show thesis
      proof (cases x)
        case (Inl e)
        from s n [unfolded Some Inl] show thesis
          by (intro broken [OF s disjI1 [OF n [unfolded Some Inl]]]) (simp add: client_step_def)
      next
        case (Inr q)
        show thesis
        proof (cases "policy (hop_of q) (map hop_of reqs)")
          case None
          with s n [unfolded Some Inr] show thesis by (intro followed) (simp_all add: client_step_def)
        next
          case p: (Some e)
          have both: "nh_next nh reqs r w1 = (Some (Inr q), w2) \<and> policy (hop_of q) (map hop_of reqs) = Some e"
            using n Some Inr p by simp
          show thesis
          proof (cases "e = ErrUseLastResponse")
            case True
            with s both show thesis by (intro returned [OF s disjI2 [OF exI [of _ q]]]) (simp_all add: client_step_def)
          next
            case False
            with s both show thesis by (intro broken [OF s disjI2 [OF exI [of _ q]]]) (simp_all add: client_step_def)
          qed
        qed
      qed
    qed
  qed
qed

lemma client_step_followed:
  assumes "client_step nh tr policy reqs w = Inr (q, w')"
  shows "policy (hop_of q) (map hop_of reqs) = None"
  using assms by (cases rule: client_step_cases [of tr reqs w nh policy]) simp_all

lemma client_loop_ends: "client_step nh tr policy reqs w = Inl r \<Longrightarrow> client_loop nh tr policy reqs w = Some r"
  by (simp add: client_loop.simps)

lemma client_loop_goes:
  "client_step nh tr policy reqs w = Inr (q, w') \<Longrightarrow> client_loop nh tr policy reqs w = client_loop nh tr policy (reqs @ [q]) w'"
  by (subst client_loop.simps) simp

text \<open>The rounds of a call that have gone by, with the requests and the world they left.\<close>

inductive under_way :: "net_http \<Rightarrow> round_tripper \<Rightarrow> redirect_policy \<Rightarrow> request \<Rightarrow> world \<Rightarrow> request list \<Rightarrow> world \<Rightarrow> bool"
  for nh tr policy req w0
where
  called: "under_way nh tr policy req w0 [req] w0"
| redirected: "under_way nh tr policy req w0 reqs w \<Longrightarrow> client_step nh tr policy reqs w = Inr (q, w') \<Longrightarrow>
    under_way nh tr policy req w0 (reqs @ [q]) w'"

lemma under_way_loop: "under_way nh tr policy req w0 reqs w \<Longrightarrow> client_loop nh tr policy [req] w0 = client_loop nh tr policy reqs w"
  by (induction rule: under_way.induct) (simp_all add: client_loop_goes)

section \<open>The contract of a policy with the loop\<close>

text \<open>A policy that follows nothing from some length of the chain on.\<close>

locale capped_policy =
  fixes policy :: redirect_policy and cap :: int
  assumes follows_within: "policy req (orig # rest) = None \<Longrightarrow> int (length (orig # rest)) \<le> cap"
begin

lemma loop_rule:
  assumes "I reqs w" and "hops policy orig (map hop_of reqs)" and "length reqs \<le> Suc (nat cap)"
    and ends: "\<And>reqs w r w'. I reqs w \<Longrightarrow> hops policy orig (map hop_of reqs) \<Longrightarrow> length reqs \<le> Suc (nat cap) \<Longrightarrow>
      client_step nh tr policy reqs w = Inl (r, w') \<Longrightarrow> Q r w'"
    and goes: "\<And>reqs w q w'. I reqs w \<Longrightarrow> hops policy orig (map hop_of reqs) \<Longrightarrow> length reqs \<le> nat cap \<Longrightarrow>
      client_step nh tr policy reqs w = Inr (q, w') \<Longrightarrow> I (reqs @ [q]) w'"
  shows "\<exists>r w'. client_loop nh tr policy reqs w = Some (r, w') \<and> Q r w'"
  using assms(1-3)
proof (induction "Suc (nat cap) - length reqs" arbitrary: reqs w rule: less_induct)
  case less
  obtain x where s: "client_step nh tr policy reqs w = x" by simp
  show ?case
  proof (cases x)
    case (Inl a)
    obtain r w' where "a = (r, w')" by fastforce
    with s Inl have "client_step nh tr policy reqs w = Inl (r, w')" by simp
    with ends [OF less.prems this] client_loop_ends show ?thesis by blast
  next
    case (Inr b)
    obtain q w' where "b = (q, w')" by fastforce
    with s Inr have s: "client_step nh tr policy reqs w = Inr (q, w')" by simp
    note p = client_step_followed [OF s]
    obtain rest where "map hop_of reqs = orig # rest" using hops_via [OF less.prems(2)] by (elim exE)
    then have len: "length reqs \<le> nat cap" using follows_within [of "hop_of q" orig rest] p by (metis le_nat_iff length_map nat_int nat_mono)
    have "hops policy orig (map hop_of (reqs @ [q]))" using hops_follow [OF less.prems(2) p] by simp
    then have "\<exists>r w''. client_loop nh tr policy (reqs @ [q]) w' = Some (r, w'') \<and> Q r w''"
      using goes [OF less.prems(1,2) len s] len by (intro less.hyps) simp_all
    with client_loop_goes [OF s] show ?thesis by simp
  qed
qed

text \<open>A call starts with the one request.\<close>

lemma call_rule:
  assumes "I [req] w"
    and "\<And>reqs w r w'. I reqs w \<Longrightarrow> hops policy (hop_of req) (map hop_of reqs) \<Longrightarrow> length reqs \<le> Suc (nat cap) \<Longrightarrow>
      client_step nh tr policy reqs w = Inl (r, w') \<Longrightarrow> Q r w'"
    and "\<And>reqs w q w'. I reqs w \<Longrightarrow> hops policy (hop_of req) (map hop_of reqs) \<Longrightarrow> length reqs \<le> nat cap \<Longrightarrow>
      client_step nh tr policy reqs w = Inr (q, w') \<Longrightarrow> I (reqs @ [q]) w'"
  shows "\<exists>r w'. client_loop nh tr policy [req] w = Some (r, w') \<and> Q r w'"
  using loop_rule [of I "[req]" w "hop_of req" nh tr Q] assms by simp

lemma call_returns: "\<exists>r. client_loop nh tr policy [req] w = Some r"
  using call_rule [of "\<lambda>_ _. True" req w nh tr "\<lambda>_ _. True"] by blast

text \<open>Two transports that agree on every request a chain can come to cannot be told apart.\<close>

lemma calls_agree:
  assumes same: "\<And>via q. hops policy (hop_of req) (via @ [hop_of q]) \<Longrightarrow> tr1 q = tr2 q"
  shows "client_loop nh tr1 policy [req] w = client_loop nh tr2 policy [req] w"
proof -
  have step: "client_step nh tr1 policy reqs w = client_step nh tr2 policy reqs w"
    if "hops policy (hop_of req) (map hop_of reqs)" for reqs w
  proof -
    have "reqs \<noteq> []" using that by auto
    then have "hops policy (hop_of req) (map hop_of (butlast reqs) @ [hop_of (last reqs)])"
      using that by (metis append_butlast_last_id list.map(1,2) map_append)
    from same [OF this] show ?thesis by (simp add: client_step_def client_send_def)
  qed
  have "\<exists>r w'. client_loop nh tr1 policy [req] w = Some (r, w') \<and> client_loop nh tr2 policy [req] w = Some (r, w')"
  proof (rule call_rule [of "\<lambda>reqs w'. client_loop nh tr2 policy [req] w = client_loop nh tr2 policy reqs w'"], goal_cases)
    case (2 reqs w1 r w2)
    then show ?case using client_loop_ends step [OF 2(2)] by simp
  next
    case (3 reqs w1 q w2)
    then show ?case using client_loop_goes step [OF 3(2)] by simp
  qed simp
  then show ?thesis by auto
qed

end

sublocale redirect_contract \<subseteq> following: capped_policy policy cap
  by unfold_locales (rule capped)

interpretation configured_following: capped_policy "RedirectPolicyFunc opts" "rr_maxHops (compiled opts)" for opts
  using policy_compiled check_follow(1) by unfold_locales blast

interpretation nil_following: capped_policy nil_policy 9
  by unfold_locales (auto simp: nil_policy_def split: if_splits)

section \<open>Clients that return\<close>

lemma retry_client_fields:
  "client_transport dt (the (NewRetryClient pt dt base (Some policy) cfg)) = RoundTrip pt dt (NewRetryRoundTripper dt base cfg)"
  "client_policy (the (NewRetryClient pt dt base (Some policy) cfg)) = policy"
  by (simp_all add: client_transport_def client_policy_def NewRetryClient_def)

lemma plain_client_fields:
  "client_transport dt (NewClient timeout) = dt" "client_policy (NewClient timeout) = DefaultRedirectPolicy"
  by (simp_all add: client_transport_def client_policy_def NewClient_def)

lemmas client_fields = retry_client_fields plain_client_fields

text \<open>The loop ends for its policy alone: one that follows everything holds a call for as long as there are redirects.\<close>

lemma greedy_call_never_returns:
  assumes "\<And>q w. \<exists>r w1. tr q w = ((Some r, None), w1)" and "\<And>reqs r w. \<exists>q w1. nh_next nh reqs r w = (Some (Inr q), w1)"
  shows "client_loop nh tr (\<lambda>_ _. None) reqs w = None"
proof (rule ccontr)
  assume "client_loop nh tr (\<lambda>_ _. None) reqs w \<noteq> None"
  then obtain r where "client_loop nh tr (\<lambda>_ _. None) reqs w = Some r" by blast
  then show False
  proof (rule client_loop.raw_induct [of "\<lambda>nh' tr' policy reqs w r. nh' = nh \<longrightarrow> tr' = tr \<longrightarrow> policy = (\<lambda>_ _. None) \<longrightarrow> False", rule_format,
        rotated, OF _ refl refl refl], goal_cases)
    case (1 f nh' tr' policy reqs w r)
    have "\<exists>q w'. client_step nh tr (\<lambda>_ _. None) reqs w = Inr (q, w')"
    proof -
      obtain r w1 where "tr (last reqs) w = ((Some r, None), w1)" using assms(1) by blast
      moreover obtain q w2 where "nh_next nh reqs r w1 = (Some (Inr q), w2)" using assms(2) by blast
      ultimately show ?thesis by (simp add: client_step_def client_send_def)
    qed
    with 1 show ?case by (cases r) (auto split: sum.splits prod.splits)
  qed
qed

section \<open>Properties\<close>

text \<open>
  C9: Every call of a client the package builds returns. \<open>net/http\<close> itself follows redirects for as
  long as \<open>CheckRedirect\<close> lets it; under each shipped policy, and under \<open>RedirectPolicyFunc\<close> with any options, a
  call comes to an end, whatever the servers answer and wherever they redirect to.
\<close>

theorem client_calls_return:
  "(\<exists>r. client_do nh dt (NewClient timeout) req w = Some r) \<and>
   (\<exists>r. client_do nh dt (the (NewRetryClient pt dt base (Some DefaultRedirectPolicy) cfg)) req w = Some r) \<and>
   (\<exists>r. client_do nh dt (the (NewRetryClient pt dt base (Some DockerGitHubRedirectPolicy) cfg)) req w = Some r) \<and>
   (\<exists>r. client_do nh dt (the (NewRetryClient pt dt base (Some RefuseAllRedirects) cfg)) req w = Some r) \<and>
   (\<exists>r. client_do nh dt (the (NewRetryClient pt dt base (Some (RedirectPolicyFunc opts)) cfg)) req w = Some r)"
  unfolding client_do_def client_fields
  by (intro conjI default_chain.following.call_returns docker_chain.following.call_returns
      refusing_chain.following.call_returns configured_following.call_returns)

end
