(* ===== verification/Containment.thy ===== *)
theory Containment
  imports Following
begin

text \<open>
  Where the requests of a whole call go (\<open>loop.go\<close>, \<open>conditional.go\<close>, \<open>roundtripper.go\<close>, \<open>httpx.go\<close>): the attempts
  of a door, the redirects of its client and the retries of its transport together.
\<close>

section \<open>Transports that differ elsewhere\<close>

text \<open>
  Two transports may differ in every way, in what they answer, in what they record and in what they do
  to the world, on requests that are not on the first request's host. When a call cannot tell
  them apart it has sent nothing there.
\<close>

definition on_host :: "request \<Rightarrow> request \<Rightarrow> bool" where
  "on_host req q \<longleftrightarrow> URL q = URL req \<or> same_host (hop_of req) (hop_of q) \<and> \<not> downgrades (hop_of req) (hop_of q)"

definition alike_on_host :: "request \<Rightarrow> round_tripper \<Rightarrow> round_tripper \<Rightarrow> bool" where
  "alike_on_host req tr1 tr2 \<longleftrightarrow> (\<forall>q. on_host req q \<longrightarrow> tr1 q = tr2 q)"

lemma on_host_url: "URL q = URL q' \<Longrightarrow> on_host req q \<longleftrightarrow> on_host req q'" "URL req = URL req' \<Longrightarrow> on_host req q \<longleftrightarrow> on_host req' q"
  by (simp_all add: on_host_def same_host_def downgrades_def hop_of_def)

lemma alike_on_host_url: "URL req = URL req' \<Longrightarrow> alike_on_host req tr1 tr2 \<longleftrightarrow> alike_on_host req' tr1 tr2"
  by (simp add: alike_on_host_def on_host_url(2) [of req req'])

lemma same_host_call:
  assumes "alike_on_host req tr1 tr2"
  shows "client_loop nh tr1 DefaultRedirectPolicy [req] w = client_loop nh tr2 DefaultRedirectPolicy [req] w"
proof (rule default_chain.following.calls_agree)
  fix via q assume h: "hops DefaultRedirectPolicy (hop_of req) (via @ [hop_of q])"
  have "on_host req q"
  proof (cases via)
    case Nil
    with hops_hd [OF h] show ?thesis by (simp add: on_host_def hop_of_def)
  next
    case (Cons v vs)
    then have "hop_of q \<in> set (tl (via @ [hop_of q]))" by simp
    from default_chain.chain_anchored [OF h this] default_chain.chain_cleartext [OF h this] show ?thesis
      by (simp add: on_host_def)
  qed
  with assms show "tr1 q = tr2 q" by (simp add: alike_on_host_def)
qed

section \<open>The retrying transport\<close>

text \<open>A hook that leaves the URL of a request alone.\<close>

definition keeps_url :: "('r \<Rightarrow> request) \<Rightarrow> (request \<Rightarrow> world \<Rightarrow> 'r \<times> world) option \<Rightarrow> bool" where
  "keeps_url req_of hook \<longleftrightarrow> (\<forall>h q w. hook = Some h \<longrightarrow> URL (req_of (fst (h q w))) = URL q)"

lemma build_url:
  assumes "keeps_url fst (rt_prepareRetry rt)" and "buildAttemptRequest rt req n w = (Inr q, w')"
  shows "URL q = URL req"
proof -
  have prep: "URL q1 = URL q0" if "rt_prepareRetry rt = Some p" "p q0 w = ((q1, e), w1)" for p q0 q1 e w w1
    using assms(1) that unfolding keeps_url_def by (metis fst_conv)
  show ?thesis
    using assms(2)
    by (auto simp: buildAttemptRequest_def Let_def split: if_splits option.splits prod.splits sum.splits dest!: prep)
qed

lemma retry_agrees:
  assumes "keeps_url fst (PrepareRetry cfg)" and same: "\<And>q. URL q = URL req \<Longrightarrow> tr1 q = tr2 q"
  shows "RoundTrip pt dt1 (NewRetryRoundTripper dt1 (Some tr1) cfg) req = RoundTrip pt dt2 (NewRetryRoundTripper dt2 (Some tr2) cfg) req"
proof -
  let ?rt1 = "NewRetryRoundTripper dt1 (Some tr1) cfg" and ?rt2 = "NewRetryRoundTripper dt2 (Some tr2) cfg"
  have "rt_prepareRetry ?rt1 = rt_prepareRetry ?rt2" by (simp add: NewRetryRoundTripper_def)
  then have build: "buildAttemptRequest ?rt1 = buildAttemptRequest ?rt2" by (simp only: fun_eq_iff buildAttemptRequest_def) simp
  have check: "getCheckRetry ?rt1 = getCheckRetry ?rt2"
    and can: "canRetry ?rt1 req = canRetry ?rt2 req" and sched: "rt_schedule ?rt1 = rt_schedule ?rt2"
    and pause: "rt_pause ?rt1 req = rt_pause ?rt2 req" and ceiling: "rt_maxElapsedTime ?rt1 = rt_maxElapsedTime ?rt2"
    by (simp_all add: fun_eq_iff getCheckRetry_def canRetry_def rt_schedule_def rt_pause_def NewRetryRoundTripper_def)
  have once: "roundTripOnce dt1 ?rt1 q = roundTripOnce dt2 ?rt2 q" if "URL q = URL req" for q
    using same [OF that] by (simp add: fun_eq_iff roundTripOnce_def rt_transport_def NewRetryRoundTripper_def)
  have "URL q = URL req" if "buildAttemptRequest ?rt2 req n w = (Inr q, w')" for n w q w'
    using build_url [OF _ that] assms(1) by (simp add: NewRetryRoundTripper_def)
  then have "rt_attempt pt dt1 ?rt1 req n st = rt_attempt pt dt2 ?rt2 req n st" for n st
    by (auto simp: rt_attempt_def build check once split: prod.splits sum.splits)
  then have att: "rt_attempt pt dt1 ?rt1 req = rt_attempt pt dt2 ?rt2 req" by (simp add: fun_eq_iff)
  show ?thesis by (simp only: fun_eq_iff RoundTrip_def can sched pause ceiling once [OF refl] att) simp
qed

text \<open>The two clients with the same-host policy over a base transport.\<close>

definition same_host_clients :: "(string \<Rightarrow> int option) \<Rightarrow> duration \<Rightarrow> TransportConfig \<Rightarrow> round_tripper \<Rightarrow> http_client list" where
  "same_host_clients pt timeout cfg tr =
     [NewClient timeout, the (NewRetryClient pt tr None (Some DefaultRedirectPolicy) cfg)]"

lemma clients_agree:
  assumes "alike_on_host req tr1 tr2" and "keeps_url fst (PrepareRetry cfg)" and "i < 2"
  shows "client_call nh tr1 (same_host_clients pt timeout cfg tr1 ! i) req w =
    client_call nh tr2 (same_host_clients pt timeout cfg tr2 ! i) req w"
proof -
  have retry: "alike_on_host req (RoundTrip pt tr1 (NewRetryRoundTripper tr1 None cfg)) (RoundTrip pt tr2 (NewRetryRoundTripper tr2 None cfg))"
    unfolding alike_on_host_def
  proof (intro allI impI)
    fix q assume q: "on_host req q"
    have "tr1 q' = tr2 q'" if "URL q' = URL q" for q'
      using assms(1) q that on_host_url(1) [of q' q req] by (simp add: alike_on_host_def)
    from retry_agrees [OF assms(2) this]
    have "RoundTrip pt tr1 (NewRetryRoundTripper tr1 (Some tr1) cfg) q = RoundTrip pt tr2 (NewRetryRoundTripper tr2 (Some tr2) cfg) q" .
    then show "RoundTrip pt tr1 (NewRetryRoundTripper tr1 None cfg) q = RoundTrip pt tr2 (NewRetryRoundTripper tr2 None cfg) q"
      by (simp add: NewRetryRoundTripper_def)
  qed
  from assms(3) consider "i = 0" | "i = 1" by linarith
  then show ?thesis
    by cases (simp_all add: same_host_clients_def client_call_def client_do_def client_fields
        same_host_call [OF assms(1)] same_host_call [OF retry])
qed

section \<open>The doors\<close>

lemma getAttempt_agrees:
  assumes new: "ge_new_request env u = Inr req"
    and "\<And>w. get_answer (env\<lparr>ge_client := c1\<rparr>) cfg req w = get_answer (env\<lparr>ge_client := c2\<rparr>) cfg req w"
  shows "getAttempt (env\<lparr>ge_client := c1\<rparr>) u cfg w = getAttempt (env\<lparr>ge_client := c2\<rparr>) u cfg w"
proof -
  have n: "ge_new_request (env\<lparr>ge_client := c\<rparr>) u = Inr req" for c using new by simp
  obtain got w1 where "get_answer (env\<lparr>ge_client := c2\<rparr>) cfg req w = (got, w1)" by fastforce
  with assms(2) [of w] have a: "get_answer (env\<lparr>ge_client := c1\<rparr>) cfg req w = (got, w1)"
    "get_answer (env\<lparr>ge_client := c2\<rparr>) cfg req w = (got, w1)" by simp_all
  show ?thesis
  proof (cases got)
    case (Inl e)
    from a [unfolded Inl, THEN getAttempt_error_answer [OF n]] show ?thesis by simp
  next
    case got: (Inr r)
    consider "IsRetryableStatus (StatusCode r)"
      | "\<not> IsRetryableStatus (StatusCode r)" "StatusCode r < 200 \<or> 300 \<le> StatusCode r"
      | "200 \<le> StatusCode r" "StatusCode r < 300" by linarith
    then show ?thesis
      by cases (use a [unfolded got] in \<open>simp_all add: getAttempt_retry_status [OF n] getAttempt_bad_status [OF n]
          getAttempt_ok_status [OF n]\<close>)
  qed
qed

lemma GetBytes_agrees:
  assumes "ge_new_request env u = Inr req"
    and "\<And>w. get_answer (env\<lparr>ge_client := c1\<rparr>) (newGetConfig opts) req w = get_answer (env\<lparr>ge_client := c2\<rparr>) (newGetConfig opts) req w"
  shows "GetBytes (env\<lparr>ge_client := c1\<rparr>) u opts w = GetBytes (env\<lparr>ge_client := c2\<rparr>) u opts w"
proof -
  have "get_attempt_fn (env\<lparr>ge_client := c1\<rparr>) u (newGetConfig opts) = get_attempt_fn (env\<lparr>ge_client := c2\<rparr>) u (newGetConfig opts)"
    "get_pause (env\<lparr>ge_client := c1\<rparr>) u (newGetConfig opts) = get_pause (env\<lparr>ge_client := c2\<rparr>) u (newGetConfig opts)"
    by (auto simp: fun_eq_iff get_attempt_fn_def get_pause_def getAttempt_agrees [OF assms] Let_def split: prod.splits)
  moreover have "ge_urls (env\<lparr>ge_client := c1\<rparr>) = ge_urls (env\<lparr>ge_client := c2\<rparr>)" by simp
  ultimately show ?thesis by (simp only: GetBytes_def Let_def)
qed

lemma conditional_url [simp]: "URL (conditional_request v req) = URL req"
  by (simp add: conditional_request_def Let_def)

section \<open>Properties\<close>

text \<open>
  C5: A call stays on the host it was made for. \<open>GetBytes\<close> and \<open>DoConditional\<close>, over \<open>NewClient\<close> and over
  \<open>NewRetryClient\<close> with \<open>DefaultRedirectPolicy\<close>, over any number of attempts, redirects and retries and whatever the
  servers answer, send nothing to another host, and nothing in the clear when the call was over TLS:
  with two transports that treat such requests differently, in any way at all, the call gives the same
  result and leaves the same world. The hooks are assumed to leave the URL of a request alone.
\<close>

theorem calls_contact_only_their_host:
  assumes "ge_new_request env u = Inr req" and "i < 2"
    and "keeps_url id (cfg_setHeaders (newGetConfig opts))" and "keeps_url fst (PrepareRetry cfg)"
    and "alike_on_host req tr1 tr2"
  shows "let c1 = client_call nh tr1 (same_host_clients pt timeout cfg tr1 ! i); c2 = client_call nh tr2 (same_host_clients pt timeout cfg tr2 ! i)
    in GetBytes (env\<lparr>ge_client := c1\<rparr>) u opts w = GetBytes (env\<lparr>ge_client := c2\<rparr>) u opts w \<and>
       DoConditional pt c1 req v limit w = DoConditional pt c2 req v limit w"
proof -
  let ?c1 = "client_call nh tr1 (same_host_clients pt timeout cfg tr1 ! i)"
    and ?c2 = "client_call nh tr2 (same_host_clients pt timeout cfg tr2 ! i)"
  have same: "?c1 q w = ?c2 q w" if "URL q = URL req" for q w
    using clients_agree [OF _ assms(4,2)] assms(5) alike_on_host_url [OF that] by blast
  have "URL (fst (fn req w)) = URL req" if "cfg_setHeaders (newGetConfig opts) = Some fn" for fn w
    using assms(3) that by (simp add: keeps_url_def)
  then have "get_answer (env\<lparr>ge_client := ?c1\<rparr>) (newGetConfig opts) req w = get_answer (env\<lparr>ge_client := ?c2\<rparr>) (newGetConfig opts) req w" for w
    by (auto simp: get_answer_def same split: option.splits prod.splits) (metis fst_conv same)
  from GetBytes_agrees [OF assms(1) this] same [of "conditional_request v req"] show ?thesis
    by (simp add: Let_def DoConditional_def)
qed

text \<open>A server that redirects to another host, which answers one transport with a resource and fails the other.\<close>

definition redirecting :: "int \<Rightarrow> round_tripper" where
  "redirecting code q w = status_tripper (if on_host demo_request q then 302 else code) q w"

definition to_other :: net_http where
  "to_other =
     \<lparr>nh_next = (\<lambda>reqs r w.
        (if StatusCode r = 302 then Some (Inr ((last reqs)\<lparr>URL := (URL (last reqs))\<lparr>u_host := ''other''\<rparr>\<rparr>)) else None, w)),
      nh_place = (\<lambda>reqs r. (''Get'', ''https://other/?key=s3cret''))\<rparr>"

theorem calls_contact_only_their_host_witness:
  "let c = (\<lambda>code. client_call to_other (redirecting code) (same_host_clients (\<lambda>_. None) 0 zeroTransport (redirecting code) ! 1))
   in GetBytes ((demo_env 0)\<lparr>ge_client := c 200\<rparr>) ''u'' [] world0 = GetBytes ((demo_env 0)\<lparr>ge_client := c 503\<rparr>) ''u'' [] world0 \<and>
      fst (GetBytes ((demo_env 0)\<lparr>ge_client := c 200\<rparr>) ''u'' [] world0) = ([], Some (RedirectRefusedError ''https://other'' RedirectOtherOrigin))"
proof -
  have n: "ge_new_request (demo_env 0) ''u'' = Inr demo_request" by (simp add: demo_env_def)
  have h: "keeps_url id (cfg_setHeaders (newGetConfig []))" "keeps_url fst (PrepareRetry zeroTransport)"
    by (simp_all add: keeps_url_def newGetConfig_def Let_def getConfig.defs loopConfig.defs normalize_def zeroConfig_def zeroTransport_def)
  have a: "alike_on_host demo_request (redirecting 200) (redirecting 503)"
    by (simp add: alike_on_host_def redirecting_def fun_eq_iff)
  have "fst (GetBytes ((demo_env 0)\<lparr>ge_client := client_call to_other (redirecting 200) (same_host_clients (\<lambda>_. None) 0 zeroTransport (redirecting 200) ! 1)\<rparr>)
      ''u'' [] world0) = ([], Some (RedirectRefusedError ''https://other'' RedirectOtherOrigin))" by code_simp
  with calls_contact_only_their_host [OF n _ h a, of 1] show ?thesis by (simp add: Let_def)
qed

end
