(* ===== verification/Deadlines.thy ===== *)
theory Deadlines
  imports Composition
begin

text \<open>
  When a door returns (\<open>loop.go\<close>, \<open>roundtripper.go\<close>): what the package adds around the operations it
  is given never outlasts its caller's context. Reading a response body takes no time of its own in the model.
\<close>

section \<open>Operations that return by the end of their context\<close>

definition in_time :: "go_context \<Rightarrow> world \<Rightarrow> world \<Rightarrow> bool" where
  "in_time ctx w w' \<longleftrightarrow>
     caller w' = caller w \<and> (\<forall>t f. c_end ctx = Some (t, f) \<longrightarrow> clock w' \<le> max (clock w) t)"

lemma in_time_still: "caller w' = caller w \<Longrightarrow> clock w' = clock w \<Longrightarrow> in_time ctx w w'"
  by (simp add: in_time_def)

lemma in_time_refl [simp]: "in_time ctx w w"
  by (simp add: in_time_def)

lemma in_time_trans: "in_time ctx w w1 \<Longrightarrow> in_time ctx w1 w2 \<Longrightarrow> in_time ctx w w2"
  by (auto simp: in_time_def max_def split: if_splits)

lemma in_time_shorter: "in_time (with_deadline c t) w w' \<Longrightarrow> in_time c w w'"
  by (fastforce simp: in_time_def with_deadline_def max_def split: if_splits)

lemma in_time_sleep: "in_time (caller w) w (snd (SleepCtx d w))"
  unfolding in_time_def
  by (auto simp: world_simps) (auto simp: SleepCtx_def dur_simps Let_def draw_def split: option.splits)

locale timely_door =
  fixes ok :: bool
    and s :: schedule
    and att :: "'s attempt_fn"
    and pau :: "'s pause_fn"
  assumes prompt_attempt: "ok \<Longrightarrow> in_time (caller w) w (snd (snd (att n (x, w))))"
    and prompt_pause: "ok \<Longrightarrow> in_time (caller w) w (snd (pau n d (x, w)))"

sublocale timely_door \<subseteq> loop_invariant s att pau
  "\<lambda>w. ok \<longrightarrow> caller w = c \<and> (\<forall>t f. c_end c = Some (t, f) \<longrightarrow> clock w \<le> max m t)" for c m
proof (unfold_locales, goal_cases)
  case (1 w n x v x' w')
  then show ?case using prompt_attempt [of w n x] by (auto simp: in_time_def max_def split: if_splits)
next
  case (2 w n d x x' w')
  then show ?case using prompt_pause [of w n d x] by (auto simp: in_time_def max_def split: if_splits)
next
  case (4 w d)
  then show ?case using in_time_sleep [of w d] by (auto simp: in_time_def max_def split: if_splits)
qed (auto simp: world_simps)

context timely_door
begin

lemma run_in_time:
  assumes "run s att pau (x, w) = (ex, e, x', w')" and "ok"
  shows "in_time (caller w) w w'"
  using run_keeps [OF assms(1), of "caller w" "clock w"] assms(2) by (auto simp: in_time_def)

end

section \<open>The doors\<close>

text \<open>A function that heeds its context returns by the end of the context it is given.\<close>

definition prompt_fn :: "'a callback \<Rightarrow> bool" where
  "prompt_fn fn \<longleftrightarrow> (\<forall>ctx w. in_time ctx w (snd (fn ctx w)))"

definition prompt_env :: "get_env \<Rightarrow> getConfig \<Rightarrow> bool" where
  "prompt_env env cfg \<longleftrightarrow>
     (\<forall>u req w. ge_new_request env u = Inr req \<longrightarrow> in_time (caller w) w (snd (get_answer env cfg req w)))"

definition prompt_rt :: "round_tripper \<Rightarrow> retryRoundTripper \<Rightarrow> request \<Rightarrow> bool" where
  "prompt_rt dt rt req \<longleftrightarrow>
     (\<forall>q w. in_time (caller w) w (snd (rt_transport dt rt q w))) \<and>
     (\<forall>r e w. in_time (caller w) w (snd (getCheckRetry rt r e w))) \<and>
     (\<forall>h. rt_onRetry rt = Some h \<longrightarrow> (\<forall>n q r e w. in_time (caller w) w (h n q r e w))) \<and>
     (\<forall>p. rt_prepareRetry rt = Some p \<longrightarrow> (\<forall>q w. in_time (caller w) w (snd (p q w)))) \<and>
     (\<forall>g. GetBody req = Some g \<longrightarrow> (\<forall>w. in_time (caller w) w (snd (g w))))"

lemma in_time_log [simp]: "in_time c w (cfg_log cfg l m as w)" "in_time c w (logRetrySuccess cfg n w)"
  by (simp_all add: in_time_def cfg_log_def logRetrySuccess_def world_simps)

lemma in_time_next: "in_time (caller w) w w1 \<Longrightarrow> in_time (caller w1) w1 w2 \<Longrightarrow> in_time (caller w) w w2"
  by (auto simp: in_time_def max_def split: if_splits)

lemma in_time_runAttempt:
  assumes "prompt_fn fn"
  shows "in_time (caller w) w (snd (runAttempt cfg fn w))"
proof (cases "cfg_attemptTimeout cfg \<le>s 0")
  case True
  with assms show ?thesis by (simp add: runAttempt_def prompt_fn_def)
next
  case False
  with assms [unfolded prompt_fn_def, rule_format, of "with_deadline (caller w) (clock w + sint (cfg_attemptTimeout cfg))" w]
  show ?thesis by (auto simp: runAttempt_def Let_def dest: in_time_shorter split: prod.splits)
qed

interpretation timely_do: timely_door "prompt_fn fn" s "do_attempt cfg fn" "do_pause cfg" for fn s cfg
proof (unfold_locales, goal_cases)
  case (1 w n x)
  then have "in_time (caller w) w (snd (runAttempt cfg fn w))" by (rule in_time_runAttempt)
  then show ?case
    by (auto simp: do_attempt_def Let_def intro: in_time_trans split: prod.splits)
next
  case (2 w n d x)
  then show ?case by (auto simp: do_pause_def split: prod.splits)
qed

lemma getAttempt_clock:
  assumes "ge_new_request env u = Inr req" and "get_answer env cfg req w = (got, w1)"
  shows "clock (snd (getAttempt env u cfg w)) = clock w1 \<and> caller (snd (getAttempt env u cfg w)) = caller w1"
proof (cases got)
  case (Inl e)
  with getAttempt_error_answer [OF assms(1) assms(2) [unfolded Inl]] show ?thesis by simp
next
  case got: (Inr r)
  note a = assms(2) [unfolded got]
  consider "IsRetryableStatus (StatusCode r)"
    | "\<not> IsRetryableStatus (StatusCode r)" "StatusCode r < 200 \<or> 300 \<le> StatusCode r"
    | "200 \<le> StatusCode r" "StatusCode r < 300" by linarith
  then show ?thesis
  proof cases
    case 1
    with getAttempt_retry_status [OF assms(1) a] show ?thesis by (simp add: world_simps)
  next
    case 2
    with getAttempt_bad_status [OF assms(1) a] show ?thesis by (simp add: world_simps)
  next
    case 3
    obtain data w2 where "ReadLimitedBody (the (Body r)) (cfg_maxBodyBytes cfg) w1 = (data, w2)" by fastforce
    with 3 getAttempt_ok_status [OF assms(1) a] ReadLimitedBody_fields(1,2) [of "the (Body r)" "cfg_maxBodyBytes cfg" w1]
    show ?thesis by (auto split: sum.splits)
  qed
qed

lemma in_time_getAttempt:
  assumes "prompt_env env cfg"
  shows "in_time (caller w) w (snd (getAttempt env u cfg w))"
proof (cases "ge_new_request env u")
  case (Inr req)
  obtain got w1 where a: "get_answer env cfg req w = (got, w1)" by fastforce
  then have "in_time (caller w) w w1" using assms Inr unfolding prompt_env_def by (metis snd_conv)
  with getAttempt_clock [OF Inr a] show ?thesis by (simp add: in_time_def)
qed (simp add: getAttempt_def)

interpretation timely_get: timely_door "prompt_env env cfg" s "get_attempt_fn env u cfg" "get_pause env u cfg" for env cfg s u
proof (unfold_locales, goal_cases)
  case (1 w n x)
  obtain b retry ra e w1 where g: "getAttempt env u cfg w = ((b, retry, ra, e), w1)" by (metis prod.exhaust)
  have "in_time c w1 (logSlowUpstream lib cfg u t w1)" for c lib t
    by (simp add: in_time_def logSlowUpstream_def cfg_log_def Let_def world_simps)
  with in_time_getAttempt [OF 1, of w u] show ?case
    by (auto simp: get_attempt_fn_def g Let_def intro: in_time_trans)
next
  case (2 w n d x)
  then show ?case by (auto simp: get_pause_def split: prod.splits)
qed

lemma in_time_build:
  assumes "prompt_rt dt rt req" and "buildAttemptRequest rt req n w = (r, w')"
  shows "in_time (caller w) w w'"
proof -
  have get: "in_time (caller w) w w1" if "GetBody req = Some g" "g w = (x, w1)" for g x w w1
    using assms(1) that unfolding prompt_rt_def by (metis snd_conv)
  have prep: "in_time (caller w) w w1" if "rt_prepareRetry rt = Some p" "p q w = (x, w1)" for p q x w w1
    using assms(1) that unfolding prompt_rt_def by (metis snd_conv)
  show ?thesis
    using assms(2)
    by (auto simp: buildAttemptRequest_def Let_def split: if_splits option.splits prod.splits sum.splits
        dest!: get prep intro: in_time_next)
qed

lemma in_time_drainResp [simp]: "in_time c w (drainResp r w)"
  by (simp add: in_time_def world_simps)

lemma in_time_roundTripOnce:
  "prompt_rt dt rt req \<Longrightarrow> roundTripOnce dt rt q w = (r, w') \<Longrightarrow> in_time (caller w) w w'"
  unfolding prompt_rt_def roundTripOnce_def Let_def by (auto split: prod.splits) (metis snd_conv)

lemma in_time_check: "prompt_rt dt rt req \<Longrightarrow> getCheckRetry rt r e w = (v, w') \<Longrightarrow> in_time (caller w) w w'"
  unfolding prompt_rt_def by (metis snd_conv)

lemma in_time_sent:
  assumes "prompt_rt dt rt req" and "buildAttemptRequest rt req n w = (Inr q, w1)" and "roundTripOnce dt rt q w1 = (a, w2)"
    and "getCheckRetry rt r e w2 = (v, w3)"
  shows "in_time (caller w) w w3"
  using in_time_build [OF assms(1,2)] in_time_roundTripOnce [OF assms(1,3)] in_time_check [OF assms(1,4)] in_time_next by blast

interpretation timely_rt: timely_door "prompt_rt dt rt req" s "rt_attempt pt dt rt req" "rt_pause rt req" for dt rt req s pt
proof (unfold_locales, goal_cases)
  case (1 w n x)
  obtain dn wait resp err w' where a: "rt_attempt pt dt rt req n (x, w) = ((dn, wait), (resp, err), w')" by (metis prod.exhaust)
  then have "in_time (caller w) w w'"
    by (cases rule: rt_attempt_cases)
      (use in_time_build [OF 1] in_time_sent [OF 1] in \<open>auto intro: in_time_trans [OF _ in_time_drainResp]\<close>)
  then show ?case by (simp add: a)
next
  case (2 w n d x)
  have "in_time (caller w) w (h m q r e w)" if "rt_onRetry rt = Some h" for h m q r e
    using 2 that unfolding prompt_rt_def by blast
  then show ?case
    by (auto simp: rt_pause_def split: prod.splits option.splits intro: in_time_trans [OF _ in_time_drainResp])
qed

lemma Do_in_time: "prompt_fn fn \<Longrightarrow> in_time (caller w) w (snd (Do zero fn opts w))"
proof -
  assume p: "prompt_fn fn"
  let ?c = "newLoopConfig opts"
  obtain ex se v e w1 where r: "run (loop_schedule ?c) (do_attempt ?c fn) (do_pause ?c) ((zero, None), w) = (ex, se, (v, e), w1)"
    by (metis prod.exhaust)
  with timely_do.run_in_time [OF r p] show ?thesis
    by (auto simp: Do_def Let_def intro: in_time_trans)
qed

lemma GetBytes_in_time: "prompt_env env (newGetConfig opts) \<Longrightarrow> in_time (caller w) w (snd (GetBytes env u opts w))"
proof -
  assume p: "prompt_env env (newGetConfig opts)"
  let ?c = "newGetConfig opts"
  obtain ex se b e ra w1 where r: "run (loop_schedule ?c) (get_attempt_fn env u ?c) (get_pause env u ?c) (([], None, 0), w) =
      (ex, se, (b, e, ra), w1)" by (metis prod.exhaust)
  with timely_get.run_in_time [OF r p] show ?thesis
    by (auto simp: GetBytes_def Let_def intro: in_time_trans)
qed

lemma RoundTrip_in_time: "prompt_rt dt rt req \<Longrightarrow> in_time (caller w) w (snd (RoundTrip pt dt rt req w))"
proof -
  assume p: "prompt_rt dt rt req"
  obtain ex se b e w1 where r: "run (rt_schedule rt) (rt_attempt pt dt rt req) (rt_pause rt req) ((None, None), w) =
      (ex, se, (b, e), w1)" by (metis prod.exhaust)
  obtain a w2 where "roundTripOnce dt rt req w = (a, w2)" by fastforce
  with timely_rt.run_in_time [OF r p] in_time_roundTripOnce [OF p] r show ?thesis
    by (auto simp: RoundTrip_def Let_def)
qed

section \<open>Properties\<close>

text \<open>
  C10: The package never outstays its caller. When the caller's context ends at \<open>t\<close> and every
  operation a door calls returns by the end of the context it is given, the door returns by \<open>t\<close>, or at
  once when \<open>t\<close> has passed: \<open>Do\<close> for a function that heeds its context, in every mode and with any attempt
  timeout; \<open>GetBytes\<close> over such a client; \<open>RoundTrip\<close> over such a transport and hooks. No backoff, no
  \<open>Retry-After\<close> however long, and no rate limit is slept past the deadline.
\<close>

theorem doors_return_by_the_deadline:
  assumes "c_end (caller w) = Some (t, f)" and "prompt_fn fn" and "prompt_env env (newGetConfig gopts)" and "prompt_rt dt rt req"
  shows "clock (snd (Do zero fn opts w)) \<le> max (clock w) t \<and>
    clock (snd (GetBytes env u gopts w)) \<le> max (clock w) t \<and>
    clock (snd (RoundTrip pt dt rt req w)) \<le> max (clock w) t"
  using Do_in_time [OF assms(2), of w zero opts] GetBytes_in_time [OF assms(3), of w u] RoundTrip_in_time [OF assms(4), of w pt] assms(1)
  by (simp add: in_time_def)

text \<open>A rate-limited function that takes 400 nanoseconds, or less when its context ends before, under a
  caller that cancels after 1000: the rate-limit waits of up to an hour are cut short.\<close>

definition heeding :: "int callback" where
  "heeding ctx w =
     ((0, Some (RateLimitError ''slow down'' 3600000000000)),
      w\<lparr>clock := (case c_end ctx of None \<Rightarrow> clock w + 400 | Some (t, f) \<Rightarrow> min (clock w + 400) (max (clock w) t))\<rparr>)"

definition world_1000 :: world where
  "world_1000 = world0\<lparr>caller := \<lparr>c_deadline = None, c_end = Some (1000, CtxCanceled)\<rparr>\<rparr>"

theorem doors_return_by_the_deadline_witness:
  "snd (fst (Do 0 heeding [Some (WithRateLimitRetry 3600000000000)] world_1000)) = Some Canceled \<and>
   clock (snd (Do 0 heeding [Some (WithRateLimitRetry 3600000000000)] world_1000)) \<le> 1000 \<and>
   clock (snd (GetBytes (playing_env demo_request demo_lib (\<lambda>i. Inr (503, Map.empty, ''busy'', None))) ''u'' [] world_1000)) \<le> 1000 \<and>
   clock (snd (RoundTrip (\<lambda>_. None) (status_tripper 503) (demo_rt 503) demo_request world_1000)) \<le> 1000"
proof -
  have c: "c_end (caller world_1000) = Some (1000, CtxCanceled)" "clock world_1000 = 0"
    by (simp_all add: world_1000_def world0_def)
  have f: "prompt_fn heeding" by (auto simp: prompt_fn_def in_time_def heeding_def)
  have e: "prompt_env (playing_env demo_request demo_lib (\<lambda>i. Inr (503, Map.empty, ''busy'', None))) (newGetConfig [])"
  proof -
    have "cfg_setHeaders (newGetConfig []) = None" by (simp add: newGetConfig_def Let_def getConfig.defs loopConfig.defs normalize_def zeroConfig_def)
    then show ?thesis by (simp add: prompt_env_def get_answer_def playing_env_def in_time_def)
  qed
  have r: "prompt_rt (status_tripper 503) (demo_rt 503) demo_request"
    by (auto simp: prompt_rt_def in_time_def demo_rt_def NewRetryRoundTripper_def rt_transport_def status_tripper_def
        zeroTransport_def getCheckRetry_def defaultCheckRetry_def demo_request_def)
  have "snd (fst (Do 0 heeding [Some (WithRateLimitRetry 3600000000000)] world_1000)) = Some Canceled" by code_simp
  with doors_return_by_the_deadline [OF c(1) f e r, of 0 "[Some (WithRateLimitRetry 3600000000000)]"] c(2)
  show ?thesis by simp
qed

end
