(* ===== verification/Stack.thy ===== *)
theory Stack
  imports Containment Deadlines
begin

text \<open>
  The doors over a retry client (\<open>GetBytes\<close>, \<open>DoConditional\<close>, \<open>NewRetryClient\<close> and \<open>RoundTrip\<close> together): the bodies of
  all the responses a call meets, how often it sends, and when it returns. The layers are the attempts of
  the door, the redirects of \<open>net/http\<close>'s client under the policy, and the retries of the transport.
\<close>

section \<open>Clients that settle\<close>

text \<open>What \<open>net/http\<close> does between two rounds: \<open>R\<close> relates the worlds, and a next request is as the first.\<close>

definition steady :: "net_http \<Rightarrow> (request \<Rightarrow> bool) \<Rightarrow> (world \<Rightarrow> world \<Rightarrow> bool) \<Rightarrow> bool" where
  "steady nh P R \<longleftrightarrow>
     (\<forall>reqs r w x w'. reqs \<noteq> [] \<longrightarrow> (\<forall>q \<in> set reqs. P q) \<longrightarrow> nh_next nh reqs r w = (x, w') \<longrightarrow>
        R w w' \<and> (\<forall>q. x = Some (Inr q) \<longrightarrow> P q))"

text \<open>The request of an attempt of \<open>GetBytes\<close>, before and after the header hook.\<close>

definition asks :: "get_env \<Rightarrow> getConfig \<Rightarrow> (request \<Rightarrow> bool) \<Rightarrow> (world \<Rightarrow> world \<Rightarrow> bool) \<Rightarrow> bool" where
  "asks env cfg P R \<longleftrightarrow>
     (\<forall>u q. ge_new_request env u = Inr q \<longrightarrow> P q) \<and>
     (\<forall>fn q w q' w'. cfg_setHeaders cfg = Some fn \<longrightarrow> P q \<longrightarrow> fn q w = (q', w') \<longrightarrow> R w w' \<and> P q')"

definition open_of :: "err + response \<Rightarrow> nat option" where
  "open_of got = (case got of Inl e \<Rightarrow> None | Inr r \<Rightarrow> Body r)"

lemma open_of_simps [simp]: "open_of (Inl e) = None" "open_of (Inr r) = Body r"
  by (simp_all add: open_of_def)

text \<open>
  A call that leaves the ledger with the body of its answer open, every other one closed, and at most
  \<open>n\<close> more sends; the same of a transport.
\<close>

definition settles :: "http_do \<Rightarrow> (request \<Rightarrow> bool) \<Rightarrow> nat \<Rightarrow> bool" where
  "settles c P n \<longleftrightarrow>
     (\<forall>q w got w'. P q \<longrightarrow> c q w = (got, w') \<longrightarrow>
        ledger w w' (open_of got) \<and> (\<forall>r. got = Inr r \<longrightarrow> Body r \<noteq> None) \<and> outside w' \<le> outside w + n)"

definition tripper_settles :: "round_tripper \<Rightarrow> (request \<Rightarrow> bool) \<Rightarrow> nat \<Rightarrow> bool" where
  "tripper_settles tr P n \<longleftrightarrow>
     (\<forall>q w r e w'. P q \<longrightarrow> tr q w = ((r, e), w') \<longrightarrow>
        ledger w w' (held r) \<and> (r \<noteq> None \<longrightarrow> held r \<noteq> None \<and> e = None) \<and> outside w' \<le> outside w + n)"

text \<open>The rule of \<open>http.RoundTripper\<close>: a response or an error, not both.\<close>

definition one_answer :: "round_tripper \<Rightarrow> bool" where
  "one_answer tr \<longleftrightarrow> (\<forall>q w r e w'. tr q w = ((r, e), w') \<longrightarrow> r = None \<or> e = None)"

lemma answered_once:
  assumes "numbered (rt_transport dt rt)" and "one_answer (rt_transport dt rt)" and "answered dt rt r e" and "r \<noteq> None"
  shows "held r \<noteq> None \<and> e = None"
proof -
  obtain q w0 w1 where o: "roundTripOnce dt rt q w0 = ((r, e), w1)" using assms(3) by (auto simp: answered_def)
  then obtain e0 where t: "rt_transport dt rt q w0 = ((r, e0), w1)" "e = nameHangUp e0"
    by (auto simp: roundTripOnce_def split: prod.splits)
  with assms(2,4) have "e0 = None" unfolding one_answer_def by blast
  moreover have "held r = Some (outside w0)"
    using spec [OF spec [OF assms(1) [unfolded numbered_def], of q], of w0] assms(4) by (auto simp: t(1) held_def)
  ultimately show ?thesis by (simp add: t(2) nameHangUp_def)
qed

lemma RoundTrip_settles:
  assumes "numbered (rt_transport dt rt)" and "one_answer (rt_transport dt rt)"
  shows "tripper_settles (RoundTrip pt dt rt) (tame rt) (nat (attempts (rt_schedule rt)))"
  unfolding tripper_settles_def
proof (intro allI impI)
  fix q w r e w'
  assume "tame rt q" and rt: "RoundTrip pt dt rt q w = ((r, e), w')"
  then have f: "fair dt rt q" using assms(1) by (simp add: fair_def)
  have one: "1 \<le> nat (attempts (rt_schedule rt))" using rt_schedule_fields(2) [of rt] by (simp del: rt_schedule_fields)
  note once = answered_once [OF assms]
  from rt show "ledger w w' (held r) \<and> (r \<noteq> None \<longrightarrow> held r \<noteq> None \<and> e = None) \<and> outside w' \<le> outside w + nat (attempts (rt_schedule rt))"
  proof (cases rule: RoundTrip_cases)
    case once: once
    have "answered dt rt r e" using once(2) by (auto simp: answered_def)
    with ledger_send [OF assms(1) ledger_start once(2)] one answered_once [OF assms] show ?thesis by auto
  next
    case (ended m)
    with f once [of r e] show ?thesis by (auto simp: rt_inv_def rt_verdict_def simp del: rt_schedule_fields)
  next
    case (elapsed m r' e')
    with f show ?thesis by (auto simp: rt_inv_def held_def simp del: rt_schedule_fields)
  next
    case (stopped m x)
    with f show ?thesis by (auto simp: rt_inv_def held_def simp del: rt_schedule_fields)
  qed
qed

section \<open>The client\<close>

lemma client_send_settles:
  assumes "tripper_settles tr P n" and "P q" and "client_send tr q w = (got, w')"
  shows "ledger w w' (open_of got)" "got = Inr r \<Longrightarrow> Body r \<noteq> None" "outside w' \<le> outside w + n"
proof -
  obtain r e where t: "tr q w = ((r, e), w')" "got = (case e of Some e \<Rightarrow> Inl e | None \<Rightarrow> (case r of None \<Rightarrow> Inl nil_response | Some r \<Rightarrow> Inr r))"
    using assms(3) by (auto simp: client_send_def split: prod.splits)
  have "ledger w w' (held r) \<and> (r \<noteq> None \<longrightarrow> held r \<noteq> None \<and> e = None) \<and> outside w' \<le> outside w + n"
    using assms(1,2) t(1) unfolding tripper_settles_def by blast
  then show "ledger w w' (open_of got)" "outside w' \<le> outside w + n" "got = Inr r' \<Longrightarrow> Body r' \<noteq> None" for r'
    by (auto simp: t(2) held_def split: option.splits)
qed

lemma close_settles: "ledger w0 w (Some a) \<Longrightarrow> ledger w0 (close_body a w) None"
  by (rule ledger_closed [of w0 w a]) (simp_all add: close_body_def)

lemma in_time_close: "in_time c w (close_body a w)"
  by (simp add: in_time_def close_body_def)

lemma close_outside [simp]: "outside (close_body a w) = outside w"
  by (simp add: close_body_def)

context capped_policy
begin

lemma call_settles:
  assumes tr: "tripper_settles tr P n" and nh: "steady nh P keeps" and "P req"
  shows "\<exists>got w'. client_loop nh tr policy [req] w = Some (got, w') \<and> ledger w w' (open_of got) \<and>
    (\<forall>r. got = Inr r \<longrightarrow> Body r \<noteq> None) \<and> outside w' \<le> outside w + Suc (nat cap) * n"
proof (rule call_rule [of "\<lambda>reqs w'. reqs \<noteq> [] \<and> (\<forall>q \<in> set reqs. P q) \<and> ledger w w' None \<and> outside w' \<le> outside w + (length reqs - 1) * n"],
    goal_cases)
  case 1
  with assms show ?case by simp
next
  case (2 reqs w1 got w')
  then have last: "P (last reqs)" by simp
  have more: "outside w1 + n \<le> outside w + Suc (nat cap) * n"
  proof -
    have "length reqs - 1 + 1 \<le> Suc (nat cap)" using 2 by simp
    then have "(length reqs - 1 + 1) * n \<le> Suc (nat cap) * n" by (rule mult_le_mono1)
    then have "outside w + (length reqs - 1) * n + n \<le> outside w + Suc (nat cap) * n" by simp
    with 2(1) show ?thesis by linarith
  qed
  have sent: "ledger w w2 (open_of a) \<and> (\<forall>r. a = Inr r \<longrightarrow> Body r \<noteq> None) \<and> outside w2 \<le> outside w + Suc (nat cap) * n"
    if "client_send tr (last reqs) w1 = (a, w2)" for a w2
    using client_send_settles [OF tr last that] 2(1) more by (metis ledger_trans add_le_mono1 le_trans)
  have moved: "ledger w w3 h \<and> outside w3 = outside w2" if "ledger w w2 h" "nh_next nh reqs r w2 = (x, w3)" for h r x w2 w3
  proof -
    have "keeps w2 w3" using nh 2(1) that(2) unfolding steady_def by blast
    with ledger_keeps [OF that(1)] show ?thesis by (simp add: keeps_def)
  qed
  from 2(4) show ?case
  proof (cases rule: client_step_cases [of tr reqs w1 nh policy])
    case (failed e w2)
    with 2(4) sent [OF failed(1)] show ?thesis by auto
  next
    case (returned r w2 w3)
    then obtain x where "nh_next nh reqs r w2 = (x, w3)" by blast
    with returned(3) 2(4) sent [OF returned(1)] moved [of w2 "Body r"] show ?thesis by auto
  next
    case (broken r w2 w3 e)
    then obtain x where "nh_next nh reqs r w2 = (x, w3)" by blast
    with broken(3) 2(4) sent [OF broken(1)] moved [of w2 "Body r"] close_settles [of w w3 "the (Body r)"] show ?thesis by auto
  next
    case (followed r w2 w3 q)
    with 2(4) show ?thesis by simp
  qed
next
  case (3 reqs w1 q w')
  then have last: "P (last reqs)" by simp
  from 3(4) show ?case
  proof (cases rule: client_step_cases [of tr reqs w1 nh policy])
    case (followed r w2 w3 q')
    have k: "keeps w2 w3" "P q'" using nh 3(1) followed(2) unfolding steady_def by blast+
    have "ledger w w2 (Body r)" "Body r \<noteq> None" "outside w2 \<le> outside w + length reqs * n"
    proof -
      have "length reqs * n = (length reqs - 1) * n + n" using 3(1) by (cases reqs) simp_all
      then show "ledger w w2 (Body r)" "Body r \<noteq> None" "outside w2 \<le> outside w + length reqs * n"
        using client_send_settles [OF tr last followed(1)] 3(1) ledger_trans [of w w1 w2] by auto
    qed
    with ledger_keeps [OF _ k(1)] close_settles [of w w3 "the (Body r)"] k 3(1,4) followed(4) show ?thesis
      by (auto simp: keeps_def)
  qed (use 3(4) in simp_all)
qed

lemma call_in_time:
  assumes tr: "\<And>q w. P q \<Longrightarrow> in_time (caller w) w (snd (tr q w))" and nh: "steady nh P (\<lambda>w. in_time (caller w) w)" and "P req"
  shows "\<exists>got w'. client_loop nh tr policy [req] w = Some (got, w') \<and> in_time (caller w) w w'"
proof (rule call_rule [of "\<lambda>reqs w'. reqs \<noteq> [] \<and> (\<forall>q \<in> set reqs. P q) \<and> in_time (caller w) w w'"], goal_cases)
  case 1
  with assms show ?case by simp
next
  case (2 reqs w1 got w')
  have sent: "in_time (caller w) w w2" if "client_send tr (last reqs) w1 = (a, w2)" for a w2
    using tr [of "last reqs" w1] 2(1) that in_time_next by (auto simp: client_send_def split: prod.splits)
  have moved: "in_time (caller w) w w3" if "in_time (caller w) w w2" "nh_next nh reqs r w2 = (x, w3)" for r x w2 w3
    using nh 2(1) that in_time_next unfolding steady_def by blast
  from 2(4) show ?case
  proof (cases rule: client_step_cases [of tr reqs w1 nh policy])
    case (failed e w2)
    with 2(4) sent [OF failed(1)] show ?thesis by simp
  next
    case (returned r w2 w3)
    then obtain x where "nh_next nh reqs r w2 = (x, w3)" by blast
    with returned(3) 2(4) moved [OF sent [OF returned(1)]] show ?thesis by simp
  next
    case (broken r w2 w3 e)
    then obtain x where "nh_next nh reqs r w2 = (x, w3)" by blast
    with broken(3) 2(4) moved [OF sent [OF broken(1)]] show ?thesis by (auto intro: in_time_trans [OF _ in_time_close])
  next
    case (followed r w2 w3 q)
    with 2(4) show ?thesis by simp
  qed
next
  case (3 reqs w1 q w')
  from 3(4) show ?case
  proof (cases rule: client_step_cases [of tr reqs w1 nh policy])
    case (followed r w2 w3 q')
    have "in_time (caller w2) w2 w3" "P q'" using nh 3(1) followed(2) unfolding steady_def by blast+
    moreover have "in_time (caller w) w w2"
      using tr [of "last reqs" w1] 3(1) followed(1) in_time_next by (auto simp: client_send_def split: prod.splits)
    ultimately show ?thesis using 3(1,4) followed(4) in_time_next by (auto intro: in_time_trans [OF _ in_time_close])
  qed (use 3(4) in simp_all)
qed

end

section \<open>The doors\<close>

definition spent :: "world \<Rightarrow> world \<Rightarrow> nat \<Rightarrow> bool" where
  "spent w0 w k \<longleftrightarrow> ledger w0 w None \<and> outside w \<le> outside w0 + k"

lemma spent_same: "spent w0 w k \<Longrightarrow> outside w' = outside w \<Longrightarrow> bodies w' = bodies w \<Longrightarrow> spent w0 w' k"
  by (auto simp: spent_def intro: ledger_same)

lemma spent_trans: "spent w0 w k \<Longrightarrow> spent w w' m \<Longrightarrow> spent w0 w' (k + m)"
  by (auto simp: spent_def intro: ledger_trans)

lemma spent_mono: "spent w0 w k \<Longrightarrow> k \<le> m \<Longrightarrow> spent w0 w m"
  by (simp add: spent_def)

lemma getAttempt_spends:
  assumes "asks env cfg P keeps" and c: "settles (ge_client env) P n"
  shows "spent w (snd (getAttempt env u cfg w)) n"
proof (cases "ge_new_request env u")
  case (Inl e)
  then show ?thesis by (simp add: getAttempt_def spent_def)
next
  case (Inr req)
  obtain got w1 where a: "get_answer env cfg req w = (got, w1)" by fastforce
  obtain q w2 where q: "P q" "keeps w w2" "ge_client env q w2 = (got, w1)"
  proof (cases "cfg_setHeaders cfg")
    case None
    with assms(1) Inr a that [of req w] show ?thesis by (auto simp: get_answer_def asks_def)
  next
    case (Some fn)
    obtain q w2 where fn: "fn req w = (q, w2)" by fastforce
    have "P req" using assms(1) Inr unfolding asks_def by blast
    with assms(1) Some fn have "keeps w w2 \<and> P q" unfolding asks_def by blast
    with Some fn a that [of q w2] show ?thesis by (simp add: get_answer_def)
  qed
  have s: "ledger w2 w1 (open_of got)" "\<And>r. got = Inr r \<Longrightarrow> Body r \<noteq> None" "outside w1 \<le> outside w2 + n"
    using c q unfolding settles_def by blast+
  moreover have "outside w2 = outside w" using q(2) by (simp add: keeps_def)
  ultimately have "outside w1 \<le> outside w + n" by simp
  with ledger_trans [OF ledger_keeps [OF ledger_start q(2)] s(1)] judged_ledger [OF Inr a _ s(2)]
  show ?thesis by (simp add: spent_def open_of_def)
qed

interpretation spending: loop_contract "loop_schedule cfg" start "get_attempt_fn env u cfg" "get_pause env u cfg"
  "\<lambda>m (x, w). asks env cfg P keeps \<and> settles (ge_client env) P n \<longrightarrow> spent w0 w (m * n)"
  "\<lambda>m d (x, w). asks env cfg P keeps \<and> settles (ge_client env) P n \<longrightarrow> spent w0 w (Suc m * n)"
  "\<lambda>m (x, w). asks env cfg P keeps \<and> settles (ge_client env) P n \<longrightarrow> spent w0 w (Suc m * n)"
  "\<lambda>m (x, w). asks env cfg P keeps \<and> settles (ge_client env) P n \<longrightarrow> spent w0 w (Suc m * n)"
  for cfg start env u P n w0
proof -
  have att: "spent w0 w' (Suc m * n)"
    if "asks env cfg P keeps" "settles (ge_client env) P n" "spent w0 w (m * n)" "get_attempt_fn env u cfg m (x, w) = (v, x', w')" for m x w v x' w'
  proof -
    obtain a w1 where g: "getAttempt env u cfg w = (a, w1)" by fastforce
    have "outside w' = outside w1" "bodies w' = bodies w1"
      using that(4) g by (auto simp: get_attempt_fn_def Let_def world_simps split: prod.splits if_splits)
    moreover have "spent w w1 n" using getAttempt_spends [OF that(1,2), of w u] g by simp
    ultimately show ?thesis using spent_trans [OF that(3)] by (auto intro: spent_same simp: add.commute)
  qed
  show "loop_contract (loop_schedule cfg) start (get_attempt_fn env u cfg) (get_pause env u cfg)
    (\<lambda>m (x, w). asks env cfg P keeps \<and> settles (ge_client env) P n \<longrightarrow> spent w0 w (m * n))
    (\<lambda>m d (x, w). asks env cfg P keeps \<and> settles (ge_client env) P n \<longrightarrow> spent w0 w (Suc m * n))
    (\<lambda>m (x, w). asks env cfg P keeps \<and> settles (ge_client env) P n \<longrightarrow> spent w0 w (Suc m * n))
    (\<lambda>m (x, w). asks env cfg P keeps \<and> settles (ge_client env) P n \<longrightarrow> spent w0 w (Suc m * n))"
  proof (unfold_locales, goal_cases)
    case (1 m st e st')
    then show ?case using att by (cases st; cases st') blast
  next
    case (2 m st e st')
    then show ?case using att by (cases st; cases st') blast
  next
    case (3 m e x w)
    then show ?case by (auto simp: world_simps intro: spent_same)
  next
    case (4 m e st d)
    then show ?case by (auto simp: get_pause_def world_simps split: prod.splits intro: spent_same)
  next
    case (5 m x w d w')
    then show ?case using SleepCtx_frame [of d w] by (auto intro: spent_same)
  qed
qed

lemma GetBytes_spends:
  assumes "asks env (newGetConfig opts) P keeps" and "settles (ge_client env) P n"
  shows "spent w (snd (GetBytes env u opts w)) (nat (cfg_maxAttempts (newGetConfig opts)) * n)"
proof -
  let ?c = "newGetConfig opts"
  let ?N = "nat (attempts (loop_schedule ?c))"
  have N: "?N = nat (cfg_maxAttempts ?c)" "Suc (?N - 1) = ?N" "0 < attempts (loop_schedule ?c)"
    using newGetConfig_fields(1) [of opts] by (simp_all add: loop_schedule_def)
  have start: "case (([], None, 0), w) of (x, w') \<Rightarrow> asks env ?c P keeps \<and> settles (ge_client env) P n \<longrightarrow> spent w w' (0 * n)"
    by (simp add: spent_def)
  obtain ex se b e ra w1 where r: "run (loop_schedule ?c) (get_attempt_fn env u ?c) (get_pause env u ?c) (([], None, 0), w) =
      (ex, se, (b, e, ra), w1)" by (metis prod.exhaust)
  have "spent w w1 (?N * n)"
  proof (cases "ex")
    case True
    with spending.run_exhausted [OF r [unfolded eqTrueI [OF True]] start N(3)] assms N(2) show ?thesis by simp
  next
    case False
    then have ex: "ex = False" by simp
    show ?thesis
    proof (cases se)
      case None
      from spending.run_done [OF r [unfolded None ex] start N(3)] assms
      obtain m where "m < ?N" "spent w w1 (Suc m * n)" by auto
      then show ?thesis by (blast intro: spent_mono mult_le_mono1 Suc_leI)
    next
      case (Some x)
      from spending.run_stopped [OF r [unfolded Some ex] start N(3)] assms
      obtain m w2 d where m: "m < ?N - 1" "spent w w2 (Suc m * n)" and "w1 = w2 \<or> SleepCtx d w2 = (Some x, w1)"
        unfolding spending.stopped_def by auto
      then have "spent w w1 (Suc m * n)" using SleepCtx_frame [of d w2] by (auto intro: spent_same)
      moreover have "Suc m * n \<le> ?N * n" using m(1) by (intro mult_le_mono1) simp
      ultimately show ?thesis by (rule spent_mono)
    qed
  qed
  then show ?thesis
    unfolding N(1) GetBytes_def r Let_def by (auto simp: world_simps intro: spent_same)
qed

lemma DoConditional_spends:
  assumes "P (conditional_request v req)" and "settles client P n"
  shows "spent w (snd (snd (DoConditional pt client req v limit w))) n"
proof -
  obtain got w1 where c: "client (conditional_request v req) w = (got, w1)" by fastforce
  then have s: "ledger w w1 (open_of got)" "\<And>r. got = Inr r \<Longrightarrow> Body r \<noteq> None" "outside w1 \<le> outside w + n"
    using assms unfolding settles_def by blast+
  show ?thesis
  proof (cases got)
    case (Inl e)
    with s show ?thesis by (simp add: c DoConditional_def Let_def spent_def)
  next
    case (Inr r)
    with s obtain a where a: "Body r = Some a" "ledger w w1 (Some a)" by auto
    have "spent w (DrainClose a w1) n" "spent w (snd (ReadLimitedBody a m w1)) n" for m
      using s(3) by (auto simp: spent_def world_simps intro!: ledger_closed [OF a(2)])
    then show ?thesis
      by (auto simp: c Inr a(1) DoConditional_def Let_def split: prod.splits sum.splits option.splits) (metis snd_conv)+
  qed
qed

section \<open>The whole stack\<close>

text \<open>How many requests a call of a client makes at most under each policy the package ships or builds.\<close>

definition calls_at_most :: "redirect_policy \<Rightarrow> nat \<Rightarrow> bool" where
  "calls_at_most p n \<longleftrightarrow>
     p = DefaultRedirectPolicy \<and> n = 6 \<or> p = DockerGitHubRedirectPolicy \<and> n = 6 \<or> p = RefuseAllRedirects \<and> n = 1 \<or>
     (\<exists>opts. p = RedirectPolicyFunc opts \<and> n = (let m = latest hops_of opts 0 in if m \<le> 0 then 6 else Suc (nat m)))"

lemma calls_at_most_capped:
  assumes "calls_at_most p n"
  obtains cap where "capped_policy p cap" "n = Suc (nat cap)"
proof -
  have "rr_maxHops (compiled opts) = (let m = latest hops_of opts 0 in if m \<le> 0 then 5 else m)" for opts
    by (simp add: compiled_def Let_def)
  then have "capped_policy (RedirectPolicyFunc opts) (let m = latest hops_of opts 0 in if m \<le> 0 then 5 else m)" for opts
    using configured_following.capped_policy_axioms [of opts] by simp
  then show thesis
    using assms that [of 5] that [of 0] that default_chain.following.capped_policy_axioms
      docker_chain.following.capped_policy_axioms refusing_chain.following.capped_policy_axioms
    by (fastforce simp: calls_at_most_def Let_def split: if_splits)
qed

text \<open>A base transport and the hooks of a retry client, as the accounting needs them.\<close>

definition honest_base :: "round_tripper \<Rightarrow> retryRoundTripper \<Rightarrow> bool" where
  "honest_base dt rt \<longleftrightarrow> numbered (rt_transport dt rt) \<and> one_answer (rt_transport dt rt)"

lemma retry_client_settles:
  assumes "calls_at_most p n" and "honest_base dt (NewRetryRoundTripper dt base cfg)"
    and "steady nh (tame (NewRetryRoundTripper dt base cfg)) keeps"
  shows "settles (client_call nh dt (the (NewRetryClient pt dt base (Some p) cfg))) (tame (NewRetryRoundTripper dt base cfg))
    (n * send_budget cfg)"
  unfolding settles_def
proof (intro allI impI)
  let ?rt = "NewRetryRoundTripper dt base cfg" and ?cl = "the (NewRetryClient pt dt base (Some p) cfg)"
  fix q w got w' assume q: "tame ?rt q" "client_call nh dt ?cl q w = (got, w')"
  obtain cap where cap: "capped_policy p cap" "n = Suc (nat cap)" using assms(1) by (rule calls_at_most_capped)
  have "tripper_settles (RoundTrip pt dt ?rt) (tame ?rt) (nat (attempts (rt_schedule ?rt)))"
    using assms(2) by (intro RoundTrip_settles) (simp_all add: honest_base_def)
  moreover have "nat (attempts (rt_schedule ?rt)) = send_budget cfg"
    by (simp add: send_budget_def NewRetryRoundTripper_def)
  ultimately have "tripper_settles (RoundTrip pt dt ?rt) (tame ?rt) (send_budget cfg)" by simp
  from capped_policy.call_settles [OF cap(1) this assms(3) q(1), of w] q(2) cap(2)
  show "ledger w w' (open_of got) \<and> (\<forall>r. got = Inr r \<longrightarrow> Body r \<noteq> None) \<and> outside w' \<le> outside w + n * send_budget cfg"
    by (auto simp: client_call_def client_do_def client_fields)
qed

lemma retry_client_in_time:
  assumes "calls_at_most p n" and "steady nh (prompt_rt dt (NewRetryRoundTripper dt base cfg)) (\<lambda>w. in_time (caller w) w)"
    and "prompt_rt dt (NewRetryRoundTripper dt base cfg) q"
  shows "in_time (caller w) w (snd (client_call nh dt (the (NewRetryClient pt dt base (Some p) cfg)) q w))"
proof -
  obtain cap where cap: "capped_policy p cap" using assms(1) by (rule calls_at_most_capped)
  have "in_time (caller w) w (snd (RoundTrip pt dt (NewRetryRoundTripper dt base cfg) q w))"
    if "prompt_rt dt (NewRetryRoundTripper dt base cfg) q" for q w
    using that by (rule RoundTrip_in_time)
  from capped_policy.call_in_time [OF cap, where P = "prompt_rt dt (NewRetryRoundTripper dt base cfg)"
        and tr = "RoundTrip pt dt (NewRetryRoundTripper dt base cfg)", OF this assms(2,3), of w]
  show ?thesis
    by (auto simp: client_call_def client_do_def client_fields)
qed

text \<open>
  What a stack rests on: the base transport answers by \<open>honest_base\<close>, and neither the hooks nor \<open>net/http\<close>
  between two rounds send or close; or all of them return by the end of the caller's context.
\<close>

definition honest_stack :: "net_http \<Rightarrow> get_env \<Rightarrow> getConfig \<Rightarrow> round_tripper \<Rightarrow> retryRoundTripper \<Rightarrow> bool" where
  "honest_stack nh env cfg dt rt \<longleftrightarrow> honest_base dt rt \<and> steady nh (tame rt) keeps \<and> asks env cfg (tame rt) keeps"

definition prompt_stack :: "net_http \<Rightarrow> get_env \<Rightarrow> getConfig \<Rightarrow> round_tripper \<Rightarrow> retryRoundTripper \<Rightarrow> bool" where
  "prompt_stack nh env cfg dt rt \<longleftrightarrow>
     steady nh (prompt_rt dt rt) (\<lambda>w. in_time (caller w) w) \<and> asks env cfg (prompt_rt dt rt) (\<lambda>w. in_time (caller w) w)"

lemma asks_over [simp]: "asks (env\<lparr>ge_client := c\<rparr>) cfg P R \<longleftrightarrow> asks env cfg P R"
  by (simp add: asks_def)

lemma tame_conditional [simp]: "tame rt (conditional_request v req) \<longleftrightarrow> tame rt req"
  by (simp add: tame_def conditional_request_def Let_def)

lemma stack_spends:
  assumes "calls_at_most p n" and "honest_stack nh env (newGetConfig opts) dt (NewRetryRoundTripper dt base cfg)"
    and "client = client_call nh dt (the (NewRetryClient pt dt base (Some p) cfg))"
  shows "spent w (snd (GetBytes (env\<lparr>ge_client := client\<rparr>) u opts w)) (nat (cfg_maxAttempts (newGetConfig opts)) * (n * send_budget cfg))"
    and "tame (NewRetryRoundTripper dt base cfg) req \<Longrightarrow> spent w (snd (snd (DoConditional pt client req v limit w))) (n * send_budget cfg)"
proof -
  let ?rt = "NewRetryRoundTripper dt base cfg"
  have s: "settles client (tame ?rt) (n * send_budget cfg)"
    unfolding assms(3) using assms(1,2) by (intro retry_client_settles) (simp_all add: honest_stack_def)
  show "spent w (snd (GetBytes (env\<lparr>ge_client := client\<rparr>) u opts w)) (nat (cfg_maxAttempts (newGetConfig opts)) * (n * send_budget cfg))"
    by (rule GetBytes_spends [where P = "tame ?rt"]) (use assms(2) s in \<open>simp_all add: honest_stack_def\<close>)
  assume "tame ?rt req"
  then show "spent w (snd (snd (DoConditional pt client req v limit w))) (n * send_budget cfg)"
    by (intro DoConditional_spends [OF _ s]) simp
qed

text \<open>An attempt of \<open>GetBytes\<close> that fails for good is its last.\<close>

lemma GetBytes_final:
  assumes "getAttempt env u (newGetConfig opts) w = ((b, False, ra, Some e), w')"
  shows "GetBytes env u opts w = (([], Some (reduceURLErrors e)), w')"
proof -
  obtain k where "nat (cfg_maxAttempts (newGetConfig opts)) = Suc k"
    using newGetConfig_fields(1) [of opts] by (metis gr0_implies_Suc zero_less_nat_eq)
  with assms show ?thesis by (simp add: GetBytes_def run_def get_attempt_fn_def Let_def LogSafeError_def)
qed

section \<open>Properties\<close>

text \<open>
  C4: A whole call leaks no response. Over a retry client with any policy the package ships or builds, when \<open>GetBytes\<close> or
  \<open>DoConditional\<close> returns, on whatever path, every body the base transport handed out during the call, at
  any attempt, redirect and retry, has been closed exactly once, and no other has been closed.
\<close>

theorem stack_closes_every_body:
  assumes "calls_at_most p n" and "honest_stack nh env (newGetConfig opts) dt (NewRetryRoundTripper dt base cfg)"
    and "tame (NewRetryRoundTripper dt base cfg) req"
    and "w' = snd (GetBytes (env\<lparr>ge_client := client_call nh dt (the (NewRetryClient pt dt base (Some p) cfg))\<rparr>) u opts w) \<or>
      w' = snd (snd (DoConditional pt (client_call nh dt (the (NewRetryClient pt dt base (Some p) cfg))) req v limit w))"
  shows "(\<forall>a. outside w \<le> a \<and> a < outside w' \<longrightarrow> b_closed (bodies w' a) = 1) \<and>
    (\<forall>a < outside w. b_closed (bodies w' a) = b_closed (bodies w a))"
  using assms(4) stack_spends [OF assms(1,2) refl, where w = w] assms(3)
  by (auto simp: spent_def ledger_def simp del: One_nat_def)

text \<open>
  C7: A whole call is bounded. However the servers answer, one \<open>GetBytes\<close> over a retry client sends at most its attempts
  times the requests of a chain under the policy times the transport's attempts, and one \<open>DoConditional\<close> at most as
  often as one attempt of it. A chain has at most six requests by default and one when redirects are refused.
\<close>

theorem stack_sends_bounded:
  assumes "calls_at_most p n" and "honest_stack nh env (newGetConfig opts) dt (NewRetryRoundTripper dt base cfg)"
    and "tame (NewRetryRoundTripper dt base cfg) req" and "NewRetryClient pt dt base (Some p) cfg = Some cl"
  shows "outside (snd (GetBytes (env\<lparr>ge_client := client_call nh dt cl\<rparr>) u opts w))
      \<le> outside w + nat (cfg_maxAttempts (newGetConfig opts)) * (n * send_budget cfg) \<and>
    outside (snd (snd (DoConditional pt (client_call nh dt cl) req v limit w))) \<le> outside w + n * send_budget cfg"
  using stack_spends [OF assms(1,2), where client = "client_call nh dt cl" and pt = pt and w = w] assms(3,4)
  by (simp add: spent_def)

text \<open>
  C6: A whole call returns by its deadline. When the base transport, the hooks and \<open>net/http\<close> itself return by the end of
  the caller's context, so do \<open>GetBytes\<close> and \<open>DoConditional\<close> over the retry client, whatever attempts, redirects, retries
  and waits are under way; at once when the context has ended.
\<close>

theorem stack_returns_by_the_deadline:
  assumes "calls_at_most p n" and "prompt_stack nh env (newGetConfig opts) dt (NewRetryRoundTripper dt base cfg)"
    and "prompt_rt dt (NewRetryRoundTripper dt base cfg) req" and "NewRetryClient pt dt base (Some p) cfg = Some cl"
    and "c_end (caller w) = Some (t, f)"
  shows "clock (snd (GetBytes (env\<lparr>ge_client := client_call nh dt cl\<rparr>) u opts w)) \<le> max (clock w) t \<and>
    clock (snd (snd (DoConditional pt (client_call nh dt cl) req v limit w))) \<le> max (clock w) t"
proof -
  let ?rt = "NewRetryRoundTripper dt base cfg" and ?env = "env\<lparr>ge_client := client_call nh dt cl\<rparr>"
  have call: "in_time (caller w) w (snd (client_call nh dt cl q w))" if "prompt_rt dt ?rt q" for q w
    using retry_client_in_time [OF assms(1) _ that, where nh = nh and w = w and pt = pt] assms(2,4) by (simp add: prompt_stack_def)
  have a: "asks env (newGetConfig opts) (prompt_rt dt ?rt) (\<lambda>w. in_time (caller w) w)" using assms(2) by (simp add: prompt_stack_def)
  have "prompt_env ?env (newGetConfig opts)"
    unfolding prompt_env_def
  proof (intro allI impI)
    fix u q w assume "ge_new_request ?env u = Inr q"
    then have "prompt_rt dt ?rt q" using a by (auto simp: asks_def)
    then show "in_time (caller w) w (snd (get_answer ?env (newGetConfig opts) q w))"
    proof (cases "cfg_setHeaders (newGetConfig opts)")
      case (Some fn)
      obtain q' w1 where fn: "fn q w = (q', w1)" by fastforce
      with a Some \<open>prompt_rt dt ?rt q\<close> have "in_time (caller w) w w1 \<and> prompt_rt dt ?rt q'" unfolding asks_def by blast
      with Some fn call [of q' w1] show ?thesis by (auto simp: get_answer_def intro: in_time_next)
    qed (simp add: get_answer_def call)
  qed
  from GetBytes_in_time [OF this, of w u] have "clock (snd (GetBytes ?env u opts w)) \<le> max (clock w) t"
    using assms(5) by (simp add: in_time_def)
  moreover have "clock (snd (snd (DoConditional pt (client_call nh dt cl) req v limit w))) \<le> max (clock w) t"
  proof -
    have "prompt_rt dt ?rt (conditional_request v req)"
      using assms(3) by (simp add: prompt_rt_def conditional_request_def Let_def)
    from call [OF this, of w] have "clock (snd (client_call nh dt cl (conditional_request v req) w)) \<le> max (clock w) t"
      using assms(5) by (simp add: in_time_def)
    moreover have "clock (snd (snd (DoConditional pt (client_call nh dt cl) req v limit w))) = clock (snd (client_call nh dt cl (conditional_request v req) w))"
      by (auto simp: DoConditional_def Let_def world_simps split: prod.splits sum.splits option.splits) (metis ReadLimitedBody_fields(1) snd_conv)+
    ultimately show ?thesis by simp
  qed
  ultimately show ?thesis by simp
qed

text \<open>
  C32: A redirect the policy does not follow ends the call. Over a retry client with any policy the package ships or builds, wherever in
  the chain and at whatever cost in retries it comes: a refusal comes back from \<open>GetBytes\<close> bare, without the URL the target was
  given with, it is not transient for an enclosing loop, and nothing is sent after it, waited for or logged; under
  \<open>RefuseAllRedirects\<close>, and where \<open>WithPreserveMethod\<close> declines a hop, the redirect itself is the answer and its status the error.
\<close>

theorem unfollowed_redirect_ends_the_call:
  assumes "calls_at_most p n" and "NewRetryClient pt dt base (Some p) cfg = Some cl"
    and "ge_new_request env u = Inr q0" and "(case cfg_setHeaders (newGetConfig opts) of None \<Rightarrow> (q0, w) | Some fn \<Rightarrow> fn q0 w) = (req, w0)"
    and "under_way nh (client_transport dt cl) p req w0 reqs w1" and "client_send (client_transport dt cl) (last reqs) w1 = (Inr r, w2)"
    and "nh_next nh reqs r w2 = (Some (Inr q), w3)" and "p (hop_of q) (map hop_of reqs) = Some e"
  shows "if e = ErrUseLastResponse
    then 300 \<le> StatusCode r \<and> StatusCode r < 400 \<longrightarrow>
      GetBytes (env\<lparr>ge_client := client_call nh dt cl\<rparr>) u opts w =
        (([], Some (StatusError u (StatusCode r))), DrainClose (the (Body r)) w3)
    else GetBytes (env\<lparr>ge_client := client_call nh dt cl\<rparr>) u opts w = (([], Some e), close_body (the (Body r)) w3) \<and> \<not> IsTransient (Some e)"
proof -
  let ?env = "env\<lparr>ge_client := client_call nh dt cl\<rparr>"
  have cl: "client_policy cl = p" using client_fields(2) [of pt dt base p cfg] assms(2) by simp
  have new: "ge_new_request ?env u = Inr q0" using assms(3) by simp
  let ?e = "Inl (url_error nh reqs (Some r) e)"
  have step: "client_step nh (client_transport dt cl) p reqs w1 =
      (if e = ErrUseLastResponse then Inl (Inr r, w3) else Inl (?e, close_body (the (Body r)) w3))"
    using assms(6-8) by (simp add: client_step_def)
  have "client_call nh dt cl req w0 = (if e = ErrUseLastResponse then (Inr r, w3) else (?e, close_body (the (Body r)) w3))"
    using under_way_loop [OF assms(5)] client_loop_ends step by (simp add: client_call_def client_do_def cl)
  then have answer: "get_answer ?env (newGetConfig opts) q0 w = (if e = ErrUseLastResponse then (Inr r, w3) else (?e, close_body (the (Body r)) w3))"
    using assms(4) by (simp add: get_answer_def)
  show ?thesis
  proof (cases "e = ErrUseLastResponse")
    case True
    then have "get_answer ?env (newGetConfig opts) q0 w = (Inr r, w3)" using answer by simp
    moreover have "\<not> IsRetryableStatus (StatusCode r)" if "300 \<le> StatusCode r" "StatusCode r < 400"
      using that by (simp add: IsRetryableStatus_def)
    ultimately have "getAttempt ?env u (newGetConfig opts) w = (([], False, 0, Some (StatusError u (StatusCode r))), DrainClose (the (Body r)) w3)"
      if "300 \<le> StatusCode r" "StatusCode r < 400" using getAttempt_bad_status [OF new] that by simp
    with True GetBytes_final show ?thesis by (simp add: reduceURLErrors_id status_error_judged)
  next
    case False
    then have "is_refusal e"
      using assms(1,8) policy_refusal docker_refusal by (fastforce simp: calls_at_most_def DefaultRedirectPolicy_def defaultRedirectPolicy_def RefuseAllRedirects_def split: if_splits)
    then obtain o' why where e: "e = RedirectRefusedError o' why" by (auto simp: is_refusal_def)
    obtain op v where "url_error nh reqs (Some r) e = UrlError op v (Some e)"
      by (cases "nh_place nh reqs (Some r)") (simp add: url_error_def)
    with False answer have "get_answer ?env (newGetConfig opts) q0 w = (Inl (UrlError op v (Some e)), close_body (the (Body r)) w3)" by simp
    from getAttempt_error_answer [OF new this] have "getAttempt ?env u (newGetConfig opts) w =
        (([], False, 0, Some (UrlError op v (Some e))), close_body (the (Body r)) w3)" by (simp add: e refusal_casts)
    from GetBytes_final [OF this] False show ?thesis by (simp add: e refusal_reduced refusal_casts)
  qed
qed

section \<open>A stack\<close>

text \<open>
  A server that answers with a redirect to the same URL and with a 503 in turn. Under a policy of one hop the first redirect
  is followed, the 503 to the second request retried, and the redirect that comes then refused.
\<close>

definition circling :: round_tripper where
  "circling q w = status_tripper (if even (outside w) then 302 else 503) q w"

definition to_self :: net_http where
  "to_self =
     \<lparr>nh_next = (\<lambda>reqs r w. (if StatusCode r = 302 then Some (Inr (last reqs)) else None, w)),
      nh_place = (\<lambda>reqs r. (''Get'', ''https://h/''))\<rparr>"

definition one_hop :: redirect_policy where
  "one_hop = RedirectPolicyFunc [Some (WithSameHost True), Some (WithMaxHops 1)]"

abbreviation circling_client :: http_client where
  "circling_client \<equiv> the (NewRetryClient (\<lambda>_. None) circling None (Some one_hop) zeroTransport)"

abbreviation circling_env :: get_env where
  "circling_env \<equiv> (demo_env 0)\<lparr>ge_client := client_call to_self circling circling_client\<rparr>"

lemma no_header_hook: "cfg_setHeaders (newGetConfig []) = None"
  by (simp add: newGetConfig_def Let_def getConfig.defs loopConfig.defs normalize_def zeroConfig_def)

lemma circling_stack:
  "calls_at_most one_hop 2"
  "honest_stack to_self (demo_env 0) (newGetConfig []) circling (NewRetryRoundTripper circling None zeroTransport)"
  "prompt_stack to_self (demo_env 0) (newGetConfig []) circling (NewRetryRoundTripper circling None zeroTransport)"
  "tame (NewRetryRoundTripper circling None zeroTransport) demo_request"
  "prompt_rt circling (NewRetryRoundTripper circling None zeroTransport) demo_request"
  "NewRetryClient (\<lambda>_. None) circling None (Some one_hop) zeroTransport = Some circling_client"
proof -
  let ?rt = "NewRetryRoundTripper circling None zeroTransport"
  show t: "tame ?rt demo_request"
    by (simp add: tame_def NewRetryRoundTripper_def zeroTransport_def getCheckRetry_def defaultCheckRetry_def demo_request_def)
  have f: "rt_transport circling ?rt = circling" by (simp add: rt_transport_def NewRetryRoundTripper_def)
  show pr: "prompt_rt circling ?rt demo_request"
    unfolding prompt_rt_def f
    by (simp add: in_time_def NewRetryRoundTripper_def zeroTransport_def getCheckRetry_def defaultCheckRetry_def demo_request_def
        circling_def status_tripper_def)
  have new: "ge_new_request (demo_env 0) u = Inr q \<longleftrightarrow> q = demo_request" for u q by (auto simp: demo_env_def)
  have base: "honest_base circling ?rt"
    unfolding honest_base_def f by (auto simp: numbered_def one_answer_def circling_def status_tripper_def open_body_def)
  have between: "steady to_self P R" if "\<And>w. R w w" for P R
    using that by (auto simp: steady_def to_self_def)
  show "honest_stack to_self (demo_env 0) (newGetConfig []) circling ?rt"
    using base t by (simp add: honest_stack_def between asks_def no_header_hook new)
  show "prompt_stack to_self (demo_env 0) (newGetConfig []) circling ?rt"
    using pr by (simp add: prompt_stack_def between asks_def no_header_hook new)
  have "calls_at_most one_hop (let m = latest hops_of [Some (WithSameHost True), Some (WithMaxHops 1)] 0 in if m \<le> 0 then 6 else Suc (nat m))"
    unfolding calls_at_most_def one_hop_def by blast
  then show "calls_at_most one_hop 2" by (simp add: numeral_2_eq_2)
qed (simp add: NewRetryClient_def)

theorem stack_closes_every_body_witness:
  "outside (snd (GetBytes circling_env ''u'' [] world0)) = 3 \<and>
   b_closed (bodies (snd (GetBytes circling_env ''u'' [] world0)) 0) = 1 \<and>
   b_closed (bodies (snd (GetBytes circling_env ''u'' [] world0)) 2) = 1"
proof -
  have "outside (snd (GetBytes circling_env ''u'' [] world0)) = 3" by code_simp
  moreover have "outside world0 = 0" by (simp add: world0_def)
  ultimately show ?thesis
    using stack_closes_every_body [OF circling_stack(1,2,4) disjI1 [OF refl], of world0 "\<lambda>_. None" "''u''"] by simp
qed

theorem stack_sends_bounded_witness:
  "outside (snd (GetBytes circling_env ''u'' [] world0)) \<le> 3 * (2 * 3) \<and>
   fst (GetBytes circling_env ''u'' [] world0) = ([], Some (RedirectRefusedError ''https://h'' RedirectTooMany))"
proof -
  have "fst (GetBytes circling_env ''u'' [] world0) = ([], Some (RedirectRefusedError ''https://h'' RedirectTooMany))" by code_simp
  moreover have "outside world0 = 0" "send_budget zeroTransport = 3" "nat (cfg_maxAttempts (newGetConfig [])) = 3"
    by (simp_all add: world0_def send_budget_def zeroTransport_def newGetConfig_def Let_def getConfig.defs loopConfig.defs normalize_def zeroConfig_def)
  ultimately show ?thesis
    using stack_sends_bounded [OF circling_stack(1,2,4,6), of "''u''" world0] by simp
qed

text \<open>Under a caller that cancels after a microsecond the first wait of the transport, half a second at least, is cut short.\<close>

theorem stack_returns_by_the_deadline_witness:
  "clock (snd (GetBytes circling_env ''u'' [] world_1000)) \<le> 1000 \<and>
   fst (GetBytes circling_env ''u'' [] world_1000) = ([], Some Canceled)"
proof -
  have "fst (GetBytes circling_env ''u'' [] world_1000) = ([], Some Canceled)" by code_simp
  moreover have "c_end (caller world_1000) = Some (1000, CtxCanceled)" "clock world_1000 = 0"
    by (simp_all add: world_1000_def world0_def)
  ultimately show ?thesis
    using stack_returns_by_the_deadline [OF circling_stack(1,3,5,6), of world_1000 1000 CtxCanceled "''u''"] by simp
qed

text \<open>The server of \<open>Containment\<close> that redirects to another host.\<close>

abbreviation leaving_client :: http_client where
  "leaving_client \<equiv> the (NewRetryClient (\<lambda>_. None) (redirecting 200) None (Some DefaultRedirectPolicy) zeroTransport)"

theorem unfollowed_redirect_ends_the_call_witness:
  "GetBytes ((demo_env 0)\<lparr>ge_client := client_call to_other (redirecting 200) leaving_client\<rparr>) ''u'' [] world0 =
     (([], Some (RedirectRefusedError ''https://other'' RedirectOtherOrigin)),
      close_body 0 (snd (client_send (client_transport (redirecting 200) leaving_client) demo_request world0)))"
proof -
  let ?tr = "client_transport (redirecting 200) leaving_client"
    and ?q = "demo_request\<lparr>URL := (URL demo_request)\<lparr>u_host := ''other''\<rparr>\<rparr>"
  let ?w = "snd (client_send ?tr demo_request world0)"
  have c: "calls_at_most DefaultRedirectPolicy 6" by (simp add: calls_at_most_def)
  have cl: "NewRetryClient (\<lambda>_. None) (redirecting 200) None (Some DefaultRedirectPolicy) zeroTransport = Some leaving_client"
    by (simp add: NewRetryClient_def)
  have n: "ge_new_request (demo_env 0) ''u'' = Inr demo_request" by (simp add: demo_env_def)
  have h: "(case cfg_setHeaders (newGetConfig []) of None \<Rightarrow> (demo_request, world0) | Some fn \<Rightarrow> fn demo_request world0) = (demo_request, world0)"
    by (simp add: no_header_hook)
  have "case fst (client_send ?tr demo_request world0) of Inl _ \<Rightarrow> False | Inr r \<Rightarrow> StatusCode r = 302 \<and> Body r = Some 0"
    by code_simp
  then obtain r where r: "fst (client_send ?tr demo_request world0) = Inr r" "StatusCode r = 302" "Body r = Some 0"
    by (auto split: sum.splits)
  then have s: "client_send ?tr (last [demo_request]) world0 = (Inr r, ?w)" by (simp add: prod_eq_iff)
  have q: "nh_next to_other [demo_request] r ?w = (Some (Inr ?q), ?w)" by (simp add: to_other_def r(2))
  have e: "DefaultRedirectPolicy (hop_of ?q) (map hop_of [demo_request]) = Some (RedirectRefusedError ''https://other'' RedirectOtherOrigin)"
    by code_simp
  from unfollowed_redirect_ends_the_call [OF c cl n h called s q e] show ?thesis by (simp add: r(3))
qed

end
