(* ===== verification/Durations.thy ===== *)
theory Durations
  imports Deadlines
begin

text \<open>
  How long a door takes when its operations are quick (\<open>loop.go\<close>, \<open>roundtripper.go\<close>): the waits it adds are
  bounded by the settings and by \<open>RetryAfterCap\<close>, whatever a server answers.
\<close>

section \<open>How long a loop can take\<close>
















section \<open>Properties\<close>





end
