(* ===== verification/Stack_Time.thy ===== *)
theory Stack_Time
  imports Stack Durations
begin

text \<open>
  How long a whole call over a retry client takes when its context never ends (\<open>loop.go\<close>, \<open>roundtripper.go\<close>, \<open>httpx.go\<close>): the waits of
  the door and of the transport, and every redirect the policy follows.
\<close>

section \<open>A call of the client\<close>


section \<open>The whole call\<close>





section \<open>Properties\<close>




end
