(* ===== verification/Spec2Isabelle.thy ===== *)
theory Spec2Isabelle
  imports Revalidation Certtest Confidential Sharing Stack_Time
begin

text \<open>
  A model of \<open>httpx\<close>, a Go library of HTTP client helpers: it retries calls, classifies their failures, bounds
  what it reads, keeps secrets out of its errors and logs, and confines redirects. Four doors lead in:
  \<open>Do\<close> retries any function, \<open>GetBytes\<close> a GET, \<open>RetryRoundTripper\<close> any request under an \<open>http.Client\<close>,
  and \<open>DoConditional\<close> sends one conditional request. The first three share one loop,
  \<open>schedule.run\<close>, and one verdict, \<open>IsTransient\<close>; the redirect policies stand beside them in the client.

  \<^bold>\<open>The parts and the code they model\<close> (files under \<open>src/\<close>)
  \<^item> Prelude, Go_Strings, Go_Time: 64-bit integers, the string and duration functions of the standard
    library the code uses.
  \<^item> Errors: \<open>httpx.go\<close>, the error types, marks, messages and \<open>unwrapsTo\<close>. An \<open>error\<close> is an \<open>err option\<close>; the
    walks of the \<open>errors\<close> package are lists of nodes. The locale \<open>error_mark\<close> is the contract of the marks.
  \<^item> Causes: \<open>cause.go\<close>. Transience: \<open>IsTransient\<close> and \<open>isCallerContextError\<close>; the locale
    \<open>silent_wrapper\<close> is the contract of wrappers that keep the verdict.
  \<^item> Environment: the world the operations thread, which is clock, caller's context, random draws, body store,
    log and the count of outside calls; \<open>world_op\<close> is the contract of an operation on it.
  \<^item> Backoff: \<open>JitteredBackoff\<close>, \<open>SafeDouble\<close>, \<open>SleepCtx\<close>. Responses: statuses and \<open>Retry-After\<close>. Bodies: \<open>Drain\<close>,
    \<open>DrainClose\<close>, \<open>LimitedBody\<close>, \<open>ReadLimitedBody\<close>. Redaction: \<open>LogSafeError\<close>, the secret redactors, \<open>redactURL\<close>.
  \<^item> Schedule: \<open>loop.go\<close>, \<open>schedule.run\<close>. Its two closures are functions on the door's variables and
    the world; the locale \<open>loop_contract\<close> is the interface each door meets, interpreted by the three doors and
    by a recording of the loop itself; \<open>loop_invariant\<close> is its case of one invariant on the world.
  \<^item> RetryLoop: \<open>Do\<close> and its options. GetBytes: \<open>GetBytes\<close> and its options. Transport: \<open>roundtripper.go\<close>.
  \<^item> Hosts, Redirects: the host and origin keys and the redirect policies. Chains of followed hops are
    the inductive relation \<open>hops\<close>; \<open>redirect_contract\<close> and \<open>anchored_policy\<close> are the contracts of a policy.
    Configured: \<open>RedirectPolicyFunc\<close> under any list of options.
  \<^item> Clients: \<open>NewClient\<close>, \<open>NewRetryClient\<close>, and how doors and policies meet in a client. Following: a call of such a client,
    \<open>net/http\<close>'s loop over the requests of a chain, as a partial function; \<open>capped_policy\<close> is the contract of a policy
    that makes it end.
  \<^item> Conditional: \<open>conditional.go\<close>; Revalidation: a cache kept with it, as the step relation \<open>polled\<close>.
    Tls: \<open>tls.go\<close>. Certtest: \<open>certtest/certtest.go\<close>, with what it calls of the standard library as a record of functions.
  \<^item> Recovery: a reference function for the doors under a script of outcomes, and that \<open>Do\<close>, \<open>GetBytes\<close>
    and \<open>RoundTrip\<close> compute it; \<open>scripted_door\<close> is the contract of a door so driven.
  \<^item> Interleaving: \<open>schedule.run\<close> once more, as the step relation \<open>moves\<close> of a goroutine; \<open>pool_step\<close> lets any
    number of them act in any order on one world, beside whatever else the process does. The locale
    \<open>private_invariant\<close> is the contract of what one goroutine keeps whatever the others do. Sharing: goroutines that
    call \<open>RoundTrip\<close> on one \<open>RetryRoundTripper\<close>; the big-step \<open>RoundTrip\<close> of Transport is one execution of the machine.
  \<^item> Deadlines: when the doors return; \<open>timely_door\<close> is the contract of a door whose operations heed their context.
    Durations: how long they take at most when no context ends.
  \<^item> Composition: the responses \<open>GetBytes\<close> consumes, and its errors under an enclosing \<open>Do\<close>. Confidential: two calls of
    \<open>GetBytes\<close> on URLs that differ in their credentials, run in step by the locale \<open>loop_simulation\<close>.
  \<^item> Containment and Stack: \<open>GetBytes\<close> and \<open>DoConditional\<close> over a client over the retrying transport over any base: the attempts of
    the door, the redirects of the client and the retries of the transport in one call. Stack_Time: how long such a call takes at most.

  \<^bold>\<open>How the state corresponds\<close>. A \<open>time.Duration\<close> is a 64-bit word read signed; an \<open>int\<close> count is an unbounded
  integer, as no count here can leave its range; the monotonic clock is an integer of nanoseconds. A
  context is its deadline and the instant and reason it ends, fixed in advance, and an operation the
  code calls may end it. A response body is an index into the store, with its bytes, the fault its
  reader ends with and how often it was closed. Variables a closure captures are the door's state. A
  panic is \<open>None\<close>. A type switch or a nil check of the code is a case on a constructor or an option.

  \<^bold>\<open>What the lemmas show\<close>. Errors, Causes and Transience: the verdicts and what outranks what, stable under every
  wrapper the package adds. Backoff, Responses: bounds and wrap-around. Bodies, Transport: each body
  closed exactly once. Redaction, GetBytes, RetryLoop: no credential in an error or a log line. Schedule, Clients: budgets and
  ceilings. Redirects, Configured: containment of a chain, and that chains end. Recovery: what is returned.
  Composition, Confidential: what holds of whole calls. Deadlines, Durations: that they end in time. Interleaving, Sharing: what
  holds of each of many calls at once, and of all of them together, after every step. Revalidation: that a cache is not stale.
  Certtest: that a pin is enforceable. Following: that a client's call ends. Containment: where its requests go. Stack: every response
  closed, every send counted and the deadline kept across the three layers. Stack_Time: that no chain of servers can hold a call.

  \<^bold>\<open>Bounds and fuel\<close>. The loop recurses on the attempts left, the code's own bound, so it always returns;
  \<open>reduceURLErrors\<close> recurses on the code's \<open>maxURLErrorDepth\<close>. The walk over an error's tree is by its size. The loop of
  \<open>net/http\<close>'s client has no bound and is \<open>partial_function (option)\<close>, where \<open>None\<close> is a call that never returns; that it
  returns under every policy of the package is a property. No other definition carries fuel.

  \<^bold>\<open>Parameters\<close>. Code that is not in the repository is an argument: \<open>http.ParseTime\<close>, \<open>net/url\<close>'s parser and
  serialiser, how \<open>net/http\<close> makes the next request of a chain (\<open>net_http\<close>), the client or transport under a door, the caller's hooks and functions, the PEM decoder, the key
  generator. Where a property
  relies on one, its statement names the assumption (\<open>fair\<close>, \<open>counts\<close>, \<open>quiet\<close>, \<open>env_counts\<close>, \<open>env_quiet\<close>, \<open>numbered_env\<close>, \<open>oblivious\<close>,
  \<open>forward\<close>, \<open>prompt_fn\<close>, \<open>prompt_env\<close>, \<open>prompt_rt\<close>, \<open>quick_env\<close>, \<open>quick_rt\<close>, \<open>honest_stack\<close>, \<open>prompt_stack\<close>, \<open>quick_stack\<close>, \<open>keeps_url\<close>, \<open>serves\<close>, \<open>identifies\<close>, \<open>reads_back\<close>, \<open>certifies\<close>, \<open>fresh_keys\<close>, \<open>stores_files\<close>)
  and its witness runs it on a concrete one.

  \<^bold>\<open>Not modelled\<close>. \<open>doc.go\<close> is a comment. The text of structured log lines beyond their attributes, the effects of one attempt or
  one hook split over several instants (in the interleavings each takes effect at one), data races on memory (no mutable
  variable of the package is shared between calls),
  and error types with an \<open>As\<close> method of their own are outside the model.
\<close>

end
